theory Spec2Isabelle
  imports Main "HOL-Library.AList"
begin

section \<open>Python values, errors and dictionaries\<close>

text \<open>
  The registry of \<^verbatim>\<open>hikari/state/state_registry_impl.py\<close> and the channel models of
  \<^verbatim>\<open>hikari/state/models/channels.py\<close>, as functions on an explicit object store.

  A payload is a decoded JSON object: a dictionary from strings to JSON values
  (floating point numbers are left out).
\<close>

datatype pyval =
    PNone
  | PBool bool
  | PInt int
  | PStr string
  | PList "pyval list"
  | PDict "(string \<times> pyval) list"

type_synonym payload = "(string \<times> pyval) list"

text \<open>The exceptions the modelled code can raise.\<close>

datatype error =
    KeyError
  | TypeError
  | ValueError
  | AttributeError
  | CapacityMisconfiguration

type_synonym addr = nat

subsection \<open>The builtin \<^verbatim>\<open>int()\<close>\<close>

text \<open>
  A character is a code point below 256. Of these \<^verbatim>\<open>int()\<close> strips, at both ends of a
  string, the space, the tab, the line feed, the vertical tab, the form feed, the
  carriage return, the next-line character \<^verbatim>\<open>0x85\<close> and the no-break space \<^verbatim>\<open>0xA0\<close>; it
  does not strip the separators \<^verbatim>\<open>0x1C\<close> to \<^verbatim>\<open>0x1F\<close>, which \<^verbatim>\<open>str.strip()\<close> does. The
  number of digits is not limited.
\<close>

definition is_space :: "char \<Rightarrow> bool" where
  "is_space c =
     (c \<in> set [CHR '' '', CHR 0x09, CHR 0x0A, CHR 0x0B, CHR 0x0C, CHR 0x0D, CHR 0x85, CHR 0xA0])"

definition is_digit :: "char \<Rightarrow> bool" where
  "is_digit c = (48 \<le> (of_char c :: nat) \<and> (of_char c :: nat) \<le> 57)"

definition digit_val :: "char \<Rightarrow> int" where
  "digit_val c = int (of_char c :: nat) - 48"

text \<open>Digits, with single underscores allowed between two digits.\<close>

fun digits :: "int \<Rightarrow> string \<Rightarrow> int option" where
  "digits acc [] = Some acc"
| "digits acc [c] = (if is_digit c then Some (10 * acc + digit_val c) else None)"
| "digits acc (c # d # cs) =
     (if is_digit c then
        (if d = CHR ''_'' then digits (10 * acc + digit_val c) cs
         else digits (10 * acc + digit_val c) (d # cs))
      else None)"

definition strip :: "string \<Rightarrow> string" where
  "strip s = rev (dropWhile is_space (rev (dropWhile is_space s)))"

definition unsigned_of_str :: "string \<Rightarrow> int option" where
  "unsigned_of_str s = (if s = [] \<or> \<not> is_digit (last s) then None else digits 0 s)"

definition int_of_str :: "string \<Rightarrow> int option" where
  "int_of_str s =
     (case strip s of
        [] \<Rightarrow> None
      | c # cs \<Rightarrow>
          if c = CHR ''-'' then map_option uminus (unsigned_of_str cs)
          else if c = CHR ''+'' then unsigned_of_str cs
          else unsigned_of_str (c # cs))"

fun py_int :: "pyval \<Rightarrow> error + int" where
  "py_int (PInt i) = Inr i"
| "py_int (PBool b) = Inr (if b then 1 else 0)"
| "py_int (PStr s) = (case int_of_str s of None \<Rightarrow> Inl ValueError | Some i \<Rightarrow> Inr i)"
| "py_int PNone = Inl TypeError"
| "py_int (PList xs) = Inl TypeError"
| "py_int (PDict d) = Inl TypeError"

text \<open>
  \<^verbatim>\<open>transformations.nullable_cast(value, int)\<close>: \<^verbatim>\<open>None\<close> stays \<^verbatim>\<open>None\<close>, anything else is cast.
\<close>

fun nullable_cast_int :: "pyval \<Rightarrow> error + int option" where
  "nullable_cast_int PNone = Inr None"
| "nullable_cast_int v = (case py_int v of Inl e \<Rightarrow> Inl e | Inr i \<Rightarrow> Inr (Some i))"

text \<open>Truthiness, for \<^verbatim>\<open>x or None\<close>.\<close>

fun truthy :: "pyval \<Rightarrow> bool" where
  "truthy PNone = False"
| "truthy (PBool b) = b"
| "truthy (PInt i) = (i \<noteq> 0)"
| "truthy (PStr s) = (s \<noteq> [])"
| "truthy (PList xs) = (xs \<noteq> [])"
| "truthy (PDict d) = (d \<noteq> [])"

text \<open>Iteration over a value: \<^verbatim>\<open>for x in v\<close>.\<close>

fun py_iter :: "pyval \<Rightarrow> error + pyval list" where
  "py_iter (PList xs) = Inr xs"
| "py_iter (PStr s) = Inr (map (\<lambda>c. PStr [c]) s)"
| "py_iter (PDict d) = Inr (map (\<lambda>kv. PStr (fst kv)) d)"
| "py_iter PNone = Inl TypeError"
| "py_iter (PBool b) = Inl TypeError"
| "py_iter (PInt i) = Inl TypeError"

subsection \<open>Dictionaries\<close>

text \<open>
  A dictionary is an association list in insertion order: \<^verbatim>\<open>d[k]\<close> raises
  \<^verbatim>\<open>KeyError\<close> on a missing key, \<^verbatim>\<open>d.get(k)\<close> gives \<^verbatim>\<open>None\<close>, \<^verbatim>\<open>d[k] = v\<close> replaces in
  place or appends, \<^verbatim>\<open>del d[k]\<close> raises \<^verbatim>\<open>KeyError\<close> on a missing key.
\<close>

definition dict_item :: "('k \<times> 'v) list \<Rightarrow> 'k \<Rightarrow> error + 'v" where
  "dict_item d k = (case map_of d k of None \<Rightarrow> Inl KeyError | Some v \<Rightarrow> Inr v)"

definition dict_get :: "(string \<times> pyval) list \<Rightarrow> string \<Rightarrow> pyval" where
  "dict_get d k = (case map_of d k of None \<Rightarrow> PNone | Some v \<Rightarrow> v)"

definition dict_contains :: "('k \<times> 'v) list \<Rightarrow> 'k \<Rightarrow> bool" where
  "dict_contains d k = (map_of d k \<noteq> None)"

definition dict_set :: "('k \<times> 'v) list \<Rightarrow> 'k \<Rightarrow> 'v \<Rightarrow> ('k \<times> 'v) list" where
  "dict_set d k v = AList.update k v d"

definition dict_del :: "('k \<times> 'v) list \<Rightarrow> 'k \<Rightarrow> error + ('k \<times> 'v) list" where
  "dict_del d k = (if dict_contains d k then Inr (AList.delete k d) else Inl KeyError)"

subsection \<open>The bounded index\<close>

text \<open>
  Modelled from the spec: \<^verbatim>\<open>data_structures.LRUDict\<close> is not among the sources. Section 4.2:
  put inserts or refreshes recency and evicts the least recently used entry if the
  capacity is exceeded; get returns the value and refreshes recency, or signals absence;
  remove deletes, with no error if the key is absent; the capacity is fixed at
  construction, and a capacity of zero or less is a construction-time error (section 6).
  The entries are kept least recently used first.
\<close>

record lru =
  capacity :: nat
  entries :: "(int \<times> addr) list"

definition lru_new :: "int \<Rightarrow> error + lru" where
  "lru_new lru_size = (if lru_size \<le> 0 then Inl CapacityMisconfiguration
                       else Inr \<lparr>capacity = nat lru_size, entries = []\<rparr>)"

definition lru_put :: "lru \<Rightarrow> int \<Rightarrow> addr \<Rightarrow> lru" where
  "lru_put c k v =
     (let xs = AList.delete k (entries c) @ [(k, v)]
      in c\<lparr>entries := (if length xs > capacity c then tl xs else xs)\<rparr>)"

definition lru_get :: "lru \<Rightarrow> int \<Rightarrow> addr option \<times> lru" where
  "lru_get c k =
     (case map_of (entries c) k of
        None \<Rightarrow> (None, c)
      | Some v \<Rightarrow> (Some v, c\<lparr>entries := AList.delete k (entries c) @ [(k, v)]\<rparr>))"

definition lru_remove :: "lru \<Rightarrow> int \<Rightarrow> lru" where
  "lru_remove c k = c\<lparr>entries := AList.delete k (entries c)\<rparr>"

definition lru_contains :: "lru \<Rightarrow> int \<Rightarrow> bool" where
  "lru_contains c k = (map_of (entries c) k \<noteq> None)"

section \<open>The objects\<close>

text \<open>
  Objects live in a store, one table per class, and are referred to by address; two
  references are the same object exactly when the addresses are equal. Only
  \<^verbatim>\<open>channels.py\<close> is among the sources. The other model classes are modelled from the
  spec (section 3) and from the attributes the registry reads and writes: each keeps
  its identifier, its relations, and the payload last applied to it in place of its
  remaining fields.
\<close>

datatype channel_class =
    GuildTextChannel
  | DMChannel
  | GuildVoiceChannel
  | GroupDMChannel
  | GuildCategory
  | GuildNewsChannel
  | GuildStoreChannel

text \<open>
  A channel of \<^verbatim>\<open>channels.py\<close>. The classes declare \<^verbatim>\<open>__slots__\<close>; a field outside the
  slots of an object's class keeps its initial value here and is never read.
  \<^verbatim>\<open>overwrites.Overwrite\<close> is not among the sources: an overwrite is kept as its raw
  payload.
\<close>

record channel =
  ch_class :: channel_class
  ch_id :: int
  ch_guild_id :: int
  ch_position :: int
  ch_permission_overwrites :: "pyval list"
  ch_name :: pyval
  ch_parent_id :: "int option"
  ch_topic :: pyval
  ch_rate_limit_per_user :: pyval
  ch_last_message_id :: "int option"
  ch_nsfw :: pyval
  ch_recipients :: "addr list"
  ch_bitrate :: pyval
  ch_user_limit :: pyval
  ch_icon_hash :: pyval
  ch_owner_id :: "int option"
  ch_owner_application_id :: "int option"

text \<open>Modelled from the spec: \<^verbatim>\<open>guilds.Guild\<close> (section 3).\<close>

record guild =
  g_id :: int
  g_unavailable :: bool
  g_channels :: "(int \<times> addr) list"
  g_roles :: "(int \<times> addr) list"
  g_members :: "(int \<times> addr) list"
  g_emojis :: "(int \<times> addr) list"
  g_data :: payload

text \<open>Modelled from the spec: \<^verbatim>\<open>roles.Role\<close>, constructed from a payload and a guild id.\<close>

record role =
  r_id :: int
  r_guild_id :: int
  r_data :: payload

text \<open>
  Modelled from the spec: \<^verbatim>\<open>members.Member\<close>, constructed from a guild object and a
  payload, keyed by its user's id. The role list holds references; a reference the
  registry could not resolve is \<^verbatim>\<open>None\<close>.
\<close>

record member =
  mb_id :: int
  mb_guild :: addr
  mb_roles :: "addr option list"
  mb_nick :: pyval
  mb_presence :: "payload option"

text \<open>
  Modelled from the spec: the emoji classes. An emoji with a guild id is a
  \<^verbatim>\<open>GuildEmoji\<close>; \<^verbatim>\<open>==\<close> on emojis is identity (section 4.4).
\<close>

record emoji =
  e_id :: "int option"
  e_guild_id :: "int option"
  e_data :: payload

text \<open>Modelled from the spec: \<^verbatim>\<open>messages.Message\<close>: id, channel reference, reaction list.\<close>

record message =
  msg_id :: int
  msg_channel_id :: int
  msg_reactions :: "addr list"
  msg_data :: payload

text \<open>\<^verbatim>\<open>reactions.Reaction(count, emoji, message)\<close>.\<close>

record reaction =
  rc_count :: int
  rc_emoji :: addr
  rc_message :: addr

text \<open>Modelled from the spec: \<^verbatim>\<open>users.User\<close> and its subclass \<^verbatim>\<open>users.BotUser\<close>.\<close>

record user =
  u_bot :: bool
  u_id :: int
  u_data :: payload

section \<open>The registry\<close>

text \<open>
  The slots of \<^verbatim>\<open>StateRegistryImpl\<close>, and the object store. The three
  \<^verbatim>\<open>WeakValueDictionary\<close> slots hold the associations the registry has written and not
  deleted; the garbage collector, which drops an entry once nothing else refers to its
  object, is not modelled.
\<close>

record registry =
  dm_channels :: lru
  emojis :: "(int \<times> addr) list"
  guilds :: "(int \<times> addr) list"
  guild_channels :: "(int \<times> addr) list"
  users :: "(int \<times> addr) list"
  message_cache :: lru
  user :: "addr option"
  next_addr :: addr
  channel_objs :: "addr \<Rightarrow> channel"
  guild_objs :: "addr \<Rightarrow> guild"
  member_objs :: "addr \<Rightarrow> member"
  role_objs :: "addr \<Rightarrow> role"
  emoji_objs :: "addr \<Rightarrow> emoji"
  message_objs :: "addr \<Rightarrow> message"
  reaction_objs :: "addr \<Rightarrow> reaction"
  user_objs :: "addr \<Rightarrow> user"

definition blank_channel :: channel where
  "blank_channel = \<lparr>ch_class = GuildTextChannel, ch_id = 0, ch_guild_id = 0, ch_position = 0,
     ch_permission_overwrites = [], ch_name = PNone, ch_parent_id = None, ch_topic = PNone,
     ch_rate_limit_per_user = PNone, ch_last_message_id = None, ch_nsfw = PNone,
     ch_recipients = [], ch_bitrate = PNone, ch_user_limit = PNone, ch_icon_hash = PNone,
     ch_owner_id = None, ch_owner_application_id = None\<rparr>"

definition blank_guild :: guild where
  "blank_guild = \<lparr>g_id = 0, g_unavailable = False, g_channels = [], g_roles = [],
     g_members = [], g_emojis = [], g_data = []\<rparr>"

definition blank_member :: member where
  "blank_member = \<lparr>mb_id = 0, mb_guild = 0, mb_roles = [], mb_nick = PNone, mb_presence = None\<rparr>"

definition blank_role :: role where
  "blank_role = \<lparr>r_id = 0, r_guild_id = 0, r_data = []\<rparr>"

definition blank_emoji :: emoji where
  "blank_emoji = \<lparr>e_id = None, e_guild_id = None, e_data = []\<rparr>"

definition blank_message :: message where
  "blank_message = \<lparr>msg_id = 0, msg_channel_id = 0, msg_reactions = [], msg_data = []\<rparr>"

definition blank_reaction :: reaction where
  "blank_reaction = \<lparr>rc_count = 0, rc_emoji = 0, rc_message = 0\<rparr>"

definition blank_user :: user where
  "blank_user = \<lparr>u_bot = False, u_id = 0, u_data = []\<rparr>"

text \<open>A registry with the two bounded indices given, nothing cached and no object.\<close>

definition new_registry :: "lru \<Rightarrow> lru \<Rightarrow> registry" where
  "new_registry dm mc =
     \<lparr>dm_channels = dm, emojis = [], guilds = [], guild_channels = [],
      users = [], message_cache = mc, user = None, next_addr = 0,
      channel_objs = (\<lambda>_. blank_channel), guild_objs = (\<lambda>_. blank_guild),
      member_objs = (\<lambda>_. blank_member), role_objs = (\<lambda>_. blank_role),
      emoji_objs = (\<lambda>_. blank_emoji), message_objs = (\<lambda>_. blank_message),
      reaction_objs = (\<lambda>_. blank_reaction), user_objs = (\<lambda>_. blank_user)\<rparr>"

text \<open>\<^verbatim>\<open>StateRegistryImpl.__init__(message_cache_size, user_dm_channel_size)\<close>.\<close>

definition init :: "int \<Rightarrow> int \<Rightarrow> error + registry" where
  "init message_cache_size user_dm_channel_size =
     (case lru_new user_dm_channel_size of
        Inl e \<Rightarrow> Inl e
      | Inr dm \<Rightarrow>
          (case lru_new message_cache_size of
             Inl e \<Rightarrow> Inl e
           | Inr mc \<Rightarrow> Inr (new_registry dm mc)))"

section \<open>Reaction counting\<close>

text \<open>
  The loop of \<^verbatim>\<open>increment_reaction_count\<close> over \<^verbatim>\<open>message_obj.reactions\<close>: the first
  reaction whose emoji is \<^verbatim>\<open>emoji_obj\<close> has its count incremented and is returned.
  \<^verbatim>\<open>None\<close> stands for the loop running to its end.
\<close>

fun increment_loop :: "registry \<Rightarrow> addr \<Rightarrow> addr list \<Rightarrow> (addr \<times> registry) option" where
  "increment_loop s emoji_obj [] = None"
| "increment_loop s emoji_obj (reaction_obj # rest) =
     (if rc_emoji (reaction_objs s reaction_obj) = emoji_obj then
        Some (reaction_obj,
              s\<lparr>reaction_objs := (reaction_objs s)(reaction_obj :=
                   (reaction_objs s reaction_obj)
                     \<lparr>rc_count := rc_count (reaction_objs s reaction_obj) + 1\<rparr>)\<rparr>)
      else increment_loop s emoji_obj rest)"

text \<open>\<^verbatim>\<open>reactions.Reaction(count, emoji_obj, message_obj)\<close>: a new object.\<close>

definition new_reaction :: "registry \<Rightarrow> int \<Rightarrow> addr \<Rightarrow> addr \<Rightarrow> addr \<times> registry" where
  "new_reaction s count emoji_obj message_obj =
     (next_addr s,
      s\<lparr>next_addr := Suc (next_addr s),
        reaction_objs := (reaction_objs s)(next_addr s :=
          \<lparr>rc_count = count, rc_emoji = emoji_obj, rc_message = message_obj\<rparr>)\<rparr>)"

text \<open>\<^verbatim>\<open>message_obj.reactions.append(reaction_obj)\<close>.\<close>

definition append_reaction :: "registry \<Rightarrow> addr \<Rightarrow> addr \<Rightarrow> registry" where
  "append_reaction s message_obj reaction_obj =
     s\<lparr>message_objs := (message_objs s)(message_obj :=
          (message_objs s message_obj)
            \<lparr>msg_reactions := msg_reactions (message_objs s message_obj) @ [reaction_obj]\<rparr>)\<rparr>"

definition increment_reaction_count :: "registry \<Rightarrow> addr \<Rightarrow> addr \<Rightarrow> addr \<times> registry" where
  "increment_reaction_count s message_obj emoji_obj =
     (case increment_loop s emoji_obj (msg_reactions (message_objs s message_obj)) of
        Some res \<Rightarrow> res
      | None \<Rightarrow>
          (let (reaction_obj, s1) = new_reaction s 1 emoji_obj message_obj
           in (reaction_obj, append_reaction s1 message_obj reaction_obj)))"

text \<open>\<^verbatim>\<open>message_obj.reactions.remove(reaction_obj)\<close>: the first occurrence goes.\<close>

definition remove_reaction :: "registry \<Rightarrow> addr \<Rightarrow> addr \<Rightarrow> registry" where
  "remove_reaction s message_obj reaction_obj =
     s\<lparr>message_objs := (message_objs s)(message_obj :=
          (message_objs s message_obj)
            \<lparr>msg_reactions := remove1 reaction_obj (msg_reactions (message_objs s message_obj))\<rparr>)\<rparr>"

definition set_count :: "registry \<Rightarrow> addr \<Rightarrow> int \<Rightarrow> registry" where
  "set_count s reaction_obj n =
     s\<lparr>reaction_objs := (reaction_objs s)(reaction_obj :=
          (reaction_objs s reaction_obj)\<lparr>rc_count := n\<rparr>)\<rparr>"

text \<open>The loop of \<^verbatim>\<open>decrement_reaction_count\<close>.\<close>

fun decrement_loop :: "registry \<Rightarrow> addr \<Rightarrow> addr \<Rightarrow> addr list \<Rightarrow> (addr \<times> registry) option" where
  "decrement_loop s message_obj emoji_obj [] = None"
| "decrement_loop s message_obj emoji_obj (reaction_obj # rest) =
     (if rc_emoji (reaction_objs s reaction_obj) = emoji_obj then
        (let s1 = set_count s reaction_obj (rc_count (reaction_objs s reaction_obj) - 1)
         in Some (reaction_obj,
                  if rc_count (reaction_objs s1 reaction_obj) = 0
                  then remove_reaction s1 message_obj reaction_obj else s1))
      else decrement_loop s message_obj emoji_obj rest)"

definition decrement_reaction_count :: "registry \<Rightarrow> addr \<Rightarrow> addr \<Rightarrow> addr option \<times> registry" where
  "decrement_reaction_count s message_obj emoji_obj =
     (case decrement_loop s message_obj emoji_obj (msg_reactions (message_objs s message_obj)) of
        Some (reaction_obj, s1) \<Rightarrow> (Some reaction_obj, s1)
      | None \<Rightarrow> (None, s))"

section \<open>Lookups\<close>

definition get_guild_by_id :: "registry \<Rightarrow> int \<Rightarrow> addr option" where
  "get_guild_by_id s guild_id = map_of (guilds s) guild_id"

definition get_emoji_by_id :: "registry \<Rightarrow> int \<Rightarrow> addr option" where
  "get_emoji_by_id s emoji_id = map_of (emojis s) emoji_id"

text \<open>
  \<^verbatim>\<open>self._guild_channels.get(channel_id) or self._dm_channels.get(channel_id)\<close>: the
  bounded index is consulted, and its recency refreshed, only when the weak index has
  no entry.
\<close>

definition get_channel_by_id :: "registry \<Rightarrow> int \<Rightarrow> addr option \<times> registry" where
  "get_channel_by_id s channel_id =
     (case map_of (guild_channels s) channel_id of
        Some c \<Rightarrow> (Some c, s)
      | None \<Rightarrow>
          (case lru_get (dm_channels s) channel_id of
             (r, dm) \<Rightarrow> (r, s\<lparr>dm_channels := dm\<rparr>)))"

definition get_message_by_id :: "registry \<Rightarrow> int \<Rightarrow> addr option \<times> registry" where
  "get_message_by_id s message_id =
     (case lru_get (message_cache s) message_id of
        (r, mc) \<Rightarrow> (r, s\<lparr>message_cache := mc\<rparr>))"

definition get_member_by_id :: "registry \<Rightarrow> int \<Rightarrow> int \<Rightarrow> addr option" where
  "get_member_by_id s user_id guild_id =
     (case map_of (guilds s) guild_id of
        None \<Rightarrow> None
      | Some g \<Rightarrow> map_of (g_members (guild_objs s g)) user_id)"

definition get_role_by_id :: "registry \<Rightarrow> int \<Rightarrow> int \<Rightarrow> addr option" where
  "get_role_by_id s guild_id role_id =
     (case map_of (guilds s) guild_id of
        None \<Rightarrow> None
      | Some g \<Rightarrow> map_of (g_roles (guild_objs s g)) role_id)"

definition get_user_by_id :: "registry \<Rightarrow> int \<Rightarrow> addr option" where
  "get_user_by_id s user_id =
     (case user s of
        Some b \<Rightarrow> if u_id (user_objs s b) = user_id then Some b else map_of (users s) user_id
      | None \<Rightarrow> map_of (users s) user_id)"

section \<open>Users\<close>

text \<open>\<^verbatim>\<open>int(payload[key])\<close>.\<close>

definition get_int :: "payload \<Rightarrow> string \<Rightarrow> error + int" where
  "get_int p k = (case dict_item p k of Inl e \<Rightarrow> Inl e | Inr v \<Rightarrow> py_int v)"

text \<open>
  Modelled from the spec: the constructors \<^verbatim>\<open>users.User(state, payload)\<close> and
  \<^verbatim>\<open>users.BotUser(state, payload)\<close> make a new object with the payload's id, and
  \<^verbatim>\<open>update_state(payload)\<close> refreshes the fields of an object and keeps its id.
\<close>

definition new_user :: "registry \<Rightarrow> bool \<Rightarrow> payload \<Rightarrow> (error + addr) \<times> registry" where
  "new_user s is_bot p =
     (case get_int p ''id'' of
        Inl e \<Rightarrow> (Inl e, s)
      | Inr i \<Rightarrow>
          (Inr (next_addr s),
           s\<lparr>next_addr := Suc (next_addr s),
             user_objs := (user_objs s)(next_addr s := \<lparr>u_bot = is_bot, u_id = i, u_data = p\<rparr>)\<rparr>))"

definition user_update_state :: "registry \<Rightarrow> addr \<Rightarrow> payload \<Rightarrow> registry" where
  "user_update_state s self p =
     s\<lparr>user_objs := (user_objs s)(self := (user_objs s self)\<lparr>u_data := p\<rparr>)\<rparr>"

definition parse_bot_user :: "registry \<Rightarrow> payload \<Rightarrow> (error + addr) \<times> registry" where
  "parse_bot_user s bot_user_payload =
     (case user s of
        Some b \<Rightarrow> (Inr b, user_update_state s b bot_user_payload)
      | None \<Rightarrow>
          (case new_user s True bot_user_payload of
             (Inl e, s1) \<Rightarrow> (Inl e, s1)
           | (Inr b, s1) \<Rightarrow> (Inr b, s1\<lparr>user := Some b\<rparr>)))"

definition parse_user :: "registry \<Rightarrow> payload \<Rightarrow> (error + addr) \<times> registry" where
  "parse_user s user_payload =
     (case get_int user_payload ''id'' of
        Inl e \<Rightarrow> (Inl e, s)
      | Inr user_id \<Rightarrow>
          if (case user s of None \<Rightarrow> False | Some b \<Rightarrow> user_id = u_id (user_objs s b))
             \<or> dict_contains user_payload ''mfa_enabled''
             \<or> dict_contains user_payload ''verified''
          then parse_bot_user s user_payload
          else
            (case get_user_by_id s user_id of
               None \<Rightarrow>
                 (case new_user s False user_payload of
                    (Inl e, s1) \<Rightarrow> (Inl e, s1)
                  | (Inr u, s1) \<Rightarrow> (Inr u, s1\<lparr>users := dict_set (users s1) user_id u\<rparr>))
             | Some _ \<Rightarrow>
                 (case dict_item (users s) user_id of
                    Inl e \<Rightarrow> (Inl e, s)
                  | Inr existing_user \<Rightarrow>
                      (Inr existing_user, user_update_state s existing_user user_payload))))"

text \<open>\<^verbatim>\<open>parse_user(u)\<close> on an element of a list: a value that is no object cannot be indexed by \<^verbatim>\<open>"id"\<close>.\<close>

fun parse_user_value :: "registry \<Rightarrow> pyval \<Rightarrow> (error + addr) \<times> registry" where
  "parse_user_value s (PDict p) = parse_user s p"
| "parse_user_value s v = (Inl TypeError, s)"

text \<open>\<^verbatim>\<open>[self._state.parse_user(u) for u in ...]\<close>.\<close>

fun parse_users :: "registry \<Rightarrow> pyval list \<Rightarrow> (error + addr list) \<times> registry" where
  "parse_users s [] = (Inr [], s)"
| "parse_users s (u # us) =
     (case parse_user_value s u of
        (Inl e, s1) \<Rightarrow> (Inl e, s1)
      | (Inr a, s1) \<Rightarrow>
          (case parse_users s1 us of
             (Inl e, s2) \<Rightarrow> (Inl e, s2)
           | (Inr as, s2) \<Rightarrow> (Inr (a # as), s2)))"

section \<open>Channels\<close>

text \<open>
  A method body is a sequence of statements, each of which may raise; what the earlier
  statements wrote stays written.
\<close>

type_synonym step = "registry \<Rightarrow> error option \<times> registry"

fun run_steps :: "step list \<Rightarrow> step" where
  "run_steps [] s = (None, s)"
| "run_steps (f # fs) s =
     (case f s of
        (Some e, s1) \<Rightarrow> (Some e, s1)
      | (None, s1) \<Rightarrow> run_steps fs s1)"

text \<open>\<^verbatim>\<open>self.attr = value\<close> on a channel, where computing the value may raise.\<close>

definition set_attr :: "addr \<Rightarrow> (error + 'v) \<Rightarrow> ('v \<Rightarrow> channel \<Rightarrow> channel) \<Rightarrow> step" where
  "set_attr self v f s =
     (case v of
        Inl e \<Rightarrow> (Some e, s)
      | Inr x \<Rightarrow> (None, s\<lparr>channel_objs := (channel_objs s)(self := f x (channel_objs s self))\<rparr>))"

text \<open>\<^verbatim>\<open>payload.get(key, default)\<close>.\<close>

definition dict_get_default :: "payload \<Rightarrow> string \<Rightarrow> pyval \<Rightarrow> pyval" where
  "dict_get_default p k d = (case map_of p k of None \<Rightarrow> d | Some v \<Rightarrow> v)"

text \<open>\<^verbatim>\<open>x or None\<close>.\<close>

definition or_none :: "pyval \<Rightarrow> pyval" where
  "or_none v = (if truthy v then v else PNone)"

text \<open>The class attribute \<^verbatim>\<open>is_dm\<close>.\<close>

fun is_dm :: "channel_class \<Rightarrow> bool" where
  "is_dm GuildTextChannel = False"
| "is_dm DMChannel = True"
| "is_dm GuildVoiceChannel = False"
| "is_dm GroupDMChannel = True"
| "is_dm GuildCategory = False"
| "is_dm GuildNewsChannel = False"
| "is_dm GuildStoreChannel = False"

definition GuildChannel_update_state :: "addr \<Rightarrow> payload \<Rightarrow> step" where
  "GuildChannel_update_state self p =
     run_steps
       [set_attr self (get_int p ''position'') (\<lambda>v c. c\<lparr>ch_position := v\<rparr>),
        set_attr self
          (case dict_item p ''permission_overwrites'' of Inl e \<Rightarrow> Inl e | Inr v \<Rightarrow> py_iter v)
          (\<lambda>v c. c\<lparr>ch_permission_overwrites := v\<rparr>),
        set_attr self (dict_item p ''name'') (\<lambda>v c. c\<lparr>ch_name := v\<rparr>),
        set_attr self (nullable_cast_int (dict_get p ''parent_id''))
          (\<lambda>v c. c\<lparr>ch_parent_id := v\<rparr>)]"

definition GuildTextChannel_update_state :: "addr \<Rightarrow> payload \<Rightarrow> step" where
  "GuildTextChannel_update_state self p =
     run_steps
       [GuildChannel_update_state self p,
        set_attr self (Inr (dict_get_default p ''nsfw'' (PBool False))) (\<lambda>v c. c\<lparr>ch_nsfw := v\<rparr>),
        set_attr self (Inr (dict_get p ''topic'')) (\<lambda>v c. c\<lparr>ch_topic := v\<rparr>),
        set_attr self (Inr (dict_get_default p ''rate_limit_per_user'' (PInt 0)))
          (\<lambda>v c. c\<lparr>ch_rate_limit_per_user := v\<rparr>),
        set_attr self (nullable_cast_int (dict_get p ''last_message_id''))
          (\<lambda>v c. c\<lparr>ch_last_message_id := v\<rparr>)]"

text \<open>
  \<^verbatim>\<open>self.recipients = [self._state.parse_user(u) for u in payload.get("recipients",
  EMPTY_SEQUENCE)]\<close>: the users are parsed into the registry.
\<close>

definition set_recipients :: "addr \<Rightarrow> payload \<Rightarrow> step" where
  "set_recipients self p s =
     (case (case map_of p ''recipients'' of None \<Rightarrow> Inr [] | Some v \<Rightarrow> py_iter v) of
        Inl e \<Rightarrow> (Some e, s)
      | Inr us \<Rightarrow>
          (case parse_users s us of
             (Inl e, s1) \<Rightarrow> (Some e, s1)
           | (Inr recipients, s1) \<Rightarrow>
               (None, s1\<lparr>channel_objs := (channel_objs s1)(self :=
                            (channel_objs s1 self)\<lparr>ch_recipients := recipients\<rparr>)\<rparr>)))"

definition DMChannel_update_state :: "addr \<Rightarrow> payload \<Rightarrow> step" where
  "DMChannel_update_state self p =
     run_steps
       [set_attr self (nullable_cast_int (dict_get p ''last_message_id''))
          (\<lambda>v c. c\<lparr>ch_last_message_id := v\<rparr>),
        set_recipients self p]"

definition GuildVoiceChannel_update_state :: "addr \<Rightarrow> payload \<Rightarrow> step" where
  "GuildVoiceChannel_update_state self p =
     run_steps
       [GuildChannel_update_state self p,
        set_attr self (Inr (or_none (dict_get p ''bitrate''))) (\<lambda>v c. c\<lparr>ch_bitrate := v\<rparr>),
        set_attr self (Inr (or_none (dict_get p ''user_limit''))) (\<lambda>v c. c\<lparr>ch_user_limit := v\<rparr>)]"

definition GroupDMChannel_update_state :: "addr \<Rightarrow> payload \<Rightarrow> step" where
  "GroupDMChannel_update_state self p =
     run_steps
       [DMChannel_update_state self p,
        set_attr self (Inr (dict_get p ''icon'')) (\<lambda>v c. c\<lparr>ch_icon_hash := v\<rparr>),
        set_attr self (Inr (dict_get p ''name'')) (\<lambda>v c. c\<lparr>ch_name := v\<rparr>),
        set_attr self (nullable_cast_int (dict_get p ''application_id''))
          (\<lambda>v c. c\<lparr>ch_owner_application_id := v\<rparr>),
        set_attr self (nullable_cast_int (dict_get p ''owner_id''))
          (\<lambda>v c. c\<lparr>ch_owner_id := v\<rparr>)]"

definition GuildNewsChannel_update_state :: "addr \<Rightarrow> payload \<Rightarrow> step" where
  "GuildNewsChannel_update_state self p =
     run_steps
       [GuildChannel_update_state self p,
        set_attr self (Inr (dict_get_default p ''nsfw'' (PBool False))) (\<lambda>v c. c\<lparr>ch_nsfw := v\<rparr>),
        set_attr self (Inr (dict_get p ''topic'')) (\<lambda>v c. c\<lparr>ch_topic := v\<rparr>),
        set_attr self (nullable_cast_int (dict_get p ''last_message_id''))
          (\<lambda>v c. c\<lparr>ch_last_message_id := v\<rparr>)]"

text \<open>\<^verbatim>\<open>channel_obj.update_state(payload)\<close>, by the class of the object.\<close>

definition update_state :: "addr \<Rightarrow> payload \<Rightarrow> step" where
  "update_state self p s =
     (case ch_class (channel_objs s self) of
        GuildTextChannel \<Rightarrow> GuildTextChannel_update_state self p s
      | DMChannel \<Rightarrow> DMChannel_update_state self p s
      | GuildVoiceChannel \<Rightarrow> GuildVoiceChannel_update_state self p s
      | GroupDMChannel \<Rightarrow> GroupDMChannel_update_state self p s
      | GuildCategory \<Rightarrow> GuildChannel_update_state self p s
      | GuildNewsChannel \<Rightarrow> GuildNewsChannel_update_state self p s
      | GuildStoreChannel \<Rightarrow> GuildChannel_update_state self p s)"

text \<open>
  The constructors: \<^verbatim>\<open>GuildChannel.__init__\<close> sets \<^verbatim>\<open>guild_id\<close> first, then
  \<^verbatim>\<open>Channel.__init__\<close> sets \<^verbatim>\<open>id\<close> and calls \<^verbatim>\<open>update_state\<close>. The object exists from the
  start; when the constructor raises, nothing refers to it.
\<close>

definition new_channel :: "channel_class \<Rightarrow> payload \<Rightarrow> registry \<Rightarrow> (error + addr) \<times> registry" where
  "new_channel cls p s =
     (let self = next_addr s;
          s1 = s\<lparr>next_addr := Suc self,
                 channel_objs := (channel_objs s)(self := blank_channel\<lparr>ch_class := cls\<rparr>)\<rparr>
      in case run_steps
                ((if is_dm cls then []
                  else [set_attr self (get_int p ''guild_id'') (\<lambda>v c. c\<lparr>ch_guild_id := v\<rparr>)])
                 @ [set_attr self (get_int p ''id'') (\<lambda>v c. c\<lparr>ch_id := v\<rparr>),
                    update_state self p]) s1 of
           (Some e, s2) \<Rightarrow> (Inl e, s2)
         | (None, s2) \<Rightarrow> (Inr self, s2))"

text \<open>\<^verbatim>\<open>Channel._channel_implementations\<close>, filled by \<^verbatim>\<open>__init_subclass__\<close>.\<close>

definition channel_implementations :: "(int \<times> channel_class) list" where
  "channel_implementations =
     [(0, GuildTextChannel), (1, DMChannel), (2, GuildVoiceChannel), (3, GroupDMChannel),
      (4, GuildCategory), (5, GuildNewsChannel), (6, GuildStoreChannel)]"

text \<open>
  Looking a payload value up as a key of that dictionary: \<^verbatim>\<open>True\<close> and \<^verbatim>\<open>False\<close> are
  the keys 1 and 0, a list or an object cannot be hashed.
\<close>

fun implementation_of :: "pyval \<Rightarrow> error + channel_class option" where
  "implementation_of (PInt i) = Inr (map_of channel_implementations i)"
| "implementation_of (PBool b) = Inr (map_of channel_implementations (if b then 1 else 0))"
| "implementation_of PNone = Inr None"
| "implementation_of (PStr t) = Inr None"
| "implementation_of (PList xs) = Inl TypeError"
| "implementation_of (PDict d) = Inl TypeError"

definition is_channel_type_dm :: "pyval \<Rightarrow> error + bool" where
  "is_channel_type_dm channel_type =
     (case implementation_of channel_type of
        Inl e \<Rightarrow> Inl e
      | Inr None \<Rightarrow> Inr False
      | Inr (Some cls) \<Rightarrow> Inr (is_dm cls))"

text \<open>\<^verbatim>\<open>channels.parse_channel(global_state, payload)\<close>.\<close>

definition channels_parse_channel :: "payload \<Rightarrow> registry \<Rightarrow> (error + addr) \<times> registry" where
  "channels_parse_channel p s =
     (case implementation_of (dict_get p ''type'') of
        Inl e \<Rightarrow> (Inl e, s)
      | Inr None \<Rightarrow> (Inl TypeError, s)
      | Inr (Some cls) \<Rightarrow> new_channel cls p s)"

text \<open>
  The property \<^verbatim>\<open>GuildChannel.guild\<close>: the guild is looked up by \<^verbatim>\<open>guild_id\<close>; the DM
  classes have no such attribute.
\<close>

definition channel_guild :: "registry \<Rightarrow> addr \<Rightarrow> error + addr option" where
  "channel_guild s channel_obj =
     (if is_dm (ch_class (channel_objs s channel_obj)) then Inl AttributeError
      else Inr (get_guild_by_id s (ch_guild_id (channel_objs s channel_obj))))"

text \<open>\<^verbatim>\<open>guild_obj.channels[channel_id] = channel_obj\<close>.\<close>

definition guild_set_channel :: "registry \<Rightarrow> addr \<Rightarrow> int \<Rightarrow> addr \<Rightarrow> registry" where
  "guild_set_channel s guild_obj channel_id channel_obj =
     s\<lparr>guild_objs := (guild_objs s)(guild_obj :=
          (guild_objs s guild_obj)
            \<lparr>g_channels := dict_set (g_channels (guild_objs s guild_obj)) channel_id channel_obj\<rparr>)\<rparr>"

text \<open>
  \<^verbatim>\<open>StateRegistryImpl.parse_channel(channel_payload, guild_obj)\<close>. The result is the
  channel or the exception raised, with the registry as the call leaves it.
\<close>

definition parse_channel :: "registry \<Rightarrow> payload \<Rightarrow> addr option \<Rightarrow> (error + addr) \<times> registry" where
  "parse_channel s channel_payload guild_obj =
     (case get_int channel_payload ''id'' of
        Inl e \<Rightarrow> (Inl e, s)
      | Inr channel_id \<Rightarrow>
          (case get_channel_by_id s channel_id of
             (found, s1) \<Rightarrow>
               (let p = (case guild_obj of
                           None \<Rightarrow> channel_payload
                         | Some g \<Rightarrow> dict_set channel_payload ''guild_id'' (PInt (g_id (guild_objs s1 g))))
                in case found of
                     Some channel_obj \<Rightarrow>
                       (case update_state channel_obj p s1 of
                          (Some e, s2) \<Rightarrow> (Inl e, s2)
                        | (None, s2) \<Rightarrow> (Inr channel_obj, s2))
                   | None \<Rightarrow>
                       (case channels_parse_channel p s1 of
                          (Inl e, s2) \<Rightarrow> (Inl e, s2)
                        | (Inr channel_obj, s2) \<Rightarrow>
                            (case dict_item p ''type'' of
                               Inl e \<Rightarrow> (Inl e, s2)
                             | Inr t \<Rightarrow>
                                 (case is_channel_type_dm t of
                                    Inl e \<Rightarrow> (Inl e, s2)
                                  | Inr True \<Rightarrow>
                                      (Inr channel_obj,
                                       s2\<lparr>dm_channels := lru_put (dm_channels s2) channel_id channel_obj\<rparr>)
                                  | Inr False \<Rightarrow>
                                      (let s3 = s2\<lparr>guild_channels :=
                                                   dict_set (guild_channels s2) channel_id channel_obj\<rparr>
                                       in case channel_guild s3 channel_obj of
                                            Inl e \<Rightarrow> (Inl e, s3)
                                          | Inr None \<Rightarrow> (Inl AttributeError, s3)
                                          | Inr (Some g) \<Rightarrow>
                                              (Inr channel_obj,
                                               guild_set_channel s3 g channel_id channel_obj))))))))"

section \<open>Guilds, roles, members and emojis\<close>

text \<open>
  Modelled from the spec: \<^verbatim>\<open>guilds.Guild(state, payload)\<close> makes a guild with the
  payload's id and unavailable flag and with empty child collections; the children
  enter through \<^verbatim>\<open>parse_channel\<close>, \<^verbatim>\<open>parse_role\<close>, \<^verbatim>\<open>parse_member\<close> and \<^verbatim>\<open>parse_emoji\<close>.
  \<^verbatim>\<open>Guild.update_state(payload)\<close> refreshes the fields and keeps id and children.
\<close>

definition new_guild :: "registry \<Rightarrow> payload \<Rightarrow> int \<Rightarrow> addr \<times> registry" where
  "new_guild s p guild_id =
     (next_addr s,
      s\<lparr>next_addr := Suc (next_addr s),
        guild_objs := (guild_objs s)(next_addr s :=
          \<lparr>g_id = guild_id,
           g_unavailable = truthy (dict_get_default p ''unavailable'' (PBool False)),
           g_channels = [], g_roles = [], g_members = [], g_emojis = [], g_data = p\<rparr>)\<rparr>)"

definition guild_update_state :: "registry \<Rightarrow> addr \<Rightarrow> payload \<Rightarrow> registry" where
  "guild_update_state s self p =
     s\<lparr>guild_objs := (guild_objs s)(self := (guild_objs s self)\<lparr>g_data := p\<rparr>)\<rparr>"

definition set_guild_unavailability :: "registry \<Rightarrow> addr \<Rightarrow> bool \<Rightarrow> registry" where
  "set_guild_unavailability s guild_obj unavailability =
     s\<lparr>guild_objs := (guild_objs s)(guild_obj :=
          (guild_objs s guild_obj)\<lparr>g_unavailable := unavailability\<rparr>)\<rparr>"

definition parse_guild :: "registry \<Rightarrow> payload \<Rightarrow> (error + addr) \<times> registry" where
  "parse_guild s guild_payload =
     (case get_int guild_payload ''id'' of
        Inl e \<Rightarrow> (Inl e, s)
      | Inr guild_id \<Rightarrow>
          (case get_guild_by_id s guild_id of
             Some guild_obj \<Rightarrow>
               if truthy (dict_get_default guild_payload ''unavailable'' (PBool False))
               then (Inr guild_obj, set_guild_unavailability s guild_obj True)
               else (Inr guild_obj, guild_update_state s guild_obj guild_payload)
           | None \<Rightarrow>
               (case new_guild s guild_payload guild_id of
                  (guild_obj, s1) \<Rightarrow>
                    (Inr guild_obj, s1\<lparr>guilds := dict_set (guilds s1) guild_id guild_obj\<rparr>))))"

text \<open>
  Modelled from the spec: \<^verbatim>\<open>roles.Role(state, payload, guild_id)\<close> and
  \<^verbatim>\<open>Role.update_state(payload)\<close>. The property \<^verbatim>\<open>Role.guild\<close> resolves the guild id
  through the registry, as \<^verbatim>\<open>GuildChannel.guild\<close> does; \<^verbatim>\<open>==\<close> on roles is identity.
\<close>

definition new_role :: "registry \<Rightarrow> payload \<Rightarrow> int \<Rightarrow> int \<Rightarrow> addr \<times> registry" where
  "new_role s p role_id guild_id =
     (next_addr s,
      s\<lparr>next_addr := Suc (next_addr s),
        role_objs := (role_objs s)(next_addr s :=
          \<lparr>r_id = role_id, r_guild_id = guild_id, r_data = p\<rparr>)\<rparr>)"

definition role_update_state :: "registry \<Rightarrow> addr \<Rightarrow> payload \<Rightarrow> registry" where
  "role_update_state s self p =
     s\<lparr>role_objs := (role_objs s)(self := (role_objs s self)\<lparr>r_data := p\<rparr>)\<rparr>"

definition role_guild :: "registry \<Rightarrow> addr \<Rightarrow> addr option" where
  "role_guild s role_obj = get_guild_by_id s (r_guild_id (role_objs s role_obj))"

text \<open>\<^verbatim>\<open>guild_obj.roles[role_id] = role\<close>.\<close>

definition guild_set_role :: "registry \<Rightarrow> addr \<Rightarrow> int \<Rightarrow> addr \<Rightarrow> registry" where
  "guild_set_role s guild_obj role_id role_obj =
     s\<lparr>guild_objs := (guild_objs s)(guild_obj :=
          (guild_objs s guild_obj)
            \<lparr>g_roles := dict_set (g_roles (guild_objs s guild_obj)) role_id role_obj\<rparr>)\<rparr>"

definition parse_role :: "registry \<Rightarrow> payload \<Rightarrow> addr \<Rightarrow> (error + addr) \<times> registry" where
  "parse_role s role_payload guild_obj =
     (case get_int role_payload ''id'' of
        Inl e \<Rightarrow> (Inl e, s)
      | Inr role_id \<Rightarrow>
          (case map_of (g_roles (guild_objs s guild_obj)) role_id of
             Some role_obj \<Rightarrow> (Inr role_obj, role_update_state s role_obj role_payload)
           | None \<Rightarrow>
               (case new_role s role_payload role_id (g_id (guild_objs s guild_obj)) of
                  (role_obj, s1) \<Rightarrow> (Inr role_obj, guild_set_role s1 guild_obj role_id role_obj))))"

text \<open>
  \<^verbatim>\<open>[self.get_role_by_id(guild_obj.id, int(role_id)) for role_id in
  member_payload["roles"]]\<close>.
\<close>

fun resolve_roles :: "registry \<Rightarrow> int \<Rightarrow> pyval list \<Rightarrow> error + addr option list" where
  "resolve_roles s guild_id [] = Inr []"
| "resolve_roles s guild_id (role_id # rest) =
     (case py_int role_id of
        Inl e \<Rightarrow> Inl e
      | Inr i \<Rightarrow>
          (case resolve_roles s guild_id rest of
             Inl e \<Rightarrow> Inl e
           | Inr rs \<Rightarrow> Inr (get_role_by_id s guild_id i # rs)))"

definition payload_roles :: "registry \<Rightarrow> payload \<Rightarrow> addr \<Rightarrow> error + addr option list" where
  "payload_roles s p guild_obj =
     (case dict_item p ''roles'' of
        Inl e \<Rightarrow> Inl e
      | Inr v \<Rightarrow>
          (case py_iter v of
             Inl e \<Rightarrow> Inl e
           | Inr ids \<Rightarrow> resolve_roles s (g_id (guild_objs s guild_obj)) ids))"

text \<open>\<^verbatim>\<open>int(member_payload["user"]["id"])\<close>.\<close>

definition payload_member_id :: "payload \<Rightarrow> error + int" where
  "payload_member_id p =
     (case dict_item p ''user'' of
        Inl e \<Rightarrow> Inl e
      | Inr (PDict u) \<Rightarrow> get_int u ''id''
      | Inr _ \<Rightarrow> Inl TypeError)"

text \<open>
  Modelled from the spec: \<^verbatim>\<open>members.Member(state, guild_obj, payload)\<close> makes a member
  of that guild with the roles and the nickname of the payload, and
  \<^verbatim>\<open>Member.update_state(role_objs, nick)\<close> replaces the role list and the nickname only.
\<close>

definition member_update_state :: "registry \<Rightarrow> addr \<Rightarrow> addr option list \<Rightarrow> pyval \<Rightarrow> registry" where
  "member_update_state s self roles nick =
     s\<lparr>member_objs := (member_objs s)(self :=
          (member_objs s self)\<lparr>mb_roles := roles, mb_nick := nick\<rparr>)\<rparr>"

definition new_member :: "registry \<Rightarrow> addr \<Rightarrow> int \<Rightarrow> addr option list \<Rightarrow> pyval \<Rightarrow> addr \<times> registry" where
  "new_member s guild_obj member_id roles nick =
     (next_addr s,
      s\<lparr>next_addr := Suc (next_addr s),
        member_objs := (member_objs s)(next_addr s :=
          \<lparr>mb_id = member_id, mb_guild = guild_obj, mb_roles = roles, mb_nick = nick,
           mb_presence = None\<rparr>)\<rparr>)"

text \<open>\<^verbatim>\<open>guild_obj.members[member_id] = member_obj\<close>.\<close>

definition guild_set_member :: "registry \<Rightarrow> addr \<Rightarrow> int \<Rightarrow> addr \<Rightarrow> registry" where
  "guild_set_member s guild_obj member_id member_obj =
     s\<lparr>guild_objs := (guild_objs s)(guild_obj :=
          (guild_objs s guild_obj)
            \<lparr>g_members := dict_set (g_members (guild_objs s guild_obj)) member_id member_obj\<rparr>)\<rparr>"

definition parse_member :: "registry \<Rightarrow> payload \<Rightarrow> addr \<Rightarrow> (error + addr) \<times> registry" where
  "parse_member s member_payload guild_obj =
     (case payload_member_id member_payload of
        Inl e \<Rightarrow> (Inl e, s)
      | Inr member_id \<Rightarrow>
          (case payload_roles s member_payload guild_obj of
             Inl e \<Rightarrow> (Inl e, s)
           | Inr roles \<Rightarrow>
               (case map_of (g_members (guild_objs s guild_obj)) member_id of
                  Some member_obj \<Rightarrow>
                    (Inr member_obj,
                     member_update_state s member_obj roles (dict_get member_payload ''nick''))
                | None \<Rightarrow>
                    (case new_member s guild_obj member_id roles (dict_get member_payload ''nick'') of
                       (member_obj, s1) \<Rightarrow>
                         (Inr member_obj, guild_set_member s1 guild_obj member_id member_obj)))))"

text \<open>\<^verbatim>\<open>member_obj.roles = [role for role in role_objs]\<close>.\<close>

definition set_roles_for_member :: "registry \<Rightarrow> addr option list \<Rightarrow> addr \<Rightarrow> registry" where
  "set_roles_for_member s roles member_obj =
     s\<lparr>member_objs := (member_objs s)(member_obj :=
          (member_objs s member_obj)\<lparr>mb_roles := roles\<rparr>)\<rparr>"

text \<open>
  Modelled from the spec: \<^verbatim>\<open>emojis.parse_emoji(state, payload, guild_id)\<close> makes a
  \<^verbatim>\<open>GuildEmoji\<close> when the payload has an id and a guild id is given, and an emoji that
  belongs to no guild otherwise; \<^verbatim>\<open>update_state(payload)\<close> refreshes the fields. The
  property \<^verbatim>\<open>GuildEmoji.guild\<close> resolves the guild id through the registry; the other
  emoji classes have no such attribute.
\<close>

definition new_emoji :: "registry \<Rightarrow> payload \<Rightarrow> int option \<Rightarrow> int option \<Rightarrow> addr \<times> registry" where
  "new_emoji s p emoji_id guild_id =
     (next_addr s,
      s\<lparr>next_addr := Suc (next_addr s),
        emoji_objs := (emoji_objs s)(next_addr s :=
          \<lparr>e_id = emoji_id,
           e_guild_id = (case emoji_id of None \<Rightarrow> None | Some _ \<Rightarrow> guild_id),
           e_data = p\<rparr>)\<rparr>)"

definition emoji_update_state :: "registry \<Rightarrow> addr \<Rightarrow> payload \<Rightarrow> registry" where
  "emoji_update_state s self p =
     s\<lparr>emoji_objs := (emoji_objs s)(self := (emoji_objs s self)\<lparr>e_data := p\<rparr>)\<rparr>"

definition emoji_guild :: "registry \<Rightarrow> addr \<Rightarrow> error + addr option" where
  "emoji_guild s emoji_obj =
     (case e_guild_id (emoji_objs s emoji_obj) of
        None \<Rightarrow> Inl AttributeError
      | Some guild_id \<Rightarrow> Inr (get_guild_by_id s guild_id))"

text \<open>\<^verbatim>\<open>guild_obj.emojis[emoji_id] = emoji_obj\<close>.\<close>

definition guild_set_emoji :: "registry \<Rightarrow> addr \<Rightarrow> int \<Rightarrow> addr \<Rightarrow> registry" where
  "guild_set_emoji s guild_obj emoji_id emoji_obj =
     s\<lparr>guild_objs := (guild_objs s)(guild_obj :=
          (guild_objs s guild_obj)
            \<lparr>g_emojis := dict_set (g_emojis (guild_objs s guild_obj)) emoji_id emoji_obj\<rparr>)\<rparr>"

text \<open>
  \<^verbatim>\<open>StateRegistryImpl.parse_emoji(emoji_payload, guild_obj)\<close>. The new emoji is an
  instance of \<^verbatim>\<open>GuildEmoji\<close> exactly when it has an id and a guild was given.
\<close>

definition parse_emoji :: "registry \<Rightarrow> pyval \<Rightarrow> addr option \<Rightarrow> (error + addr) \<times> registry" where
  "parse_emoji s emoji_payload guild_obj =
     (case emoji_payload of
        PDict p \<Rightarrow>
          (case nullable_cast_int (dict_get p ''id'') of
             Inl e \<Rightarrow> (Inl e, s)
           | Inr emoji_id \<Rightarrow>
               (case (case emoji_id of None \<Rightarrow> None | Some i \<Rightarrow> get_emoji_by_id s i) of
                  Some existing_emoji \<Rightarrow>
                    (Inr existing_emoji, emoji_update_state s existing_emoji p)
                | None \<Rightarrow>
                    (case new_emoji s p emoji_id
                            (case guild_obj of None \<Rightarrow> None | Some g \<Rightarrow> Some (g_id (guild_objs s g))) of
                       (emoji_obj, s1) \<Rightarrow>
                         (case (emoji_id, guild_obj) of
                            (Some i, Some g) \<Rightarrow>
                              (case get_guild_by_id s1 (g_id (guild_objs s1 g)) of
                                 None \<Rightarrow> (Inl AttributeError, s1)
                               | Some g1 \<Rightarrow>
                                   (let s2 = guild_set_emoji s1 g1 i emoji_obj
                                    in (Inr emoji_obj, s2\<lparr>emojis := dict_set (emojis s2) i emoji_obj\<rparr>)))
                          | _ \<Rightarrow> (Inr emoji_obj, s1)))))
      | _ \<Rightarrow> (Inl AttributeError, s))"

section \<open>Messages and reactions\<close>

text \<open>
  Modelled from the spec: \<^verbatim>\<open>messages.Message(state, payload)\<close> makes a message with the
  payload's id and channel id and an empty reaction list; its \<^verbatim>\<open>channel\<close> is the channel
  the registry resolves the channel id to.
\<close>

definition new_message :: "registry \<Rightarrow> payload \<Rightarrow> int \<Rightarrow> int \<Rightarrow> addr \<times> registry" where
  "new_message s p message_id channel_id =
     (next_addr s,
      s\<lparr>next_addr := Suc (next_addr s),
        message_objs := (message_objs s)(next_addr s :=
          \<lparr>msg_id = message_id, msg_channel_id = channel_id, msg_reactions = [], msg_data = p\<rparr>)\<rparr>)"

definition message_channel :: "registry \<Rightarrow> addr \<Rightarrow> addr option \<times> registry" where
  "message_channel s message_obj = get_channel_by_id s (msg_channel_id (message_objs s message_obj))"

text \<open>
  The classes whose \<^verbatim>\<open>__slots__\<close> hold \<^verbatim>\<open>last_message_id\<close>; on an object of another
  class the attribute cannot be set.
\<close>

fun has_last_message_id :: "channel_class \<Rightarrow> bool" where
  "has_last_message_id GuildTextChannel = True"
| "has_last_message_id DMChannel = True"
| "has_last_message_id GuildVoiceChannel = False"
| "has_last_message_id GroupDMChannel = True"
| "has_last_message_id GuildCategory = False"
| "has_last_message_id GuildNewsChannel = True"
| "has_last_message_id GuildStoreChannel = False"

text \<open>\<^verbatim>\<open>channel.last_message_id = message_id\<close>.\<close>

definition set_last_message_id :: "registry \<Rightarrow> addr \<Rightarrow> int \<Rightarrow> error option \<times> registry" where
  "set_last_message_id s channel_obj message_id =
     (if has_last_message_id (ch_class (channel_objs s channel_obj))
      then (None, s\<lparr>channel_objs := (channel_objs s)(channel_obj :=
                       (channel_objs s channel_obj)\<lparr>ch_last_message_id := Some message_id\<rparr>)\<rparr>)
      else (Some AttributeError, s))"

definition parse_message :: "registry \<Rightarrow> payload \<Rightarrow> (error + addr option) \<times> registry" where
  "parse_message s message_payload =
     (case get_int message_payload ''id'' of
        Inl e \<Rightarrow> (Inl e, s)
      | Inr message_id \<Rightarrow>
          (case get_int message_payload ''channel_id'' of
             Inl e \<Rightarrow> (Inl e, s)
           | Inr channel_id \<Rightarrow>
               (case get_channel_by_id s channel_id of
                  (None, s1) \<Rightarrow> (Inr None, s1)
                | (Some channel_obj, s1) \<Rightarrow>
                    (case new_message s1 message_payload message_id channel_id of
                       (message_obj, s2) \<Rightarrow>
                         (case message_channel s2 message_obj of
                            (None, s3) \<Rightarrow> (Inl AttributeError, s3)
                          | (Some c, s3) \<Rightarrow>
                              (case set_last_message_id s3 c message_id of
                                 (Some e, s4) \<Rightarrow> (Inl e, s4)
                               | (None, s4) \<Rightarrow>
                                   (Inr (Some message_obj),
                                    s4\<lparr>message_cache :=
                                         lru_put (message_cache s4) message_id message_obj\<rparr>)))))))"

text \<open>The loop of \<^verbatim>\<open>parse_reaction\<close> over \<^verbatim>\<open>message_obj.reactions\<close>.\<close>

fun parse_reaction_loop :: "registry \<Rightarrow> addr \<Rightarrow> addr list \<Rightarrow> (addr \<times> registry) option" where
  "parse_reaction_loop s new_reaction_obj [] = None"
| "parse_reaction_loop s new_reaction_obj (existing_reaction_obj # rest) =
     (if rc_emoji (reaction_objs s existing_reaction_obj) = rc_emoji (reaction_objs s new_reaction_obj)
      then Some (existing_reaction_obj,
                 set_count s existing_reaction_obj (rc_count (reaction_objs s new_reaction_obj)))
      else parse_reaction_loop s new_reaction_obj rest)"

definition parse_reaction :: "registry \<Rightarrow> payload \<Rightarrow> (error + addr option) \<times> registry" where
  "parse_reaction s reaction_payload =
     (case get_int reaction_payload ''message_id'' of
        Inl e \<Rightarrow> (Inl e, s)
      | Inr message_id \<Rightarrow>
          (case get_message_by_id s message_id of
             (found, s1) \<Rightarrow>
               (case get_int reaction_payload ''count'' of
                  Inl e \<Rightarrow> (Inl e, s1)
                | Inr count \<Rightarrow>
                    (case dict_item reaction_payload ''emoji'' of
                       Inl e \<Rightarrow> (Inl e, s1)
                     | Inr emoji_payload \<Rightarrow>
                         (case parse_emoji s1 emoji_payload None of
                            (Inl e, s2) \<Rightarrow> (Inl e, s2)
                          | (Inr emoji_obj, s2) \<Rightarrow>
                              (case found of
                                 None \<Rightarrow> (Inr None, s2)
                               | Some message_obj \<Rightarrow>
                                   (case new_reaction s2 count emoji_obj message_obj of
                                      (new_reaction_obj, s3) \<Rightarrow>
                                        (case parse_reaction_loop s3 new_reaction_obj
                                                (msg_reactions (message_objs s3 message_obj)) of
                                           Some (existing_reaction_obj, s4) \<Rightarrow>
                                             (Inr (Some existing_reaction_obj), s4)
                                         | None \<Rightarrow>
                                             (Inr (Some new_reaction_obj),
                                              append_reaction s3 message_obj new_reaction_obj)))))))))"

text \<open>
  The loop of \<^verbatim>\<open>delete_reaction\<close>. The second half of its test compares
  \<^verbatim>\<open>reaction_obj.message.id\<close> with itself.
\<close>

fun delete_reaction_loop :: "registry \<Rightarrow> addr \<Rightarrow> addr \<Rightarrow> addr list \<Rightarrow> registry" where
  "delete_reaction_loop s message_obj emoji_obj [] = s"
| "delete_reaction_loop s message_obj emoji_obj (reaction_obj # rest) =
     (if rc_emoji (reaction_objs s reaction_obj) = emoji_obj
         \<and> msg_id (message_objs s (rc_message (reaction_objs s reaction_obj)))
             = msg_id (message_objs s (rc_message (reaction_objs s reaction_obj)))
      then set_count (remove_reaction s message_obj reaction_obj) reaction_obj 0
      else delete_reaction_loop s message_obj emoji_obj rest)"

definition delete_reaction :: "registry \<Rightarrow> addr \<Rightarrow> addr \<Rightarrow> addr \<Rightarrow> registry" where
  "delete_reaction s message_obj user_obj emoji_obj =
     delete_reaction_loop s message_obj emoji_obj (msg_reactions (message_objs s message_obj))"

definition delete_all_reactions :: "registry \<Rightarrow> addr \<Rightarrow> registry" where
  "delete_all_reactions s message_obj =
     (let s1 = fold (\<lambda>reaction_obj s'. set_count s' reaction_obj 0)
                 (msg_reactions (message_objs s message_obj)) s
      in s1\<lparr>message_objs := (message_objs s1)(message_obj :=
               (message_objs s1 message_obj)\<lparr>msg_reactions := []\<rparr>)\<rparr>)"

section \<open>Deleting\<close>

text \<open>\<^verbatim>\<open>with contextlib.suppress(KeyError)\<close> around a block.\<close>

fun suppress_KeyError :: "error option \<times> registry \<Rightarrow> error option \<times> registry" where
  "suppress_KeyError (Some KeyError, s) = (None, s)"
| "suppress_KeyError (r, s) = (r, s)"

definition delete_channel :: "registry \<Rightarrow> addr \<Rightarrow> error option \<times> registry" where
  "delete_channel s channel_obj =
     (let channel_id = ch_id (channel_objs s channel_obj)
      in if dict_contains (guild_channels s) channel_id then
           (case channel_guild s channel_obj of
              Inl e \<Rightarrow> (Some e, s)
            | Inr None \<Rightarrow> (Some AttributeError, s)
            | Inr (Some g) \<Rightarrow>
                (case dict_del (g_channels (guild_objs s g)) channel_id of
                   Inl e \<Rightarrow> (Some e, s)
                 | Inr cs \<Rightarrow>
                     (let s1 = s\<lparr>guild_objs := (guild_objs s)(g :=
                                   (guild_objs s g)\<lparr>g_channels := cs\<rparr>)\<rparr>
                      in case dict_del (guild_channels s1) channel_id of
                           Inl e \<Rightarrow> (Some e, s1)
                         | Inr gcs \<Rightarrow> (None, s1\<lparr>guild_channels := gcs\<rparr>))))
         else if lru_contains (dm_channels s) channel_id then
           (None, s\<lparr>dm_channels := lru_remove (dm_channels s) channel_id\<rparr>)
         else (None, s))"

text \<open>\<^verbatim>\<open>del self._emojis[emoji_obj.id]\<close>; an emoji without an id is no key of the index.\<close>

definition del_emoji_index :: "registry \<Rightarrow> addr \<Rightarrow> error option \<times> registry" where
  "del_emoji_index s emoji_obj =
     (case e_id (emoji_objs s emoji_obj) of
        None \<Rightarrow> (Some KeyError, s)
      | Some i \<Rightarrow>
          (case dict_del (emojis s) i of
             Inl e \<Rightarrow> (Some e, s)
           | Inr es \<Rightarrow> (None, s\<lparr>emojis := es\<rparr>)))"

text \<open>\<^verbatim>\<open>del guild_obj.emojis[emoji_obj.id]\<close>, where \<^verbatim>\<open>guild_obj\<close> may be \<^verbatim>\<open>None\<close>.\<close>

definition del_guild_emoji :: "registry \<Rightarrow> addr option \<Rightarrow> addr \<Rightarrow> error option \<times> registry" where
  "del_guild_emoji s guild_obj emoji_obj =
     (case guild_obj of
        None \<Rightarrow> (Some AttributeError, s)
      | Some g \<Rightarrow>
          (case e_id (emoji_objs s emoji_obj) of
             None \<Rightarrow> (Some KeyError, s)
           | Some i \<Rightarrow>
               (case dict_del (g_emojis (guild_objs s g)) i of
                  Inl e \<Rightarrow> (Some e, s)
                | Inr es \<Rightarrow>
                    (None, s\<lparr>guild_objs := (guild_objs s)(g :=
                                (guild_objs s g)\<lparr>g_emojis := es\<rparr>)\<rparr>))))"

definition delete_emoji :: "registry \<Rightarrow> addr \<Rightarrow> error option \<times> registry" where
  "delete_emoji s emoji_obj =
     (case suppress_KeyError (del_emoji_index s emoji_obj) of
        (Some e, s1) \<Rightarrow> (Some e, s1)
      | (None, s1) \<Rightarrow>
          (case emoji_guild s1 emoji_obj of
             Inl e \<Rightarrow> (Some e, s1)
           | Inr guild_obj \<Rightarrow> suppress_KeyError (del_guild_emoji s1 guild_obj emoji_obj)))"

definition delete_guild :: "registry \<Rightarrow> addr \<Rightarrow> error option \<times> registry" where
  "delete_guild s guild_obj =
     suppress_KeyError
       (case dict_del (guilds s) (g_id (guild_objs s guild_obj)) of
          Inl e \<Rightarrow> (Some e, s)
        | Inr gs \<Rightarrow> (None, s\<lparr>guilds := gs\<rparr>))"

text \<open>
  \<^verbatim>\<open>message_obj = self._message_cache[message_obj.id]\<close>, then
  \<^verbatim>\<open>del self._message_cache[message_obj.id]\<close>, both under \<^verbatim>\<open>suppress(KeyError)\<close>.
\<close>

definition delete_message :: "registry \<Rightarrow> addr \<Rightarrow> error option \<times> registry" where
  "delete_message s message_obj =
     suppress_KeyError
       (case lru_get (message_cache s) (msg_id (message_objs s message_obj)) of
          (None, mc) \<Rightarrow> (Some KeyError, s)
        | (Some cached, mc) \<Rightarrow>
            (None, s\<lparr>message_cache := lru_remove mc (msg_id (message_objs s cached))\<rparr>))"

definition delete_member :: "registry \<Rightarrow> addr \<Rightarrow> error option \<times> registry" where
  "delete_member s member_obj =
     suppress_KeyError
       (let g = mb_guild (member_objs s member_obj)
        in case dict_del (g_members (guild_objs s g)) (mb_id (member_objs s member_obj)) of
             Inl e \<Rightarrow> (Some e, s)
           | Inr ms \<Rightarrow>
               (None, s\<lparr>guild_objs := (guild_objs s)(g := (guild_objs s g)\<lparr>g_members := ms\<rparr>)\<rparr>))"

text \<open>
  The loop of \<^verbatim>\<open>delete_role\<close> over \<^verbatim>\<open>guild_obj.members.values()\<close>:
  \<^verbatim>\<open>if role_obj in member.roles: member.roles.remove(role_obj)\<close>.
\<close>

fun strip_role :: "registry \<Rightarrow> addr \<Rightarrow> addr list \<Rightarrow> registry" where
  "strip_role s role_obj [] = s"
| "strip_role s role_obj (member # rest) =
     strip_role
       (if Some role_obj \<in> set (mb_roles (member_objs s member))
        then s\<lparr>member_objs := (member_objs s)(member :=
                 (member_objs s member)
                   \<lparr>mb_roles := remove1 (Some role_obj) (mb_roles (member_objs s member))\<rparr>)\<rparr>
        else s)
       role_obj rest"

text \<open>
  \<^verbatim>\<open>delete_role\<close>: the deletion from the guild's roles and the loop over the members
  stand in one \<^verbatim>\<open>suppress(KeyError)\<close> block, so a \<^verbatim>\<open>KeyError\<close> of the deletion skips
  the loop.
\<close>

definition delete_role :: "registry \<Rightarrow> addr \<Rightarrow> error option \<times> registry" where
  "delete_role s role_obj =
     suppress_KeyError
       (case role_guild s role_obj of
          None \<Rightarrow> (Some AttributeError, s)
        | Some g \<Rightarrow>
            (case dict_del (g_roles (guild_objs s g)) (r_id (role_objs s role_obj)) of
               Inl e \<Rightarrow> (Some e, s)
             | Inr rs \<Rightarrow>
                 (let s1 = s\<lparr>guild_objs := (guild_objs s)(g := (guild_objs s g)\<lparr>g_roles := rs\<rparr>)\<rparr>
                  in (None, strip_role s1 role_obj (map snd (g_members (guild_objs s1 g)))))))"

section \<open>Updating\<close>

text \<open>
  Modelled from the spec: \<^verbatim>\<open>copy()\<close> belongs to the model classes' base, which is not
  among the sources. The copy is the snapshot of the prior state that an update
  returns beside the live object (sections 4.4 and 9): a value with the fields the
  object had, to which no operation of the registry is applied.
\<close>

definition update_channel ::
    "registry \<Rightarrow> payload \<Rightarrow> (error + (channel \<times> addr) option) \<times> registry" where
  "update_channel s channel_payload =
     (case get_int channel_payload ''id'' of
        Inl e \<Rightarrow> (Inl e, s)
      | Inr channel_id \<Rightarrow>
          (case get_channel_by_id s channel_id of
             (None, s1) \<Rightarrow> (Inr None, s1)
           | (Some existing_channel, s1) \<Rightarrow>
               (let old_channel = channel_objs s1 existing_channel
                in case update_state existing_channel channel_payload s1 of
                     (Some e, s2) \<Rightarrow> (Inl e, s2)
                   | (None, s2) \<Rightarrow> (Inr (Some (old_channel, existing_channel)), s2))))"

definition update_guild ::
    "registry \<Rightarrow> payload \<Rightarrow> (error + (guild \<times> addr) option) \<times> registry" where
  "update_guild s guild_payload =
     (case get_int guild_payload ''id'' of
        Inl e \<Rightarrow> (Inl e, s)
      | Inr guild_id \<Rightarrow>
          (case get_guild_by_id s guild_id of
             None \<Rightarrow> (Inr None, s)
           | Some guild_obj \<Rightarrow>
               (Inr (Some (guild_objs s guild_obj, guild_obj)),
                guild_update_state s guild_obj guild_payload)))"

text \<open>
  \<^verbatim>\<open>update_guild_emojis\<close>: the old collection is taken first, then the payloads are
  parsed in the order of the list, then the collection of the guild is replaced.

  Modelled from the spec: \<^verbatim>\<open>transformations.id_map\<close> is not among the sources; it maps the
  id of each element to the element, and an emoji without an id has no such attribute.
  The program does not determine the order in which a \<^verbatim>\<open>frozenset\<close> is iterated: the
  order is the argument \<open>order\<close> of the operation (what it lists that is no new emoji is
  skipped, and a new emoji it leaves out follows in the order of the list).
\<close>

fun parse_emoji_list :: "registry \<Rightarrow> pyval list \<Rightarrow> addr \<Rightarrow> (error + addr list) \<times> registry" where
  "parse_emoji_list s [] guild_obj = (Inr [], s)"
| "parse_emoji_list s (emoji_obj # rest) guild_obj =
     (case parse_emoji s emoji_obj (Some guild_obj) of
        (Inl e, s1) \<Rightarrow> (Inl e, s1)
      | (Inr x, s1) \<Rightarrow>
          (case parse_emoji_list s1 rest guild_obj of
             (Inl e, s2) \<Rightarrow> (Inl e, s2)
           | (Inr xs, s2) \<Rightarrow> (Inr (x # xs), s2)))"

fun id_map :: "registry \<Rightarrow> (int \<times> addr) list \<Rightarrow> addr list \<Rightarrow> error + (int \<times> addr) list" where
  "id_map s d [] = Inr d"
| "id_map s d (x # xs) =
     (case e_id (emoji_objs s x) of
        None \<Rightarrow> Inl AttributeError
      | Some i \<Rightarrow> id_map s (dict_set d i x) xs)"

definition update_guild_emojis ::
    "registry \<Rightarrow> pyval list \<Rightarrow> addr \<Rightarrow> addr list \<Rightarrow> (error + addr set \<times> addr set) \<times> registry" where
  "update_guild_emojis s emoji_list guild_obj order =
     (let old_emojis = set (map snd (g_emojis (guild_objs s guild_obj)))
      in case parse_emoji_list s emoji_list guild_obj of
           (Inl e, s1) \<Rightarrow> (Inl e, s1)
         | (Inr new_emojis, s1) \<Rightarrow>
             (case id_map s1 []
                     (filter (\<lambda>x. x \<in> set new_emojis) order
                      @ filter (\<lambda>x. x \<notin> set order) new_emojis) of
                Inl e \<Rightarrow> (Inl e, s1)
              | Inr d \<Rightarrow>
                  (Inr (old_emojis, set new_emojis),
                   s1\<lparr>guild_objs := (guild_objs s1)(guild_obj :=
                        (guild_objs s1 guild_obj)\<lparr>g_emojis := d\<rparr>)\<rparr>)))"

definition update_member ::
    "registry \<Rightarrow> addr \<Rightarrow> addr option list \<Rightarrow> pyval \<Rightarrow> (member \<times> addr) \<times> registry" where
  "update_member s member_obj roles nick =
     ((member_objs s member_obj, member_obj), member_update_state s member_obj roles nick)"

text \<open>
  Modelled from the spec: \<^verbatim>\<open>presences.Presence(payload)\<close> is not among the sources; a
  presence is kept as its payload.
\<close>

definition parse_presence :: "registry \<Rightarrow> addr \<Rightarrow> payload \<Rightarrow> payload \<times> registry" where
  "parse_presence s member_obj presence_payload =
     (presence_payload,
      s\<lparr>member_objs := (member_objs s)(member_obj :=
           (member_objs s member_obj)\<lparr>mb_presence := Some presence_payload\<rparr>)\<rparr>)"

definition update_member_presence ::
    "registry \<Rightarrow> addr \<Rightarrow> payload \<Rightarrow> (addr \<times> payload option \<times> payload) \<times> registry" where
  "update_member_presence s member_obj presence_payload =
     (let old_presence = mb_presence (member_objs s member_obj)
      in case parse_presence s member_obj presence_payload of
           (new_presence, s1) \<Rightarrow> ((member_obj, old_presence, new_presence), s1))"

text \<open>
  Modelled from the spec: \<^verbatim>\<open>Message.update_state(payload)\<close> is not among the sources. An
  update never changes the identifier or the ownership of an entity (section 4.4): the
  fields of the message are refreshed from the payload, and its id, its channel and its
  list of reactions stay.
\<close>

definition message_update_state :: "registry \<Rightarrow> addr \<Rightarrow> payload \<Rightarrow> registry" where
  "message_update_state s self p =
     s\<lparr>message_objs := (message_objs s)(self := (message_objs s self)\<lparr>msg_data := p\<rparr>)\<rparr>"

text \<open>
  \<^verbatim>\<open>update_message\<close>: the id is read from the key \<^verbatim>\<open>message_id\<close>; the message is
  taken from the cache with \<^verbatim>\<open>get\<close>.
\<close>

definition update_message ::
    "registry \<Rightarrow> payload \<Rightarrow> (error + (message \<times> addr) option) \<times> registry" where
  "update_message s p =
     (case get_int p ''message_id'' of
        Inl e \<Rightarrow> (Inl e, s)
      | Inr message_id \<Rightarrow>
          if lru_contains (message_cache s) message_id then
            (case lru_get (message_cache s) message_id of
               (None, mc) \<Rightarrow> (Inl AttributeError, s\<lparr>message_cache := mc\<rparr>)
             | (Some new_message_obj, mc) \<Rightarrow>
                 (let s1 = s\<lparr>message_cache := mc\<rparr>
                  in (Inr (Some (message_objs s1 new_message_obj, new_message_obj)),
                      message_update_state s1 new_message_obj p)))
          else (Inr None, s))"

definition update_role ::
    "registry \<Rightarrow> addr \<Rightarrow> payload \<Rightarrow> (error + (role \<times> addr) option) \<times> registry" where
  "update_role s guild_obj p =
     (case get_int p ''id'' of
        Inl e \<Rightarrow> (Inl e, s)
      | Inr role_id \<Rightarrow>
          (case map_of (g_roles (guild_objs s guild_obj)) role_id of
             None \<Rightarrow> (Inr None, s)
           | Some existing_role \<Rightarrow>
               (Inr (Some (role_objs s existing_role, existing_role)),
                role_update_state s existing_role p)))"

text \<open>\<^verbatim>\<open>set_last_pinned_timestamp\<close>: the body is \<^verbatim>\<open>pass\<close>.\<close>

definition set_last_pinned_timestamp :: "registry \<Rightarrow> addr \<Rightarrow> pyval \<Rightarrow> registry" where
  "set_last_pinned_timestamp s channel_obj timestamp = s"

section \<open>Sequences of operations\<close>

text \<open>
  The operations of the registry. Left out are the lookups that change nothing
  (\<^verbatim>\<open>get_emoji_by_id\<close>, \<^verbatim>\<open>get_guild_by_id\<close>, \<^verbatim>\<open>get_member_by_id\<close>, \<^verbatim>\<open>get_role_by_id\<close>,
  \<^verbatim>\<open>get_user_by_id\<close>) and \<^verbatim>\<open>parse_webhook\<close>, which makes an object and stores nothing.
\<close>

datatype op =
    IncrementReactionCount addr addr
  | DecrementReactionCount addr addr
  | DeleteChannel addr
  | DeleteEmoji addr
  | DeleteGuild addr
  | DeleteMessage addr
  | DeleteMember addr
  | DeleteReaction addr addr addr
  | DeleteAllReactions addr
  | DeleteRole addr
  | GetChannelById int
  | GetMessageById int
  | ParseBotUser payload
  | ParseChannel payload "addr option"
  | ParseEmoji pyval "addr option"
  | ParseGuild payload
  | ParseMember payload addr
  | ParseMessage payload
  | ParseReaction payload
  | ParseRole payload addr
  | ParseUser payload
  | ParsePresence addr payload
  | SetGuildUnavailability addr bool
  | SetLastPinnedTimestamp addr pyval
  | SetRolesForMember "addr option list" addr
  | UpdateChannel payload
  | UpdateGuild payload
  | UpdateGuildEmojis "pyval list" addr "addr list"
  | UpdateMember addr "addr option list" pyval
  | UpdateMemberPresence addr payload
  | UpdateMessage payload
  | UpdateRole addr payload

text \<open>The registry after one operation, whether it returned or raised.\<close>

fun apply_op :: "registry \<Rightarrow> op \<Rightarrow> registry" where
  "apply_op s (IncrementReactionCount m e) = snd (increment_reaction_count s m e)"
| "apply_op s (DecrementReactionCount m e) = snd (decrement_reaction_count s m e)"
| "apply_op s (DeleteChannel c) = snd (delete_channel s c)"
| "apply_op s (DeleteEmoji e) = snd (delete_emoji s e)"
| "apply_op s (DeleteGuild g) = snd (delete_guild s g)"
| "apply_op s (DeleteMessage m) = snd (delete_message s m)"
| "apply_op s (DeleteMember m) = snd (delete_member s m)"
| "apply_op s (DeleteReaction m u e) = delete_reaction s m u e"
| "apply_op s (DeleteAllReactions m) = delete_all_reactions s m"
| "apply_op s (DeleteRole r) = snd (delete_role s r)"
| "apply_op s (GetChannelById i) = snd (get_channel_by_id s i)"
| "apply_op s (GetMessageById i) = snd (get_message_by_id s i)"
| "apply_op s (ParseBotUser p) = snd (parse_bot_user s p)"
| "apply_op s (ParseChannel p g) = snd (parse_channel s p g)"
| "apply_op s (ParseEmoji p g) = snd (parse_emoji s p g)"
| "apply_op s (ParseGuild p) = snd (parse_guild s p)"
| "apply_op s (ParseMember p g) = snd (parse_member s p g)"
| "apply_op s (ParseMessage p) = snd (parse_message s p)"
| "apply_op s (ParseReaction p) = snd (parse_reaction s p)"
| "apply_op s (ParseRole p g) = snd (parse_role s p g)"
| "apply_op s (ParseUser p) = snd (parse_user s p)"
| "apply_op s (ParsePresence m p) = snd (parse_presence s m p)"
| "apply_op s (SetGuildUnavailability g b) = set_guild_unavailability s g b"
| "apply_op s (SetLastPinnedTimestamp c t) = set_last_pinned_timestamp s c t"
| "apply_op s (SetRolesForMember rs m) = set_roles_for_member s rs m"
| "apply_op s (UpdateChannel p) = snd (update_channel s p)"
| "apply_op s (UpdateGuild p) = snd (update_guild s p)"
| "apply_op s (UpdateGuildEmojis ps g order) = snd (update_guild_emojis s ps g order)"
| "apply_op s (UpdateMember m rs n) = snd (update_member s m rs n)"
| "apply_op s (UpdateMemberPresence m p) = snd (update_member_presence s m p)"
| "apply_op s (UpdateMessage p) = snd (update_message s p)"
| "apply_op s (UpdateRole g p) = snd (update_role s g p)"

definition run :: "registry \<Rightarrow> op list \<Rightarrow> registry" where
  "run s ops = foldl apply_op s ops"

section \<open>Example registries\<close>

text \<open>An empty registry whose two bounded indices hold two entries each.\<close>

definition empty_registry :: registry where
  "empty_registry = new_registry \<lparr>capacity = 2, entries = []\<rparr> \<lparr>capacity = 2, entries = []\<rparr>"

text \<open>
  A message (object 2) with two reactions: object 3 with emoji 7 and count 1, object 4
  with emoji 8 and count 3.
\<close>

definition reactions_example :: registry where
  "reactions_example =
     empty_registry
       \<lparr>next_addr := 5,
        message_objs := (\<lambda>_. blank_message)(2 :=
          \<lparr>msg_id = 10, msg_channel_id = 20, msg_reactions = [3, 4], msg_data = []\<rparr>),
        reaction_objs := (\<lambda>_. blank_reaction)
          (3 := \<lparr>rc_count = 1, rc_emoji = 7, rc_message = 2\<rparr>,
           4 := \<lparr>rc_count = 3, rc_emoji = 8, rc_message = 2\<rparr>)\<rparr>"

text \<open>
  A direct-message channel (object 2, id 20) in the bounded index, whose last message
  so far has the id 500, and a message payload for that channel.
\<close>

definition dm_example :: registry where
  "dm_example =
     empty_registry
       \<lparr>dm_channels := \<lparr>capacity = 2, entries = [(20, 2)]\<rparr>,
        next_addr := 3,
        channel_objs := (\<lambda>_. blank_channel)(2 :=
          blank_channel\<lparr>ch_class := DMChannel, ch_id := 20, ch_last_message_id := Some 500\<rparr>)\<rparr>"

definition message_payload_example :: payload where
  "message_payload_example = [(''id'', PStr ''100''), (''channel_id'', PStr ''20'')]"

text \<open>A payload of a guild text channel (id 30) of the guild 9.\<close>

definition guild_channel_payload_example :: payload where
  "guild_channel_payload_example =
     [(''id'', PStr ''30''), (''type'', PInt 0), (''guild_id'', PStr ''9''),
      (''position'', PInt 4), (''permission_overwrites'', PList []),
      (''name'', PStr ''general'')]"

text \<open>A channel payload with the id 20 whose type is none of the seven known ones.\<close>

definition unknown_channel_payload_example :: payload where
  "unknown_channel_payload_example = [(''id'', PStr ''20''), (''type'', PInt 99)]"

text \<open>
  A guild (object 2, id 1) with no roles and one member (object 3, user 50), who holds
  the role that is object 4 (id 5, of guild 1): the state after the role was deleted
  and a caller gave it back to the member with \<^verbatim>\<open>set_roles_for_member\<close>.
\<close>

definition role_example :: registry where
  "role_example =
     empty_registry
       \<lparr>guilds := [(1, 2)],
        next_addr := 5,
        guild_objs := (\<lambda>_. blank_guild)(2 := blank_guild\<lparr>g_id := 1, g_members := [(50, 3)]\<rparr>),
        member_objs := (\<lambda>_. blank_member)(3 :=
          \<lparr>mb_id = 50, mb_guild = 2, mb_roles = [Some 4], mb_nick = PNone, mb_presence = None\<rparr>),
        role_objs := (\<lambda>_. blank_role)(4 := \<lparr>r_id = 5, r_guild_id = 1, r_data = []\<rparr>)\<rparr>"

text \<open>
  A role (object 2, id 5) of the guild 1 in a registry that caches no guild: the role
  is in no collection of the registry.
\<close>

definition stale_role_example :: registry where
  "stale_role_example =
     empty_registry
       \<lparr>next_addr := 3,
        role_objs := (\<lambda>_. blank_role)(2 := \<lparr>r_id = 5, r_guild_id = 1, r_data = []\<rparr>)\<rparr>"

section \<open>Invariants\<close>

text \<open>
  The \<^verbatim>\<open>BotUser\<close> objects of the store are exactly the one the slot \<^verbatim>\<open>_user\<close> refers
  to, if any, and that object has been allocated.
\<close>

definition bot_users :: "registry \<Rightarrow> addr set" where
  "bot_users s = {a. u_bot (user_objs s a)}"

definition bot_inv :: "registry \<Rightarrow> bool" where
  "bot_inv s =
     (bot_users s = set_option (user s)
      \<and> (case user s of None \<Rightarrow> True | Some b \<Rightarrow> b < next_addr s))"

text \<open>
  What an operation leaves alone: the users, the messages and reactions, and the two
  bounded indices; it may have made new objects.
\<close>

definition kept :: "registry \<Rightarrow> registry \<Rightarrow> bool" where
  "kept s s' =
     (user s' = user s \<and> user_objs s' = user_objs s \<and> next_addr s \<le> next_addr s'
      \<and> message_objs s' = message_objs s \<and> reaction_objs s' = reaction_objs s
      \<and> message_cache s' = message_cache s \<and> dm_channels s' = dm_channels s)"

text \<open>One step keeps the invariant of the bot user, keeps the bot user, and frees no address.\<close>

definition bot_step :: "registry \<Rightarrow> registry \<Rightarrow> bool" where
  "bot_step s s' =
     ((bot_inv s \<longrightarrow> bot_inv s')
      \<and> (\<forall>b. user s = Some b \<longrightarrow> user s' = Some b)
      \<and> next_addr s \<le> next_addr s')"

text \<open>A bounded index within its capacity, and one step of it.\<close>

definition within_capacity :: "lru \<Rightarrow> bool" where
  "within_capacity c = (length (entries c) \<le> capacity c)"

definition lru_step :: "lru \<Rightarrow> lru \<Rightarrow> bool" where
  "lru_step c c' = (capacity c' = capacity c \<and> (within_capacity c \<longrightarrow> within_capacity c'))"

definition cache_step :: "registry \<Rightarrow> registry \<Rightarrow> bool" where
  "cache_step s s' =
     (lru_step (message_cache s) (message_cache s') \<and> lru_step (dm_channels s) (dm_channels s'))"

text \<open>
  Every reaction in the list of a message is there once, refers back to that message
  and has been allocated; with \<open>positive\<close> set, it also has a count of at least 1.
\<close>

definition reaction_inv :: "bool \<Rightarrow> registry \<Rightarrow> bool" where
  "reaction_inv positive s =
     (\<forall>m. distinct (msg_reactions (message_objs s m))
          \<and> (\<forall>r \<in> set (msg_reactions (message_objs s m)).
                rc_message (reaction_objs s r) = m
                \<and> (positive \<longrightarrow> 1 \<le> rc_count (reaction_objs s r))
                \<and> r < next_addr s))"

text \<open>A reaction object that exists and is in the list of no message.\<close>

definition unlisted :: "registry \<Rightarrow> addr \<Rightarrow> bool" where
  "unlisted s r = (r < next_addr s \<and> (\<forall>m. r \<notin> set (msg_reactions (message_objs s m))))"

definition reaction_step :: "bool \<Rightarrow> registry \<Rightarrow> registry \<Rightarrow> bool" where
  "reaction_step positive s s' =
     ((reaction_inv positive s \<longrightarrow> reaction_inv positive s')
      \<and> (\<forall>r. unlisted s r \<longrightarrow> unlisted s' r \<and> reaction_objs s' r = reaction_objs s r))"

text \<open>
  A step that leaves the messages and the reactions alone and keeps the other two
  invariants: what the operations on channels, users, guilds, roles, members and
  emojis do.
\<close>

definition chan_step :: "registry \<Rightarrow> registry \<Rightarrow> bool" where
  "chan_step s s' =
     (bot_step s s' \<and> cache_step s s' \<and> message_objs s' = message_objs s
      \<and> reaction_objs s' = reaction_objs s)"

text \<open>A step that leaves the users and the two bounded indices alone.\<close>

definition outside :: "registry \<Rightarrow> registry \<Rightarrow> bool" where
  "outside s s' =
     (user s' = user s \<and> user_objs s' = user_objs s \<and> next_addr s \<le> next_addr s'
      \<and> message_cache s' = message_cache s \<and> dm_channels s' = dm_channels s)"

text \<open>
  The last part of \<^verbatim>\<open>parse_reaction\<close>, from the registry as the parsing of the emoji left
  it: the new reaction object, then the loop over the reactions of the message.
\<close>

definition store_reaction :: "registry \<Rightarrow> int \<Rightarrow> addr \<Rightarrow> addr \<Rightarrow> registry" where
  "store_reaction s2 count emoji_obj message_obj =
     (case new_reaction s2 count emoji_obj message_obj of
        (n, s3) \<Rightarrow>
          (case parse_reaction_loop s3 n (msg_reactions (message_objs s3 message_obj)) of
             Some (existing, s4) \<Rightarrow> s4
           | None \<Rightarrow> append_reaction s3 message_obj n))"

text \<open>An operation whose reaction payload, if it is one, carries a count of at least 1.\<close>

fun count_ok :: "op \<Rightarrow> bool" where
  "count_ok (ParseReaction p) = (case get_int p ''count'' of Inl e \<Rightarrow> True | Inr n \<Rightarrow> 1 \<le> n)"
| "count_ok _ = True"

text \<open>The operations that take a reaction out of the list of the message \<open>m\<close>.\<close>

fun removes_from :: "addr \<Rightarrow> op \<Rightarrow> bool" where
  "removes_from m (DecrementReactionCount m' e) = (m' = m)"
| "removes_from m (DeleteReaction m' u e) = (m' = m)"
| "removes_from m (DeleteAllReactions m') = (m' = m)"
| "removes_from m _ = False"

text \<open>Three user payloads: the account itself, the same account again, and another user.\<close>

definition bot_payload_example :: payload where
  "bot_payload_example = [(''id'', PStr ''77''), (''username'', PStr ''bot''), (''verified'', PBool True)]"

definition bot_payload_example2 :: payload where
  "bot_payload_example2 = [(''id'', PStr ''77''), (''username'', PStr ''renamed'')]"

definition user_payload_example :: payload where
  "user_payload_example = [(''id'', PStr ''78''), (''username'', PStr ''someone'')]"

text \<open>
  A sequence of operations on the registry just constructed: a direct-message channel
  is parsed, then a message in it, then a reaction payload for that message whose count
  is \<open>-1\<close>.
\<close>

definition dm_channel_payload_example :: payload where
  "dm_channel_payload_example = [(''id'', PStr ''20''), (''type'', PInt 1)]"

definition negative_reaction_payload_example :: payload where
  "negative_reaction_payload_example =
     [(''message_id'', PStr ''100''), (''count'', PInt (- 1)),
      (''emoji'', PDict [(''id'', PNone), (''name'', PStr ''x'')])]"

definition negative_count_example :: "op list" where
  "negative_count_example =
     [ParseChannel dm_channel_payload_example None,
      ParseMessage message_payload_example,
      ParseReaction negative_reaction_payload_example]"

text \<open>
  A direct-message channel and three messages in it, on the registry just constructed,
  whose message cache holds two messages: after the first two messages are parsed, the
  first is looked up, and then the third is parsed.
\<close>

definition message_payload_of :: "string \<Rightarrow> payload" where
  "message_payload_of i = [(''id'', PStr i), (''channel_id'', PStr ''20'')]"

definition eviction_example :: "op list" where
  "eviction_example =
     [ParseChannel dm_channel_payload_example None,
      ParseMessage (message_payload_of ''101''), ParseMessage (message_payload_of ''102''),
      GetMessageById 101, ParseMessage (message_payload_of ''103'')]"

text \<open>
  Three calls of \<^verbatim>\<open>parse_user\<close>: the account itself, another user, and the account
  again under its id alone.
\<close>

definition bot_user_example :: "op list" where
  "bot_user_example =
     [ParseUser bot_payload_example, ParseUser user_payload_example,
      ParseUser bot_payload_example2]"

text \<open>
  On the registry just constructed: a direct-message channel (object 0), a user
  (object 1), a message in the channel (object 2) and a first reaction to it with the
  emoji 9 (object 3).
\<close>

definition reaction_run_example :: "op list" where
  "reaction_run_example =
     [ParseChannel dm_channel_payload_example None, ParseUser user_payload_example,
      ParseMessage message_payload_example, IncrementReactionCount 2 9]"

section \<open>Reaction counting: the two loops\<close>

lemma increment_loop_None:
  "(\<And>r. r \<in> set rs \<Longrightarrow> rc_emoji (reaction_objs s r) \<noteq> e) \<Longrightarrow> increment_loop s e rs = None"
  by (induction rs) auto

lemma increment_loop_Some:
  "(\<And>x. x \<in> set pre \<Longrightarrow> rc_emoji (reaction_objs s x) \<noteq> e) \<Longrightarrow> rc_emoji (reaction_objs s r) = e \<Longrightarrow>
   increment_loop s e (pre @ r # post) =
     Some (r, s\<lparr>reaction_objs := (reaction_objs s)(r :=
                   (reaction_objs s r)\<lparr>rc_count := rc_count (reaction_objs s r) + 1\<rparr>)\<rparr>)"
  by (induction pre) auto

lemma decrement_loop_None:
  "(\<And>r. r \<in> set rs \<Longrightarrow> rc_emoji (reaction_objs s r) \<noteq> e) \<Longrightarrow> decrement_loop s m e rs = None"
  by (induction rs) auto

lemma decrement_loop_Some:
  "(\<And>x. x \<in> set pre \<Longrightarrow> rc_emoji (reaction_objs s x) \<noteq> e) \<Longrightarrow> rc_emoji (reaction_objs s r) = e \<Longrightarrow>
   decrement_loop s m e (pre @ r # post) =
     Some (r, let s1 = set_count s r (rc_count (reaction_objs s r) - 1)
              in if rc_count (reaction_objs s1 r) = 0 then remove_reaction s1 m r else s1)"
  by (induction pre) (auto simp: Let_def)

lemma remove1_first: "r \<notin> set pre \<Longrightarrow> remove1 r (pre @ r # post) = pre @ post"
  by (induction pre) auto

text \<open>
  Claim C5. For a message \<open>m\<close> and an emoji \<open>e\<close>: when no reaction in the list of
  \<open>m\<close> has emoji \<open>e\<close>, \<^verbatim>\<open>increment_reaction_count\<close> makes a new reaction with count 1,
  appends it to the list of \<open>m\<close> and returns it, and \<^verbatim>\<open>decrement_reaction_count\<close>
  returns \<^verbatim>\<open>None\<close> and changes nothing. When \<open>r\<close> is the first reaction of the list with
  emoji \<open>e\<close>, the increment returns \<open>r\<close> with its count one higher and the list as it
  was; the decrement returns \<open>r\<close> with its count one lower, and \<open>r\<close> is taken out of the
  list exactly when that count is zero. No other reaction and no other message changes.
\<close>

theorem reaction_counting:
  "((\<forall>r \<in> set (msg_reactions (message_objs s m)). rc_emoji (reaction_objs s r) \<noteq> e) \<longrightarrow>
      (case increment_reaction_count s m e of (r, s') \<Rightarrow>
         r = next_addr s \<and>
         reaction_objs s' r = \<lparr>rc_count = 1, rc_emoji = e, rc_message = m\<rparr> \<and>
         msg_reactions (message_objs s' m) = msg_reactions (message_objs s m) @ [r] \<and>
         (\<forall>r'. r' \<noteq> r \<longrightarrow> reaction_objs s' r' = reaction_objs s r') \<and>
         (\<forall>m'. m' \<noteq> m \<longrightarrow> message_objs s' m' = message_objs s m')) \<and>
      decrement_reaction_count s m e = (None, s))
   \<and>
   (\<forall>pre r post.
      msg_reactions (message_objs s m) = pre @ r # post \<and>
      (\<forall>x \<in> set pre. rc_emoji (reaction_objs s x) \<noteq> e) \<and>
      rc_emoji (reaction_objs s r) = e \<longrightarrow>
      (case increment_reaction_count s m e of (r1, s') \<Rightarrow>
         r1 = r \<and>
         rc_count (reaction_objs s' r) = rc_count (reaction_objs s r) + 1 \<and>
         (\<forall>r'. r' \<noteq> r \<longrightarrow> reaction_objs s' r' = reaction_objs s r') \<and>
         message_objs s' = message_objs s) \<and>
      (case decrement_reaction_count s m e of (r2, s') \<Rightarrow>
         r2 = Some r \<and>
         rc_count (reaction_objs s' r) = rc_count (reaction_objs s r) - 1 \<and>
         (\<forall>r'. r' \<noteq> r \<longrightarrow> reaction_objs s' r' = reaction_objs s r') \<and>
         msg_reactions (message_objs s' m) =
           (if rc_count (reaction_objs s r) - 1 = 0 then pre @ post else pre @ r # post) \<and>
         (\<forall>m'. m' \<noteq> m \<longrightarrow> message_objs s' m' = message_objs s m')))"
proof (intro conjI impI allI)
  assume none: "\<forall>r \<in> set (msg_reactions (message_objs s m)). rc_emoji (reaction_objs s r) \<noteq> e"
  then have "increment_loop s e (msg_reactions (message_objs s m)) = None"
    by (intro increment_loop_None) auto
  then show "case increment_reaction_count s m e of (r, s') \<Rightarrow>
         r = next_addr s \<and>
         reaction_objs s' r = \<lparr>rc_count = 1, rc_emoji = e, rc_message = m\<rparr> \<and>
         msg_reactions (message_objs s' m) = msg_reactions (message_objs s m) @ [r] \<and>
         (\<forall>r'. r' \<noteq> r \<longrightarrow> reaction_objs s' r' = reaction_objs s r') \<and>
         (\<forall>m'. m' \<noteq> m \<longrightarrow> message_objs s' m' = message_objs s m')"
    by (simp add: increment_reaction_count_def new_reaction_def append_reaction_def)
  from none have "decrement_loop s m e (msg_reactions (message_objs s m)) = None"
    by (intro decrement_loop_None) auto
  then show "decrement_reaction_count s m e = (None, s)"
    by (simp add: decrement_reaction_count_def)
next
  fix pre r post
  assume h: "msg_reactions (message_objs s m) = pre @ r # post \<and>
      (\<forall>x \<in> set pre. rc_emoji (reaction_objs s x) \<noteq> e) \<and>
      rc_emoji (reaction_objs s r) = e"
  then have notin: "r \<notin> set pre" by auto
  from h have "increment_loop s e (msg_reactions (message_objs s m)) =
     Some (r, s\<lparr>reaction_objs := (reaction_objs s)(r :=
                   (reaction_objs s r)\<lparr>rc_count := rc_count (reaction_objs s r) + 1\<rparr>)\<rparr>)"
    by (simp add: increment_loop_Some)
  then show "case increment_reaction_count s m e of (r1, s') \<Rightarrow>
         r1 = r \<and>
         rc_count (reaction_objs s' r) = rc_count (reaction_objs s r) + 1 \<and>
         (\<forall>r'. r' \<noteq> r \<longrightarrow> reaction_objs s' r' = reaction_objs s r') \<and>
         message_objs s' = message_objs s"
    by (simp add: increment_reaction_count_def)
  from h have "decrement_loop s m e (msg_reactions (message_objs s m)) =
     Some (r, let s1 = set_count s r (rc_count (reaction_objs s r) - 1)
              in if rc_count (reaction_objs s1 r) = 0 then remove_reaction s1 m r else s1)"
    by (simp add: decrement_loop_Some)
  then show "case decrement_reaction_count s m e of (r2, s') \<Rightarrow>
         r2 = Some r \<and>
         rc_count (reaction_objs s' r) = rc_count (reaction_objs s r) - 1 \<and>
         (\<forall>r'. r' \<noteq> r \<longrightarrow> reaction_objs s' r' = reaction_objs s r') \<and>
         msg_reactions (message_objs s' m) =
           (if rc_count (reaction_objs s r) - 1 = 0 then pre @ post else pre @ r # post) \<and>
         (\<forall>m'. m' \<noteq> m \<longrightarrow> message_objs s' m' = message_objs s m')"
    using h notin
    by (simp add: decrement_reaction_count_def Let_def set_count_def remove_reaction_def remove1_first)
qed


text \<open>The four cases on the example message, whose reactions have the emojis 7 and 8.\<close>

theorem reaction_counting_witness:
  "fst (increment_reaction_count reactions_example 2 9) = 5
   \<and> msg_reactions (message_objs (snd (increment_reaction_count reactions_example 2 9)) 2) = [3, 4, 5]
   \<and> decrement_reaction_count reactions_example 2 9 = (None, reactions_example)
   \<and> fst (increment_reaction_count reactions_example 2 8) = 4
   \<and> rc_count (reaction_objs (snd (increment_reaction_count reactions_example 2 8)) 4) = 4
   \<and> fst (decrement_reaction_count reactions_example 2 7) = Some 3
   \<and> rc_count (reaction_objs (snd (decrement_reaction_count reactions_example 2 7)) 3) = 0
   \<and> msg_reactions (message_objs (snd (decrement_reaction_count reactions_example 2 7)) 2) = [4]"
proof -
  have rs: "msg_reactions (message_objs reactions_example 2) = [3, 4]"
    by (simp add: reactions_example_def)
  have e1: "rc_emoji (reaction_objs reactions_example 3) = 7"
    and e2: "rc_emoji (reaction_objs reactions_example 4) = 8"
    and c1: "rc_count (reaction_objs reactions_example 3) = 1"
    and c2: "rc_count (reaction_objs reactions_example 4) = 3"
    and n: "next_addr reactions_example = 5"
    by (simp_all add: reactions_example_def)
  have none: "\<forall>r \<in> set (msg_reactions (message_objs reactions_example 2)).
                rc_emoji (reaction_objs reactions_example r) \<noteq> 9"
    by (simp add: rs e1 e2)
  have first: "msg_reactions (message_objs reactions_example 2) = [] @ 3 # [4]
      \<and> (\<forall>x \<in> set []. rc_emoji (reaction_objs reactions_example x) \<noteq> 7)
      \<and> rc_emoji (reaction_objs reactions_example 3) = 7"
    by (simp add: rs e1)
  have second: "msg_reactions (message_objs reactions_example 2) = [3] @ 4 # []
      \<and> (\<forall>x \<in> set [3]. rc_emoji (reaction_objs reactions_example x) \<noteq> 8)
      \<and> rc_emoji (reaction_objs reactions_example 4) = 8"
    by (simp add: rs e1 e2)
  from reaction_counting [of reactions_example 2 9, THEN conjunct1, THEN mp, OF none]
  have a: "fst (increment_reaction_count reactions_example 2 9) = 5
     \<and> msg_reactions (message_objs (snd (increment_reaction_count reactions_example 2 9)) 2) = [3, 4, 5]
     \<and> decrement_reaction_count reactions_example 2 9 = (None, reactions_example)"
    by (simp add: rs n split: prod.splits)
  from reaction_counting [of reactions_example 2 8, THEN conjunct2, THEN spec, THEN spec, THEN spec, THEN mp, OF second]
  have b: "fst (increment_reaction_count reactions_example 2 8) = 4
     \<and> rc_count (reaction_objs (snd (increment_reaction_count reactions_example 2 8)) 4) = 4"
    by (auto simp add: c2 split: prod.splits)
  from reaction_counting [of reactions_example 2 7, THEN conjunct2, THEN spec, THEN spec, THEN spec, THEN mp, OF first]
  have c: "fst (decrement_reaction_count reactions_example 2 7) = Some 3
     \<and> rc_count (reaction_objs (snd (decrement_reaction_count reactions_example 2 7)) 3) = 0
     \<and> msg_reactions (message_objs (snd (decrement_reaction_count reactions_example 2 7)) 2) = [4]"
    by (auto simp add: c1 split: prod.splits)
  from a b c show ?thesis by simp
qed

section \<open>Parsing messages\<close>

text \<open>The builtin \<^verbatim>\<open>int()\<close> on some strings.\<close>

lemma py_int_100: "py_int (PStr ''100'') = Inr 100"
  by (simp add: int_of_str_def strip_def is_space_def unsigned_of_str_def is_digit_def digit_val_def)

lemma py_int_m: "py_int (PStr '' -1_000 '') = Inr (-1000)"
  by (simp add: int_of_str_def strip_def is_space_def unsigned_of_str_def is_digit_def digit_val_def)

lemma py_int_bad: "py_int (PStr ''1__0'') = Inl ValueError" "py_int (PStr ''10_'') = Inl ValueError" "py_int (PStr ''_10'') = Inl ValueError"
 "py_int (PStr '''') = Inl ValueError"  "py_int (PStr ''+'') = Inl ValueError" "py_int (PStr ''1 0'') = Inl ValueError"
  by (simp_all add: int_of_str_def strip_def is_space_def unsigned_of_str_def is_digit_def digit_val_def)

lemma delete_append: "AList.delete k (xs @ ys) = AList.delete k xs @ AList.delete k ys"
  by (simp add: AList.delete_eq)

lemma lru_get_again:
  "lru_get c k = (Some v, c') \<Longrightarrow> lru_get c' k = (Some v, c')"
  by (auto simp: lru_get_def delete_conv' map_add_def delete_append delete_idem split: option.splits)

lemma get_channel_by_id_again:
  assumes "get_channel_by_id s k = (Some c, s1)"
    and "guild_channels s2 = guild_channels s1" and "dm_channels s2 = dm_channels s1"
  shows "get_channel_by_id s2 k = (Some c, s2)"
proof (cases "map_of (guild_channels s) k")
  case (Some a)
  with assms show ?thesis by (auto simp: get_channel_by_id_def)
next
  case None
  with assms(1) obtain dm where g: "lru_get (dm_channels s) k = (Some c, dm)" and s1: "s1 = s\<lparr>dm_channels := dm\<rparr>"
    by (auto simp: get_channel_by_id_def split: prod.splits)
  from lru_get_again[OF g] have "lru_get dm k = (Some c, dm)" .
  with None assms(2,3) s1 show ?thesis
    by (simp add: get_channel_by_id_def)
qed

text \<open>
  Claim C9. For a message payload whose id and channel id can be read, and whose
  channel id is neither in the weak channel index nor in the bounded index of
  direct-message channels, \<^verbatim>\<open>parse_message\<close> returns \<^verbatim>\<open>None\<close>, raises nothing, and leaves
  the whole registry as it was: no message is cached.
\<close>

theorem parse_message_unresolved:
  assumes "get_int message_payload ''id'' = Inr message_id"
    and "get_int message_payload ''channel_id'' = Inr channel_id"
    and "map_of (guild_channels s) channel_id = None"
    and "map_of (entries (dm_channels s)) channel_id = None"
  shows "parse_message s message_payload = (Inr None, s)"
  using assms by (simp add: parse_message_def get_channel_by_id_def lru_get_def)


text \<open>On the empty registry, the example payload is not cached.\<close>

theorem parse_message_unresolved_witness:
  "get_int message_payload_example ''id'' = Inr 100
   \<and> get_int message_payload_example ''channel_id'' = Inr 20
   \<and> map_of (guild_channels empty_registry) 20 = None
   \<and> map_of (entries (dm_channels empty_registry)) 20 = None
   \<and> parse_message empty_registry message_payload_example = (Inr None, empty_registry)"
proof -
  have a: "get_int message_payload_example ''id'' = Inr 100"
    and b: "get_int message_payload_example ''channel_id'' = Inr 20"
    by (simp_all add: message_payload_example_def get_int_def dict_item_def int_of_str_def
        strip_def is_space_def unsigned_of_str_def is_digit_def digit_val_def)
  have c: "map_of (guild_channels empty_registry) 20 = None"
    and d: "map_of (entries (dm_channels empty_registry)) 20 = None"
    by (simp_all add: empty_registry_def new_registry_def)
  from parse_message_unresolved [OF a b c d] a b c d show ?thesis by simp
qed

text \<open>What \<^verbatim>\<open>parse_message\<close> does when the channel resolves.\<close>

lemma parse_message_resolved:
  assumes i: "get_int message_payload ''id'' = Inr message_id"
    and c: "get_int message_payload ''channel_id'' = Inr channel_id"
    and g: "get_channel_by_id s channel_id = (Some channel_obj, s1)"
  shows "parse_message s message_payload =
     (if has_last_message_id (ch_class (channel_objs s channel_obj)) then
        (Inr (Some (next_addr s)),
         s1\<lparr>next_addr := Suc (next_addr s),
            message_objs := (message_objs s)(next_addr s :=
              \<lparr>msg_id = message_id, msg_channel_id = channel_id, msg_reactions = [],
               msg_data = message_payload\<rparr>),
            channel_objs := (channel_objs s)(channel_obj :=
              (channel_objs s channel_obj)\<lparr>ch_last_message_id := Some message_id\<rparr>),
            message_cache := lru_put (message_cache s) message_id (next_addr s)\<rparr>)
      else
        (Inl AttributeError,
         s1\<lparr>next_addr := Suc (next_addr s),
            message_objs := (message_objs s)(next_addr s :=
              \<lparr>msg_id = message_id, msg_channel_id = channel_id, msg_reactions = [],
               msg_data = message_payload\<rparr>)\<rparr>))"
proof -
  define s2 where "s2 = snd (new_message s1 message_payload message_id channel_id)"
  have frame: "next_addr s1 = next_addr s" "message_objs s1 = message_objs s"
    "channel_objs s1 = channel_objs s" "message_cache s1 = message_cache s"
    using g by (auto simp: get_channel_by_id_def split: option.splits prod.splits)
  have nm: "new_message s1 message_payload message_id channel_id = (next_addr s, s2)"
    by (simp add: s2_def new_message_def frame)
  have again: "get_channel_by_id s2 channel_id = (Some channel_obj, s2)"
    by (rule get_channel_by_id_again [OF g]) (simp_all add: s2_def new_message_def)
  have mc: "message_channel s2 (next_addr s) = (Some channel_obj, s2)"
    using again by (simp add: message_channel_def s2_def new_message_def frame)
  show ?thesis
    using i c g nm mc
    by (simp add: parse_message_def set_last_message_id_def)
       (simp add: s2_def new_message_def frame)
qed

text \<open>
  Claim C10. For a message payload whose id and channel id can be read and whose
  channel id resolves to a cached channel: when the class of that channel has the
  attribute \<^verbatim>\<open>last_message_id\<close>, \<^verbatim>\<open>parse_message\<close> returns a message; and whenever it
  returns a message, the channel objects afterwards are those before with the
  \<^verbatim>\<open>last_message_id\<close> of the resolved channel set to the id of the parsed message,
  whatever it was before.
\<close>

theorem parse_message_sets_last_message_id:
  assumes "get_int message_payload ''id'' = Inr message_id"
    and "get_int message_payload ''channel_id'' = Inr channel_id"
    and "fst (get_channel_by_id s channel_id) = Some channel_obj"
  shows "(has_last_message_id (ch_class (channel_objs s channel_obj)) \<longrightarrow>
            (\<exists>message_obj s'. parse_message s message_payload = (Inr (Some message_obj), s')))
       \<and> (\<forall>message_obj s'.
            parse_message s message_payload = (Inr (Some message_obj), s') \<longrightarrow>
            channel_objs s' = (channel_objs s)(channel_obj :=
              (channel_objs s channel_obj)\<lparr>ch_last_message_id := Some message_id\<rparr>)
            \<and> msg_id (message_objs s' message_obj) = message_id)"
proof -
  from assms(3) obtain s1 where g: "get_channel_by_id s channel_id = (Some channel_obj, s1)"
    by (cases "get_channel_by_id s channel_id") auto
  show ?thesis
    unfolding parse_message_resolved [OF assms(1,2) g]
    by (auto split: if_splits)
qed

text \<open>The example channel had the last message 500; parsing message 100 makes it 100.\<close>

theorem parse_message_sets_last_message_id_witness:
  "get_int message_payload_example ''id'' = Inr 100
   \<and> get_int message_payload_example ''channel_id'' = Inr 20
   \<and> fst (get_channel_by_id dm_example 20) = Some 2
   \<and> ch_last_message_id (channel_objs dm_example 2) = Some 500
   \<and> fst (parse_message dm_example message_payload_example) = Inr (Some 3)
   \<and> ch_last_message_id (channel_objs (snd (parse_message dm_example message_payload_example)) 2)
        = Some 100"
proof -
  have a: "get_int message_payload_example ''id'' = Inr 100"
    and b: "get_int message_payload_example ''channel_id'' = Inr 20"
    by (simp_all add: message_payload_example_def get_int_def dict_item_def int_of_str_def
        strip_def is_space_def unsigned_of_str_def is_digit_def digit_val_def)
  have c: "fst (get_channel_by_id dm_example 20) = Some 2"
    by (simp add: dm_example_def empty_registry_def new_registry_def get_channel_by_id_def
        lru_get_def)
  have d: "has_last_message_id (ch_class (channel_objs dm_example 2))"
    and e: "ch_last_message_id (channel_objs dm_example 2) = Some 500"
    and n: "next_addr dm_example = 3"
    by (simp_all add: dm_example_def)
  note t = parse_message_sets_last_message_id [OF a b c]
  from t [THEN conjunct1, THEN mp, OF d] obtain m s'
    where p: "parse_message dm_example message_payload_example = (Inr (Some m), s')" by blast
  from t [THEN conjunct2, THEN spec, THEN spec, THEN mp, OF p]
  have f: "ch_last_message_id (channel_objs s' 2) = Some 100" by simp
  have "m = 3"
    using p parse_message_resolved [OF a b, of dm_example 2 "snd (get_channel_by_id dm_example 20)"] c d n
    by (cases "get_channel_by_id dm_example 20") auto
  with p f a b c e show ?thesis by simp
qed

section \<open>Parsing channels and deleting roles\<close>

lemmas int_simps = int_of_str_def strip_def is_space_def unsigned_of_str_def is_digit_def
  digit_val_def

lemma init_example: "init 2 2 = Inr empty_registry"
  by (simp add: init_def lru_new_def empty_registry_def)

text \<open>
  Claim C1, at a failing input. On the registry just constructed, which caches no
  guild, \<^verbatim>\<open>parse_channel\<close> of a guild text channel of guild 9 raises \<^verbatim>\<open>AttributeError\<close>:
  the channel was entered into the weak channel index before the guild was looked up,
  so the index holds the channel and no guild does.
\<close>

theorem parse_channel_uncached_guild:
  "init 2 2 = Inr empty_registry
   \<and> fst (parse_channel empty_registry guild_channel_payload_example None) = Inl AttributeError
   \<and> guild_channels (snd (parse_channel empty_registry guild_channel_payload_example None)) = [(30, 0)]
   \<and> guilds (snd (parse_channel empty_registry guild_channel_payload_example None)) = []"
  by (simp add: init_def lru_new_def empty_registry_def new_registry_def guild_channel_payload_example_def
      parse_channel_def get_int_def dict_item_def int_simps get_channel_by_id_def lru_get_def
      channels_parse_channel_def dict_get_def channel_implementations_def new_channel_def Let_def
      set_attr_def update_state_def GuildTextChannel_update_state_def GuildChannel_update_state_def
      blank_channel_def dict_get_default_def is_channel_type_dm_def dict_set_def channel_guild_def
      get_guild_by_id_def)

text \<open>
  Claim C3 fails as stated: when the id of the payload is already cached, the existing
  channel is updated in place and the kind of the payload is never looked at. The
  payload of unknown kind 99 with the id of the cached direct-message channel raises
  nothing, and the channel stays in the bounded index.
\<close>

theorem parse_channel_unknown_kind_cached:
  "implementation_of (dict_get unknown_channel_payload_example ''type'') = Inr None
   \<and> fst (parse_channel dm_example unknown_channel_payload_example None) = Inr 2
   \<and> map_of (entries (dm_channels (snd (parse_channel dm_example unknown_channel_payload_example None)))) 20 = Some 2"
  by (simp add: dm_example_def empty_registry_def new_registry_def unknown_channel_payload_example_def
      parse_channel_def get_int_def dict_item_def int_simps get_channel_by_id_def lru_get_def
      dict_get_def channel_implementations_def Let_def
      set_attr_def update_state_def DMChannel_update_state_def set_recipients_def
      blank_channel_def)

text \<open>
  Claim C2, at a failing input. The guild has no role 5 in its role table, and its
  member holds the role: \<^verbatim>\<open>delete_role\<close> raises nothing and changes nothing, the member
  still holds the role.
\<close>

theorem delete_role_skips_members:
  "delete_role role_example 4 = (None, role_example)
   \<and> get_role_by_id role_example 1 5 = None
   \<and> get_member_by_id role_example 50 1 = Some 3
   \<and> mb_roles (member_objs role_example 3) = [Some 4]"
  by (simp add: role_example_def empty_registry_def new_registry_def delete_role_def role_guild_def
      get_guild_by_id_def dict_del_def dict_contains_def blank_guild_def get_role_by_id_def get_member_by_id_def)

text \<open>
  Claim C7, at a failing input. The role is in no collection of the registry and its
  guild is not cached: \<^verbatim>\<open>delete_role\<close> raises \<^verbatim>\<open>AttributeError\<close>.
\<close>

theorem delete_role_uncached_guild:
  "get_guild_by_id stale_role_example (r_guild_id (role_objs stale_role_example 2)) = None
   \<and> delete_role stale_role_example 2 = (Some AttributeError, stale_role_example)"
  by (simp add: stale_role_example_def empty_registry_def new_registry_def delete_role_def role_guild_def
      get_guild_by_id_def)


lemma dict_get_set_other: "k' \<noteq> k \<Longrightarrow> dict_get (dict_set p k v) k' = dict_get p k'"
  by (simp add: dict_get_def dict_set_def update_conv')

text \<open>
  Claim C3, amended. For a channel payload whose id can be read and is cached neither
  in the weak channel index nor in the bounded index, and whose kind is none of the
  known ones, \<^verbatim>\<open>parse_channel\<close> raises \<^verbatim>\<open>TypeError\<close> and leaves the whole registry as it
  was.
\<close>

theorem parse_channel_unknown_kind:
  assumes "get_int channel_payload ''id'' = Inr channel_id"
    and "map_of (guild_channels s) channel_id = None"
    and "map_of (entries (dm_channels s)) channel_id = None"
    and "\<forall>cls. implementation_of (dict_get channel_payload ''type'') \<noteq> Inr (Some cls)"
  shows "parse_channel s channel_payload guild_obj = (Inl TypeError, s)"
proof -
  have g: "get_channel_by_id s channel_id = (None, s)"
    using assms(2,3) by (simp add: get_channel_by_id_def lru_get_def)
  let ?p = "case guild_obj of None \<Rightarrow> channel_payload
            | Some g \<Rightarrow> dict_set channel_payload ''guild_id'' (PInt (g_id (guild_objs s g)))"
  have ty: "dict_get ?p ''type'' = dict_get channel_payload ''type''"
    by (cases guild_obj) (simp_all add: dict_get_set_other)
  have "channels_parse_channel ?p s = (Inl TypeError, s)"
  proof (cases "implementation_of (dict_get channel_payload ''type'')")
    case (Inl e)
    then have "e = TypeError"
      by (cases "dict_get channel_payload ''type''") auto
    with Inl ty show ?thesis by (simp add: channels_parse_channel_def)
  next
    case (Inr r)
    with assms(4) have "r = None" by (cases r) auto
    with Inr ty show ?thesis by (simp add: channels_parse_channel_def)
  qed
  with assms(1) g show ?thesis
    by (simp add: parse_channel_def Let_def)
qed

text \<open>
  The payload of kind 99 on the empty registry.
\<close>

theorem parse_channel_unknown_kind_witness:
  "get_int unknown_channel_payload_example ''id'' = Inr 20
   \<and> map_of (guild_channels empty_registry) 20 = None
   \<and> map_of (entries (dm_channels empty_registry)) 20 = None
   \<and> implementation_of (dict_get unknown_channel_payload_example ''type'') = Inr None
   \<and> parse_channel empty_registry unknown_channel_payload_example None = (Inl TypeError, empty_registry)"
proof -
  have a: "get_int unknown_channel_payload_example ''id'' = Inr 20"
    by (simp add: unknown_channel_payload_example_def get_int_def dict_item_def int_simps)
  have b: "map_of (guild_channels empty_registry) 20 = None"
    and c: "map_of (entries (dm_channels empty_registry)) 20 = None"
    by (simp_all add: empty_registry_def new_registry_def)
  have d0: "implementation_of (dict_get unknown_channel_payload_example ''type'') = Inr None"
    by (simp add: unknown_channel_payload_example_def dict_get_def channel_implementations_def)
  then have d: "\<forall>cls. implementation_of (dict_get unknown_channel_payload_example ''type'') \<noteq> Inr (Some cls)"
    by simp
  from parse_channel_unknown_kind [OF a b c d] a b c d0 show ?thesis by simp
qed

section \<open>Steps that keep the invariants\<close>


lemma run_steps_rel:
  assumes refl: "\<And>s. R s s"
    and trans: "\<And>a b c. R a b \<Longrightarrow> R b c \<Longrightarrow> R a c"
    and step: "\<And>f s. f \<in> set fs \<Longrightarrow> R s (snd (f s))"
  shows "R s (snd (run_steps fs s))"
  using step
proof (induction fs arbitrary: s)
  case Nil
  show ?case by (simp add: refl)
next
  case (Cons f fs)
  have f: "R s (snd (f s))" by (rule Cons.prems) simp
  show ?case
  proof (cases "f s")
    case (Pair r s1)
    show ?thesis
    proof (cases r)
      case None
      have "R s1 (snd (run_steps fs s1))"
        by (rule Cons.IH) (rule Cons.prems, simp)
      with f Pair None show ?thesis by (auto intro: trans)
    next
      case (Some e)
      with f Pair show ?thesis by simp
    qed
  qed
qed

lemma bot_step_refl: "bot_step s s"
  by (simp add: bot_step_def)

lemma bot_step_trans: "bot_step a b \<Longrightarrow> bot_step b c \<Longrightarrow> bot_step a c"
  by (auto simp: bot_step_def)

lemma users_kept_bot_step:
  "user s' = user s \<Longrightarrow> user_objs s' = user_objs s \<Longrightarrow> next_addr s \<le> next_addr s' \<Longrightarrow> bot_step s s'"
  by (auto simp: bot_step_def bot_inv_def bot_users_def split: option.splits)

lemma parse_bot_user_bot_step: "bot_step s (snd (parse_bot_user s p))"
proof (cases "user s")
  case None
  then show ?thesis
    by (auto simp: bot_step_def bot_inv_def bot_users_def parse_bot_user_def new_user_def
        split: sum.splits)
next
  case (Some b)
  then show ?thesis
    by (auto simp: bot_step_def bot_inv_def bot_users_def parse_bot_user_def user_update_state_def)
qed

lemma parse_user_bot_step: "bot_step s (snd (parse_user s p))"
proof -
  have a: "bot_step s (snd (new_user s False p))"
    by (auto simp: bot_step_def bot_inv_def bot_users_def new_user_def split: sum.splits option.splits)
  have b: "\<And>u. bot_step s (user_update_state s u p)"
    by (auto simp: bot_step_def bot_inv_def bot_users_def user_update_state_def split: option.splits)
  have c: "\<And>s1 x. bot_step s s1 \<Longrightarrow> bot_step s (s1\<lparr>users := x\<rparr>)"
    by (auto simp: bot_step_def bot_inv_def bot_users_def split: option.splits)
  show ?thesis
    using parse_bot_user_bot_step [of s p] a b c [of "snd (new_user s False p)"]
    by (auto simp: parse_user_def bot_step_refl split: sum.splits option.splits prod.splits)
qed


lemma lru_step_refl: "lru_step c c"
  by (simp add: lru_step_def)

lemma lru_step_trans: "lru_step a b \<Longrightarrow> lru_step b c \<Longrightarrow> lru_step a c"
  by (auto simp: lru_step_def)

lemma cache_step_refl: "cache_step s s"
  by (simp add: cache_step_def lru_step_refl)

lemma cache_step_trans: "cache_step a b \<Longrightarrow> cache_step b c \<Longrightarrow> cache_step a c"
  by (auto simp: cache_step_def intro: lru_step_trans)

lemma cache_stepI:
  "message_cache s' = message_cache s \<Longrightarrow> dm_channels s' = dm_channels s \<Longrightarrow> cache_step s s'"
  by (simp add: cache_step_def lru_step_refl)

lemma chan_step_refl: "chan_step s s"
  by (simp add: chan_step_def bot_step_refl cache_step_refl)

lemma chan_step_trans: "chan_step a b \<Longrightarrow> chan_step b c \<Longrightarrow> chan_step a c"
  by (auto simp: chan_step_def intro: bot_step_trans cache_step_trans)

lemma kept_refl: "kept s s"
  by (simp add: kept_def)

lemma kept_trans: "kept a b \<Longrightarrow> kept b c \<Longrightarrow> kept a c"
  by (auto simp: kept_def)

lemma kept_chan_step: "kept s s' \<Longrightarrow> chan_step s s'"
  by (simp add: kept_def chan_step_def users_kept_bot_step cache_stepI)

lemma set_attr_kept: "kept s (snd (set_attr self v f s))"
  by (simp add: set_attr_def kept_def split: sum.splits)

lemma parse_user_chan_step: "chan_step s (snd (parse_user s p))"
proof -
  have "message_objs (snd (parse_user s p)) = message_objs s
      \<and> reaction_objs (snd (parse_user s p)) = reaction_objs s
      \<and> message_cache (snd (parse_user s p)) = message_cache s
      \<and> dm_channels (snd (parse_user s p)) = dm_channels s"
    by (auto simp: parse_user_def parse_bot_user_def new_user_def user_update_state_def
        split: sum.splits option.splits prod.splits)
  then show ?thesis by (simp add: chan_step_def parse_user_bot_step cache_stepI)
qed

lemma parse_user_value_chan_step: "chan_step s (snd (parse_user_value s v))"
  by (cases v) (simp_all add: chan_step_refl parse_user_chan_step)

lemma parse_users_chan_step: "chan_step s (snd (parse_users s us))"
proof (induction us arbitrary: s)
  case Nil
  show ?case by (simp add: chan_step_refl)
next
  case (Cons u us)
  obtain r s1 where u: "parse_user_value s u = (r, s1)" by (cases "parse_user_value s u")
  have a: "chan_step s s1" using parse_user_value_chan_step [of s u] u by simp
  have b: "chan_step s1 (snd (parse_users s1 us))" by (rule Cons.IH)
  show ?case
    using u a chan_step_trans [OF a b]
    by (auto split: sum.splits prod.splits)
qed

lemma chan_step_channel_objs: "chan_step s s1 \<Longrightarrow> chan_step s (s1\<lparr>channel_objs := x\<rparr>)"
  by (auto simp: chan_step_def cache_step_def bot_step_def bot_inv_def bot_users_def
      split: option.splits)

lemma set_recipients_chan_step: "chan_step s (snd (set_recipients self p s))"
proof (cases "case map_of p ''recipients'' of None \<Rightarrow> Inr [] | Some v \<Rightarrow> py_iter v")
  case (Inl e)
  then show ?thesis by (simp add: set_recipients_def chan_step_refl)
next
  case (Inr us)
  obtain r s1 where u: "parse_users s us = (r, s1)" by (cases "parse_users s us")
  have a: "chan_step s s1" using parse_users_chan_step [of s us] u by simp
  show ?thesis
    using Inr u a by (cases r) (simp_all add: set_recipients_def chan_step_channel_objs)
qed

lemma run_steps_chan_step:
  "(\<And>f s. f \<in> set fs \<Longrightarrow> chan_step s (snd (f s))) \<Longrightarrow> chan_step s (snd (run_steps fs s))"
  by (rule run_steps_rel [where R = chan_step]) (auto intro: chan_step_refl chan_step_trans)

lemma set_attr_chan_step: "chan_step s (snd (set_attr self v f s))"
  by (rule kept_chan_step) (rule set_attr_kept)

lemma GuildChannel_chan_step: "chan_step s (snd (GuildChannel_update_state self p s))"
  unfolding GuildChannel_update_state_def
  by (rule run_steps_chan_step) (auto simp: set_attr_chan_step)

lemma DMChannel_chan_step: "chan_step s (snd (DMChannel_update_state self p s))"
  unfolding DMChannel_update_state_def
  by (rule run_steps_chan_step) (auto simp: set_attr_chan_step set_recipients_chan_step)

lemma GuildTextChannel_chan_step: "chan_step s (snd (GuildTextChannel_update_state self p s))"
  unfolding GuildTextChannel_update_state_def
  by (rule run_steps_chan_step) (auto simp: set_attr_chan_step GuildChannel_chan_step)

lemma GuildVoiceChannel_chan_step: "chan_step s (snd (GuildVoiceChannel_update_state self p s))"
  unfolding GuildVoiceChannel_update_state_def
  by (rule run_steps_chan_step) (auto simp: set_attr_chan_step GuildChannel_chan_step)

lemma GroupDMChannel_chan_step: "chan_step s (snd (GroupDMChannel_update_state self p s))"
  unfolding GroupDMChannel_update_state_def
  by (rule run_steps_chan_step) (auto simp: set_attr_chan_step DMChannel_chan_step)

lemma GuildNewsChannel_chan_step: "chan_step s (snd (GuildNewsChannel_update_state self p s))"
  unfolding GuildNewsChannel_update_state_def
  by (rule run_steps_chan_step) (auto simp: set_attr_chan_step GuildChannel_chan_step)

lemma update_state_chan_step: "chan_step s (snd (update_state self p s))"
  by (simp add: update_state_def GuildChannel_chan_step DMChannel_chan_step
      GuildTextChannel_chan_step GuildVoiceChannel_chan_step GroupDMChannel_chan_step
      GuildNewsChannel_chan_step split: channel_class.splits)

lemma alloc_channel_chan_step:
  "chan_step s (s\<lparr>next_addr := Suc (next_addr s), channel_objs := x\<rparr>)"
  by (auto simp: chan_step_def cache_step_def lru_step_refl bot_step_def bot_inv_def bot_users_def
      split: option.splits)

lemma new_channel_chan_step: "chan_step s (snd (new_channel cls p s))"
proof -
  let ?s1 = "s\<lparr>next_addr := Suc (next_addr s),
               channel_objs := (channel_objs s)(next_addr s := blank_channel\<lparr>ch_class := cls\<rparr>)\<rparr>"
  let ?fs = "(if is_dm cls then []
              else [set_attr (next_addr s) (get_int p ''guild_id'') (\<lambda>v c. c\<lparr>ch_guild_id := v\<rparr>)])
             @ [set_attr (next_addr s) (get_int p ''id'') (\<lambda>v c. c\<lparr>ch_id := v\<rparr>),
                update_state (next_addr s) p]"
  have a: "chan_step s ?s1" by (rule alloc_channel_chan_step)
  have b: "chan_step ?s1 (snd (run_steps ?fs ?s1))"
    by (rule run_steps_chan_step)
       (auto simp: set_attr_chan_step update_state_chan_step split: if_splits)
  have "snd (new_channel cls p s) = snd (run_steps ?fs ?s1)"
    by (simp add: new_channel_def Let_def split: prod.splits option.splits)
  with chan_step_trans [OF a b] show ?thesis by simp
qed

lemma channels_parse_channel_chan_step: "chan_step s (snd (channels_parse_channel p s))"
  by (simp add: channels_parse_channel_def chan_step_refl new_channel_chan_step
      split: sum.splits option.splits)

lemma length_delete_less:
  "map_of xs k = Some v \<Longrightarrow> length (AList.delete k xs) < length xs"
  by (induction xs) (auto simp: le_imp_less_Suc length_delete_le split: if_splits)

lemma lru_get_step: "lru_step c (snd (lru_get c k))"
  using length_delete_less [of "entries c" k]
  by (auto simp: lru_get_def lru_step_def within_capacity_def split: option.splits)

lemma lru_put_step: "lru_step c (lru_put c k v)"
  using length_delete_le [of k "entries c"]
  by (auto simp: lru_put_def lru_step_def within_capacity_def Let_def)

lemma lru_remove_step: "lru_step c (lru_remove c k)"
  using length_delete_le [of k "entries c"]
  by (auto simp: lru_remove_def lru_step_def within_capacity_def)

lemma chan_step_dm:
  "lru_step (dm_channels s) c \<Longrightarrow> chan_step s (s\<lparr>dm_channels := c\<rparr>)"
  by (auto simp: chan_step_def cache_step_def lru_step_refl bot_step_def bot_inv_def bot_users_def
      split: option.splits)

lemma chan_step_misc:
  "chan_step s (s\<lparr>guild_channels := x\<rparr>)" "chan_step s (s\<lparr>guild_objs := y\<rparr>)"
  "chan_step s (s\<lparr>guilds := z\<rparr>)" "chan_step s (s\<lparr>emojis := w\<rparr>)"
  "chan_step s (s\<lparr>member_objs := v\<rparr>)"
  by (auto simp: chan_step_def cache_step_def lru_step_refl bot_step_def bot_inv_def bot_users_def
      split: option.splits)

lemma get_channel_by_id_chan_step: "chan_step s (snd (get_channel_by_id s k))"
  using lru_get_step [of "dm_channels s" k]
  by (auto simp: get_channel_by_id_def chan_step_refl chan_step_dm split: option.splits prod.splits)

lemma parse_channel_chan_step: "chan_step s (snd (parse_channel s p g))"
proof (cases "get_int p ''id''")
  case (Inl e)
  then show ?thesis by (simp add: parse_channel_def chan_step_refl)
next
  case (Inr cid)
  obtain found s1 where g1: "get_channel_by_id s cid = (found, s1)"
    by (cases "get_channel_by_id s cid")
  have a: "chan_step s s1" using get_channel_by_id_chan_step [of s cid] g1 by simp
  define q where "q = (case g of None \<Rightarrow> p
      | Some g' \<Rightarrow> dict_set p ''guild_id'' (PInt (g_id (guild_objs s1 g'))))"
  show ?thesis
  proof (cases found)
    case (Some c)
    have "chan_step s1 (snd (update_state c q s1))" by (rule update_state_chan_step)
    from chan_step_trans [OF a this] show ?thesis
      using Inr g1 Some
      by (auto simp: parse_channel_def Let_def q_def split: prod.splits option.splits)
  next
    case None
    obtain r s2 where c: "channels_parse_channel q s1 = (r, s2)"
      by (cases "channels_parse_channel q s1")
    have "chan_step s1 s2" using channels_parse_channel_chan_step [of s1 q] c by simp
    from chan_step_trans [OF a this] have b: "chan_step s s2" .
    have d: "chan_step s2 (s2\<lparr>dm_channels := lru_put (dm_channels s2) cid x\<rparr>)" for x
      by (rule chan_step_dm) (rule lru_put_step)
    have e: "chan_step s2 (s2\<lparr>guild_channels := x\<rparr>)" for x
      by (rule chan_step_misc)
    have f: "chan_step s2 (guild_set_channel (s2\<lparr>guild_channels := x\<rparr>) gg cid y)" for x gg y
      unfolding guild_set_channel_def
      by (rule chan_step_trans [OF e [of x]]) (rule chan_step_misc)
    show ?thesis
      using Inr g1 None c b chan_step_trans [OF b d] chan_step_trans [OF b e] chan_step_trans [OF b f]
      by (auto simp: parse_channel_def Let_def q_def [symmetric]
          split: prod.splits option.splits sum.splits bool.splits)
  qed
qed

lemma chan_stepI:
  "user s' = user s \<Longrightarrow> user_objs s' = user_objs s \<Longrightarrow> next_addr s \<le> next_addr s' \<Longrightarrow>
   lru_step (message_cache s) (message_cache s') \<Longrightarrow> lru_step (dm_channels s) (dm_channels s') \<Longrightarrow>
   message_objs s' = message_objs s \<Longrightarrow> reaction_objs s' = reaction_objs s \<Longrightarrow> chan_step s s'"
  by (simp add: chan_step_def cache_step_def users_kept_bot_step)

lemma suppress_KeyError_snd [simp]: "snd (suppress_KeyError x) = snd x"
  by (cases x rule: suppress_KeyError.cases) simp_all

lemma strip_role_fields:
  "user (strip_role s r ms) = user s \<and> user_objs (strip_role s r ms) = user_objs s
   \<and> next_addr (strip_role s r ms) = next_addr s
   \<and> message_cache (strip_role s r ms) = message_cache s
   \<and> dm_channels (strip_role s r ms) = dm_channels s
   \<and> message_objs (strip_role s r ms) = message_objs s
   \<and> reaction_objs (strip_role s r ms) = reaction_objs s"
  by (induction ms arbitrary: s) auto

lemma delete_channel_chan_step: "chan_step s (snd (delete_channel s c))"
  using lru_remove_step [of "dm_channels s"]
  by (intro chan_stepI)
     (auto simp: delete_channel_def Let_def lru_step_refl split: sum.splits option.splits)

lemma del_emoji_index_kept: "kept s (snd (del_emoji_index s e))"
  by (auto simp: del_emoji_index_def kept_def split: sum.splits option.splits)

lemma del_guild_emoji_kept: "kept s (snd (del_guild_emoji s g e))"
  by (auto simp: del_guild_emoji_def kept_def split: sum.splits option.splits)

lemma delete_emoji_chan_step: "chan_step s (snd (delete_emoji s e))"
proof -
  obtain r s1 where a: "suppress_KeyError (del_emoji_index s e) = (r, s1)"
    by (cases "suppress_KeyError (del_emoji_index s e)")
  then have "s1 = snd (del_emoji_index s e)"
    by (metis snd_conv suppress_KeyError_snd)
  then have k1: "kept s s1" by (simp add: del_emoji_index_kept)
  have k2: "kept s1 (snd (suppress_KeyError (del_guild_emoji s1 g e)))" for g
    by (simp add: del_guild_emoji_kept)
  have "kept s (snd (delete_emoji s e))"
    using a k1 kept_trans [OF k1 k2]
    by (auto simp: delete_emoji_def split: option.splits sum.splits)
  then show ?thesis by (rule kept_chan_step)
qed

lemma delete_guild_chan_step: "chan_step s (snd (delete_guild s g))"
  by (intro chan_stepI) (auto simp: delete_guild_def lru_step_refl split: sum.splits)

lemma delete_message_chan_step: "chan_step s (snd (delete_message s m))"
proof -
  have "lru_step (message_cache s) (message_cache (snd (delete_message s m)))"
    using lru_get_step [of "message_cache s" "msg_id (message_objs s m)"]
    by (auto simp: delete_message_def lru_step_refl split: prod.splits option.splits
        intro: lru_step_trans lru_remove_step)
  then show ?thesis
    by (intro chan_stepI)
       (auto simp: delete_message_def lru_step_refl split: prod.splits option.splits)
qed

lemma delete_member_chan_step: "chan_step s (snd (delete_member s m))"
  by (intro chan_stepI) (auto simp: delete_member_def Let_def lru_step_refl split: sum.splits)

lemma delete_role_chan_step: "chan_step s (snd (delete_role s r))"
  by (intro chan_stepI)
     (auto simp: delete_role_def Let_def lru_step_refl strip_role_fields
       split: sum.splits option.splits)

lemma get_message_by_id_chan_step: "chan_step s (snd (get_message_by_id s k))"
  using lru_get_step [of "message_cache s" k]
  by (intro chan_stepI) (auto simp: get_message_by_id_def lru_step_refl split: prod.splits)

lemma parse_bot_user_chan_step: "chan_step s (snd (parse_bot_user s p))"
proof -
  have "message_objs (snd (parse_bot_user s p)) = message_objs s
      \<and> reaction_objs (snd (parse_bot_user s p)) = reaction_objs s
      \<and> message_cache (snd (parse_bot_user s p)) = message_cache s
      \<and> dm_channels (snd (parse_bot_user s p)) = dm_channels s"
    by (auto simp: parse_bot_user_def new_user_def user_update_state_def
        split: sum.splits option.splits prod.splits)
  then show ?thesis by (simp add: chan_step_def parse_bot_user_bot_step cache_stepI)
qed

lemma parse_emoji_chan_step: "chan_step s (snd (parse_emoji s p g))"
  by (intro chan_stepI)
     (auto simp: parse_emoji_def new_emoji_def emoji_update_state_def guild_set_emoji_def Let_def
       lru_step_refl split: sum.splits option.splits prod.splits pyval.splits)

lemma parse_guild_chan_step: "chan_step s (snd (parse_guild s p))"
  by (intro chan_stepI)
     (auto simp: parse_guild_def new_guild_def guild_update_state_def set_guild_unavailability_def
       lru_step_refl split: sum.splits option.splits prod.splits)

lemma parse_member_chan_step: "chan_step s (snd (parse_member s p g))"
  by (intro chan_stepI)
     (auto simp: parse_member_def new_member_def member_update_state_def guild_set_member_def
       lru_step_refl split: sum.splits option.splits prod.splits)

lemma parse_role_chan_step: "chan_step s (snd (parse_role s p g))"
  by (intro chan_stepI)
     (auto simp: parse_role_def new_role_def role_update_state_def guild_set_role_def
       lru_step_refl split: sum.splits option.splits prod.splits)

lemma set_guild_unavailability_chan_step: "chan_step s (set_guild_unavailability s g b)"
  by (intro chan_stepI) (auto simp: set_guild_unavailability_def lru_step_refl)

lemma set_roles_for_member_chan_step: "chan_step s (set_roles_for_member s rs m)"
  by (intro chan_stepI) (auto simp: set_roles_for_member_def lru_step_refl)

lemma update_channel_chan_step: "chan_step s (snd (update_channel s p))"
proof (cases "get_int p ''id''")
  case (Inl e)
  then show ?thesis by (simp add: update_channel_def chan_step_refl)
next
  case (Inr k)
  obtain found s1 where g: "get_channel_by_id s k = (found, s1)"
    by (cases "get_channel_by_id s k")
  have a: "chan_step s s1" using get_channel_by_id_chan_step [of s k] g by simp
  show ?thesis
  proof (cases found)
    case None
    with Inr g a show ?thesis by (simp add: update_channel_def)
  next
    case (Some c)
    obtain r s2 where u: "update_state c p s1 = (r, s2)" by (cases "update_state c p s1")
    have "chan_step s1 s2" using update_state_chan_step [of s1 c p] u by simp
    from chan_step_trans [OF a this] Inr g Some u show ?thesis
      by (simp add: update_channel_def Let_def split: option.splits)
  qed
qed

lemma update_guild_chan_step: "chan_step s (snd (update_guild s p))"
  by (intro chan_stepI)
     (auto simp: update_guild_def guild_update_state_def set_guild_unavailability_def
       lru_step_refl split: sum.splits option.splits prod.splits)

lemma parse_emoji_list_chan_step: "chan_step s (snd (parse_emoji_list s ps g))"
proof (induction ps arbitrary: s)
  case Nil
  show ?case by (simp add: chan_step_refl)
next
  case (Cons p ps)
  obtain r s1 where pe: "parse_emoji s p (Some g) = (r, s1)" by (cases "parse_emoji s p (Some g)")
  have a: "chan_step s s1" using parse_emoji_chan_step [of s p "Some g"] pe by simp
  show ?case
  proof (cases r)
    case (Inl e)
    with pe a show ?thesis by simp
  next
    case (Inr x)
    obtain r2 s2 where pl: "parse_emoji_list s1 ps g = (r2, s2)"
      by (cases "parse_emoji_list s1 ps g")
    have "chan_step s1 s2" using Cons.IH [of s1] pl by simp
    from chan_step_trans [OF a this] pe Inr pl show ?thesis
      by (cases r2) simp_all
  qed
qed

lemma update_guild_emojis_chan_step: "chan_step s (snd (update_guild_emojis s ps g order))"
proof -
  obtain r s1 where pl: "parse_emoji_list s ps g = (r, s1)" by (cases "parse_emoji_list s ps g")
  have a: "chan_step s s1" using parse_emoji_list_chan_step [of s ps g] pl by simp
  have "chan_step s1 (s1\<lparr>guild_objs := y\<rparr>)" for y by (rule chan_step_misc)
  from chan_step_trans [OF a this] a pl show ?thesis
    by (simp add: update_guild_emojis_def Let_def split: sum.splits)
qed

lemma update_member_chan_step: "chan_step s (snd (update_member s m rs n))"
  by (intro chan_stepI) (auto simp: update_member_def member_update_state_def lru_step_refl)

lemma parse_presence_chan_step: "chan_step s (snd (parse_presence s m p))"
  by (intro chan_stepI) (auto simp: parse_presence_def lru_step_refl)

lemma update_member_presence_chan_step: "chan_step s (snd (update_member_presence s m p))"
  by (intro chan_stepI) (auto simp: update_member_presence_def parse_presence_def lru_step_refl)

lemma update_role_chan_step: "chan_step s (snd (update_role s g p))"
  by (intro chan_stepI)
     (auto simp: update_role_def role_update_state_def lru_step_refl
       split: sum.splits option.splits prod.splits)

lemma set_last_pinned_timestamp_chan_step: "chan_step s (set_last_pinned_timestamp s c t)"
  by (simp add: set_last_pinned_timestamp_def chan_step_refl)

lemma reaction_step_refl: "reaction_step positive s s"
  by (simp add: reaction_step_def)

lemma reaction_step_trans: "reaction_step positive a b \<Longrightarrow> reaction_step positive b c \<Longrightarrow> reaction_step positive a c"
  by (auto simp: reaction_step_def)

lemma reaction_stepI:
  assumes "\<And>m. msg_reactions (message_objs s' m) = msg_reactions (message_objs s m)"
    and "reaction_objs s' = reaction_objs s" and "next_addr s \<le> next_addr s'"
  shows "reaction_step positive s s'"
  using assms by (fastforce simp: reaction_step_def reaction_inv_def unlisted_def)

lemma chan_step_reaction_step: "chan_step s s' \<Longrightarrow> reaction_step positive s s'"
  by (rule reaction_stepI) (simp_all add: chan_step_def bot_step_def)

lemma set_count_listed:
  assumes l: "r \<in> set (msg_reactions (message_objs s m))" and c: "positive \<Longrightarrow> 1 \<le> c"
  shows "reaction_step positive s (set_count s r c)"
  unfolding reaction_step_def
proof (intro conjI impI allI)
  assume inv: "reaction_inv positive s"
  show "reaction_inv positive (set_count s r c)"
    unfolding reaction_inv_def
  proof (intro allI conjI ballI)
    fix m'
    show "distinct (msg_reactions (message_objs (set_count s r c) m'))"
      using inv by (simp add: reaction_inv_def set_count_def)
  next
    fix m' x
    assume "x \<in> set (msg_reactions (message_objs (set_count s r c) m'))"
    then have x: "x \<in> set (msg_reactions (message_objs s m'))"
      by (simp add: set_count_def)
    with inv have "rc_message (reaction_objs s x) = m'" "positive \<longrightarrow> 1 \<le> rc_count (reaction_objs s x)"
      "x < next_addr s"
      by (auto simp: reaction_inv_def)
    then show "rc_message (reaction_objs (set_count s r c) x) = m'"
      and "positive \<longrightarrow> 1 \<le> rc_count (reaction_objs (set_count s r c) x)"
      and "x < next_addr (set_count s r c)"
      using c by (auto simp: set_count_def)
  qed
next
  fix x assume u: "unlisted s x"
  with l have "x \<noteq> r" by (auto simp: unlisted_def)
  with u show "unlisted (set_count s r c) x"
    and "reaction_objs (set_count s r c) x = reaction_objs s x"
    by (auto simp: unlisted_def set_count_def)
qed

lemma new_reaction_step: "reaction_step positive s (snd (new_reaction s c e m))"
  by (fastforce simp: reaction_step_def reaction_inv_def unlisted_def new_reaction_def)

lemma new_reaction_appended:
  assumes "positive \<Longrightarrow> 1 \<le> c"
  shows "reaction_step positive s (append_reaction (snd (new_reaction s c e m)) m (next_addr s))"
  unfolding reaction_step_def
proof (intro conjI impI allI)
  assume inv: "reaction_inv positive s"
  show "reaction_inv positive (append_reaction (snd (new_reaction s c e m)) m (next_addr s))"
    unfolding reaction_inv_def
  proof (intro allI conjI ballI)
    fix m'
    show "distinct (msg_reactions (message_objs (append_reaction (snd (new_reaction s c e m)) m (next_addr s)) m'))"
      using inv by (fastforce simp: reaction_inv_def append_reaction_def new_reaction_def)
  next
    fix m' r
    assume "r \<in> set (msg_reactions (message_objs (append_reaction (snd (new_reaction s c e m)) m (next_addr s)) m'))"
    then have "(r = next_addr s \<and> m' = m) \<or> r \<in> set (msg_reactions (message_objs s m'))"
      by (auto simp: append_reaction_def new_reaction_def split: if_splits)
    then show "rc_message (reaction_objs (append_reaction (snd (new_reaction s c e m)) m (next_addr s)) r) = m'"
      and "positive \<longrightarrow> 1 \<le> rc_count (reaction_objs (append_reaction (snd (new_reaction s c e m)) m (next_addr s)) r)"
      and "r < next_addr (append_reaction (snd (new_reaction s c e m)) m (next_addr s))"
      using inv assms
      by (fastforce simp: reaction_inv_def append_reaction_def new_reaction_def)+
  qed
next
  fix r assume "unlisted s r"
  then show "unlisted (append_reaction (snd (new_reaction s c e m)) m (next_addr s)) r"
    and "reaction_objs (append_reaction (snd (new_reaction s c e m)) m (next_addr s)) r = reaction_objs s r"
    by (auto simp: unlisted_def append_reaction_def new_reaction_def)
qed

lemma set_count_listed':
  assumes l: "r \<in> set (msg_reactions (message_objs s m))"
    and c: "positive \<Longrightarrow> reaction_inv positive s \<Longrightarrow> 1 \<le> c"
  shows "reaction_step positive s (set_count s r c)"
proof (cases "reaction_inv positive s")
  case True
  with c have "positive \<Longrightarrow> 1 \<le> c" by simp
  from set_count_listed [OF l this] show ?thesis .
next
  case False
  have "\<And>x. unlisted s x \<Longrightarrow> x \<noteq> r" using l by (auto simp: unlisted_def)
  with False show ?thesis
    by (auto simp: reaction_step_def unlisted_def set_count_def)
qed

lemma removed_step:
  assumes l: "r \<in> set (msg_reactions (message_objs s m))"
  shows "reaction_step positive s (set_count (remove_reaction s m r) r c)"
  unfolding reaction_step_def
proof (intro conjI impI allI)
  let ?s' = "set_count (remove_reaction s m r) r c"
  assume inv: "reaction_inv positive s"
  have lists: "msg_reactions (message_objs ?s' m') =
      (if m' = m then remove1 r (msg_reactions (message_objs s m))
       else msg_reactions (message_objs s m'))" for m'
    by (simp add: set_count_def remove_reaction_def)
  have bref: "rc_message (reaction_objs s r) = m" using inv l by (auto simp: reaction_inv_def)
  show "reaction_inv positive ?s'"
    unfolding reaction_inv_def
  proof (intro allI conjI ballI)
    fix m'
    show "distinct (msg_reactions (message_objs ?s' m'))"
      using inv by (simp add: lists reaction_inv_def)
  next
    fix m' x
    assume "x \<in> set (msg_reactions (message_objs ?s' m'))"
    then have x: "x \<in> set (msg_reactions (message_objs s m'))" and ne: "x \<noteq> r"
      using inv bref by (auto simp: lists reaction_inv_def split: if_splits)
    with inv have "rc_message (reaction_objs s x) = m'" "positive \<longrightarrow> 1 \<le> rc_count (reaction_objs s x)"
      "x < next_addr s"
      by (auto simp: reaction_inv_def)
    with ne show "rc_message (reaction_objs ?s' x) = m'"
      and "positive \<longrightarrow> 1 \<le> rc_count (reaction_objs ?s' x)"
      and "x < next_addr ?s'"
      by (auto simp: set_count_def remove_reaction_def)
  qed
next
  let ?s' = "set_count (remove_reaction s m r) r c"
  fix x assume u: "unlisted s x"
  with l have "x \<noteq> r" by (auto simp: unlisted_def)
  moreover have "set (remove1 r xs) \<subseteq> set xs" for xs :: "addr list"
    by (rule set_remove1_subset)
  ultimately show "unlisted ?s' x" and "reaction_objs ?s' x = reaction_objs s x"
    using u by (auto simp: unlisted_def set_count_def remove_reaction_def dest: notin_set_remove1)
qed

lemma remove_set_count_commute:
  "remove_reaction (set_count s r c) m r = set_count (remove_reaction s m r) r c"
  by (simp add: set_count_def remove_reaction_def)

lemma decrement_loop_shape:
  "decrement_loop s m e rs = Some (r, s') \<Longrightarrow>
   r \<in> set rs \<and>
   s' = (if rc_count (reaction_objs s r) - 1 = 0
         then set_count (remove_reaction s m r) r 0
         else set_count s r (rc_count (reaction_objs s r) - 1))"
  by (induction rs)
     (auto simp: Let_def set_count_def remove_reaction_def split: if_splits)

lemma decrement_reaction_step: "reaction_step positive s (snd (decrement_reaction_count s m e))"
proof (cases "decrement_loop s m e (msg_reactions (message_objs s m))")
  case None
  then show ?thesis by (simp add: decrement_reaction_count_def reaction_step_refl)
next
  case (Some res)
  obtain r s' where res: "res = (r, s')" by (cases res)
  from decrement_loop_shape [OF Some [unfolded res]]
  have l: "r \<in> set (msg_reactions (message_objs s m))"
    and s': "s' = (if rc_count (reaction_objs s r) - 1 = 0
         then set_count (remove_reaction s m r) r 0
         else set_count s r (rc_count (reaction_objs s r) - 1))" by auto
  have "reaction_step positive s s'"
  proof (cases "rc_count (reaction_objs s r) - 1 = 0")
    case True
    with s' removed_step [OF l] show ?thesis by simp
  next
    case False
    have "positive \<Longrightarrow> reaction_inv positive s \<Longrightarrow> 1 \<le> rc_count (reaction_objs s r) - 1"
      using l False by (fastforce simp: reaction_inv_def)
    from set_count_listed' [OF l this] False s' show ?thesis by simp
  qed
  with Some res show ?thesis by (simp add: decrement_reaction_count_def)
qed

lemma increment_loop_shape:
  "increment_loop s e rs = Some (r, s') \<Longrightarrow>
   r \<in> set rs \<and> s' = set_count s r (rc_count (reaction_objs s r) + 1)"
  by (induction rs) (auto simp: set_count_def split: if_splits)

lemma increment_reaction_step: "reaction_step positive s (snd (increment_reaction_count s m e))"
proof (cases "increment_loop s e (msg_reactions (message_objs s m))")
  case None
  have "reaction_step positive s (append_reaction (snd (new_reaction s 1 e m)) m (next_addr s))"
    by (rule new_reaction_appended) simp
  with None show ?thesis
    by (simp add: increment_reaction_count_def new_reaction_def)
next
  case (Some res)
  obtain r s' where res: "res = (r, s')" by (cases res)
  from increment_loop_shape [OF Some [unfolded res]]
  have l: "r \<in> set (msg_reactions (message_objs s m))"
    and s': "s' = set_count s r (rc_count (reaction_objs s r) + 1)" by auto
  have "positive \<Longrightarrow> reaction_inv positive s \<Longrightarrow> 1 \<le> rc_count (reaction_objs s r) + 1"
    using l by (fastforce simp: reaction_inv_def)
  from set_count_listed' [OF l this] s' Some res show ?thesis
    by (simp add: increment_reaction_count_def)
qed

lemma delete_reaction_loop_shape:
  "delete_reaction_loop s m e rs = s \<or>
   (\<exists>r \<in> set rs. delete_reaction_loop s m e rs = set_count (remove_reaction s m r) r 0)"
  by (induction rs) auto

lemma delete_reaction_step: "reaction_step positive s (delete_reaction s m u e)"
  using delete_reaction_loop_shape [of s m e "msg_reactions (message_objs s m)"]
  by (auto simp: delete_reaction_def reaction_step_refl removed_step)

lemma fold_set_count_fields:
  "message_objs (fold (\<lambda>r s'. set_count s' r c) rs s) = message_objs s
   \<and> next_addr (fold (\<lambda>r s'. set_count s' r c) rs s) = next_addr s
   \<and> user (fold (\<lambda>r s'. set_count s' r c) rs s) = user s
   \<and> user_objs (fold (\<lambda>r s'. set_count s' r c) rs s) = user_objs s
   \<and> message_cache (fold (\<lambda>r s'. set_count s' r c) rs s) = message_cache s
   \<and> dm_channels (fold (\<lambda>r s'. set_count s' r c) rs s) = dm_channels s
   \<and> (\<forall>x. x \<notin> set rs \<longrightarrow>
          reaction_objs (fold (\<lambda>r s'. set_count s' r c) rs s) x = reaction_objs s x)
   \<and> (\<forall>x. rc_message (reaction_objs (fold (\<lambda>r s'. set_count s' r c) rs s) x)
          = rc_message (reaction_objs s x))"
  by (induction rs arbitrary: s) (auto simp: set_count_def)

lemma delete_all_reactions_step: "reaction_step positive s (delete_all_reactions s m)"
  unfolding reaction_step_def
proof (intro conjI impI allI)
  let ?rs = "msg_reactions (message_objs s m)"
  let ?s1 = "fold (\<lambda>r s'. set_count s' r 0) ?rs s"
  let ?s' = "delete_all_reactions s m"
  note f = fold_set_count_fields [of 0 ?rs s]
  have lists: "msg_reactions (message_objs ?s' m') =
      (if m' = m then [] else msg_reactions (message_objs s m'))" for m'
    using f by (simp add: delete_all_reactions_def Let_def)
  have objs: "reaction_objs ?s' = reaction_objs ?s1" and na: "next_addr ?s' = next_addr s"
    using f by (simp_all add: delete_all_reactions_def Let_def)
  {
    assume inv: "reaction_inv positive s"
    show "reaction_inv positive ?s'"
      unfolding reaction_inv_def
    proof (intro allI conjI ballI)
      fix m'
      show "distinct (msg_reactions (message_objs ?s' m'))"
        using inv by (simp add: lists reaction_inv_def)
    next
      fix m' x
      assume "x \<in> set (msg_reactions (message_objs ?s' m'))"
      then have x: "x \<in> set (msg_reactions (message_objs s m'))" and ne: "m' \<noteq> m"
        by (auto simp: lists split: if_splits)
      with inv have p: "rc_message (reaction_objs s x) = m'" "positive \<longrightarrow> 1 \<le> rc_count (reaction_objs s x)"
        "x < next_addr s"
        by (auto simp: reaction_inv_def)
      have "x \<notin> set ?rs"
      proof
        assume "x \<in> set ?rs"
        with inv have "rc_message (reaction_objs s x) = m" by (auto simp: reaction_inv_def)
        with p ne show False by simp
      qed
      with f have "reaction_objs ?s1 x = reaction_objs s x" by simp
      with p show "rc_message (reaction_objs ?s' x) = m'"
        and "positive \<longrightarrow> 1 \<le> rc_count (reaction_objs ?s' x)" and "x < next_addr ?s'"
        by (simp_all add: objs na)
    qed
  }
  fix x assume u: "unlisted s x"
  then have "x \<notin> set ?rs" by (simp add: unlisted_def)
  with f have "reaction_objs ?s1 x = reaction_objs s x" by simp
  with u show "unlisted ?s' x" and "reaction_objs ?s' x = reaction_objs s x"
    by (auto simp: unlisted_def lists objs na)
qed

lemma new_message_shape_step:
  assumes "message_objs s' = (message_objs s)(a := msg)" and "msg_reactions msg = []"
    and "reaction_objs s' = reaction_objs s" and "next_addr s \<le> next_addr s'"
  shows "reaction_step positive s s'"
  using assms
  by (fastforce simp: reaction_step_def reaction_inv_def unlisted_def)

lemma get_channel_by_id_fields:
  "get_channel_by_id s k = (r, s1) \<Longrightarrow>
   message_objs s1 = message_objs s \<and> reaction_objs s1 = reaction_objs s
   \<and> next_addr s1 = next_addr s \<and> user s1 = user s \<and> user_objs s1 = user_objs s
   \<and> message_cache s1 = message_cache s \<and> channel_objs s1 = channel_objs s
   \<and> lru_step (dm_channels s) (dm_channels s1)"
  using lru_get_step [of "dm_channels s" k]
  by (auto simp: get_channel_by_id_def lru_step_refl split: option.splits prod.splits)

lemma parse_message_steps:
  "reaction_step positive s (snd (parse_message s p)) \<and> cache_step s (snd (parse_message s p))
   \<and> user (snd (parse_message s p)) = user s \<and> user_objs (snd (parse_message s p)) = user_objs s
   \<and> next_addr s \<le> next_addr (snd (parse_message s p))"
proof (cases "get_int p ''id''")
  case (Inl e)
  then show ?thesis by (simp add: parse_message_def reaction_step_refl cache_step_refl)
next
  case i: (Inr mid)
  show ?thesis
  proof (cases "get_int p ''channel_id''")
    case (Inl e)
    with i show ?thesis by (simp add: parse_message_def reaction_step_refl cache_step_refl)
  next
    case c: (Inr cid)
    obtain found s1 where g: "get_channel_by_id s cid = (found, s1)"
      by (cases "get_channel_by_id s cid")
    note f = get_channel_by_id_fields [OF g]
    show ?thesis
    proof (cases found)
      case None
      with i c g have "snd (parse_message s p) = s1" by (simp add: parse_message_def)
      with f show ?thesis by (simp add: reaction_stepI cache_step_def lru_step_refl)
    next
      case (Some ch)
      note r = parse_message_resolved [OF i c g [unfolded Some]]
      show ?thesis
        unfolding r using f lru_put_step [of "message_cache s" mid "next_addr s"]
        by (auto simp: cache_step_def lru_step_refl
            intro!: new_message_shape_step [where a = "next_addr s"])
    qed
  qed
qed

lemma parse_reaction_loop_shape:
  "parse_reaction_loop s n rs = Some (r, s') \<Longrightarrow>
   r \<in> set rs \<and> s' = set_count s r (rc_count (reaction_objs s n))"
  by (induction rs) (auto split: if_splits)

lemma store_reaction_step:
  assumes "positive \<Longrightarrow> 1 \<le> c"
  shows "reaction_step positive s (store_reaction s c e m)"
proof -
  let ?s3 = "snd (new_reaction s c e m)"
  let ?n = "next_addr s"
  have nr: "new_reaction s c e m = (?n, ?s3)" by (simp add: new_reaction_def)
  show ?thesis
  proof (cases "parse_reaction_loop ?s3 ?n (msg_reactions (message_objs ?s3 m))")
    case None
    with new_reaction_appended [where positive = positive and c = c and s = s and e = e and m = m]
      assms show ?thesis
      by (simp add: store_reaction_def new_reaction_def)
  next
    case (Some res)
    obtain r s4 where res: "res = (r, s4)" by (cases res)
    from parse_reaction_loop_shape [OF Some [unfolded res]]
    have l: "r \<in> set (msg_reactions (message_objs ?s3 m))"
      and s4: "s4 = set_count ?s3 r (rc_count (reaction_objs ?s3 ?n))" by auto
    have "rc_count (reaction_objs ?s3 ?n) = c" by (simp add: new_reaction_def)
    with s4 set_count_listed [OF l assms] have "reaction_step positive ?s3 s4" by simp
    from reaction_step_trans [OF new_reaction_step this] Some res show ?thesis
      by (simp add: store_reaction_def new_reaction_def)
  qed
qed

lemma store_reaction_fields:
  "user (store_reaction s c e m) = user s \<and> user_objs (store_reaction s c e m) = user_objs s
   \<and> next_addr s \<le> next_addr (store_reaction s c e m)
   \<and> message_cache (store_reaction s c e m) = message_cache s
   \<and> dm_channels (store_reaction s c e m) = dm_channels s"
proof (cases "parse_reaction_loop (snd (new_reaction s c e m)) (next_addr s)
                (msg_reactions (message_objs (snd (new_reaction s c e m)) m))")
  case None
  then show ?thesis
    by (simp add: store_reaction_def new_reaction_def append_reaction_def)
next
  case (Some res)
  obtain r s4 where res: "res = (r, s4)" by (cases res)
  from parse_reaction_loop_shape [OF Some [unfolded res]] Some res show ?thesis
    by (simp add: store_reaction_def new_reaction_def set_count_def)
qed

lemma get_message_by_id_fields:
  "get_message_by_id s k = (r, s1) \<Longrightarrow>
   message_objs s1 = message_objs s \<and> reaction_objs s1 = reaction_objs s
   \<and> next_addr s1 = next_addr s \<and> user s1 = user s \<and> user_objs s1 = user_objs s
   \<and> dm_channels s1 = dm_channels s
   \<and> lru_step (message_cache s) (message_cache s1)"
  using lru_get_step [of "message_cache s" k]
  by (auto simp: get_message_by_id_def split: prod.splits)

lemma parse_reaction_snd:
  "(\<exists>s1. chan_step s s1 \<and> snd (parse_reaction s p) = s1)
   \<or> (\<exists>s2 c e m. chan_step s s2 \<and> get_int p ''count'' = Inr c \<and>
         snd (parse_reaction s p) = store_reaction s2 c e m)"
proof (cases "get_int p ''message_id''")
  case (Inl e)
  then show ?thesis by (simp add: parse_reaction_def chan_step_refl)
next
  case mi: (Inr k)
  obtain found s1 where g: "get_message_by_id s k = (found, s1)"
    by (cases "get_message_by_id s k")
  have a: "chan_step s s1"
    using get_message_by_id_fields [OF g] by (intro chan_stepI) (simp_all add: lru_step_refl)
  show ?thesis
  proof (cases "get_int p ''count''")
    case (Inl e)
    with mi g a show ?thesis by (simp add: parse_reaction_def)
  next
    case c: (Inr cnt)
    show ?thesis
    proof (cases "dict_item p ''emoji''")
      case (Inl e)
      with mi g a c show ?thesis by (simp add: parse_reaction_def)
    next
      case ev: (Inr v)
      obtain r s2 where pe: "parse_emoji s1 v None = (r, s2)" by (cases "parse_emoji s1 v None")
      have "chan_step s1 s2" using parse_emoji_chan_step [of s1 v None] pe by simp
      from chan_step_trans [OF a this] have b: "chan_step s s2" .
      show ?thesis
      proof (cases r)
        case (Inl e)
        with mi g c ev pe b show ?thesis by (simp add: parse_reaction_def)
      next
        case e: (Inr emoji_obj)
        show ?thesis
        proof (cases found)
          case None
          with mi g c ev pe b e show ?thesis by (simp add: parse_reaction_def)
        next
          case (Some m)
          have "snd (parse_reaction s p) = store_reaction s2 cnt emoji_obj m"
            using mi g c ev pe e Some
            by (simp add: parse_reaction_def store_reaction_def split: prod.splits option.splits)
          with b c show ?thesis by blast
        qed
      qed
    qed
  qed
qed

lemma chan_step_store_reaction:
  "chan_step s s2 \<Longrightarrow> bot_step s (store_reaction s2 c e m) \<and> cache_step s (store_reaction s2 c e m)"
proof -
  assume a: "chan_step s s2"
  note f = store_reaction_fields [of s2 c e m]
  have "bot_step s2 (store_reaction s2 c e m)" using f by (intro users_kept_bot_step) simp_all
  moreover have "cache_step s2 (store_reaction s2 c e m)" using f by (intro cache_stepI) simp_all
  ultimately show ?thesis
    using a by (auto simp: chan_step_def intro: bot_step_trans cache_step_trans)
qed

lemma parse_reaction_steps:
  "bot_step s (snd (parse_reaction s p)) \<and> cache_step s (snd (parse_reaction s p))
   \<and> ((positive \<longrightarrow> count_ok (ParseReaction p))
        \<longrightarrow> reaction_step positive s (snd (parse_reaction s p)))"
  using parse_reaction_snd [of s p]
proof (elim disjE exE conjE)
  fix s1 assume "chan_step s s1" "snd (parse_reaction s p) = s1"
  then show ?thesis by (simp add: chan_step_def chan_step_reaction_step)
next
  fix s2 c e m
  assume a: "chan_step s s2" and c: "get_int p ''count'' = Inr c"
    and s: "snd (parse_reaction s p) = store_reaction s2 c e m"
  have "reaction_step positive s (store_reaction s2 c e m)" if "positive \<Longrightarrow> 1 \<le> c"
    by (rule reaction_step_trans [OF chan_step_reaction_step [OF a] store_reaction_step [OF that]])
  with chan_step_store_reaction [OF a, of c e m] c s show ?thesis by simp
qed

lemma set_count_fields:
  "user (set_count s r c) = user s \<and> user_objs (set_count s r c) = user_objs s
   \<and> next_addr (set_count s r c) = next_addr s
   \<and> message_cache (set_count s r c) = message_cache s
   \<and> dm_channels (set_count s r c) = dm_channels s"
  by (simp add: set_count_def)

lemma remove_reaction_fields:
  "user (remove_reaction s m r) = user s \<and> user_objs (remove_reaction s m r) = user_objs s
   \<and> next_addr (remove_reaction s m r) = next_addr s
   \<and> message_cache (remove_reaction s m r) = message_cache s
   \<and> dm_channels (remove_reaction s m r) = dm_channels s"
  by (simp add: remove_reaction_def)

lemma outside_steps: "outside s s' \<Longrightarrow> bot_step s s' \<and> cache_step s s'"
  by (simp add: outside_def users_kept_bot_step cache_stepI)

lemma increment_outside: "outside s (snd (increment_reaction_count s m e))"
proof (cases "increment_loop s e (msg_reactions (message_objs s m))")
  case None
  then show ?thesis
    by (simp add: increment_reaction_count_def new_reaction_def append_reaction_def outside_def)
next
  case (Some res)
  obtain r s' where res: "res = (r, s')" by (cases res)
  from increment_loop_shape [OF Some [unfolded res]] Some res show ?thesis
    by (simp add: increment_reaction_count_def outside_def set_count_def)
qed

lemma decrement_outside: "outside s (snd (decrement_reaction_count s m e))"
proof (cases "decrement_loop s m e (msg_reactions (message_objs s m))")
  case None
  then show ?thesis by (simp add: decrement_reaction_count_def outside_def)
next
  case (Some res)
  obtain r s' where res: "res = (r, s')" by (cases res)
  from decrement_loop_shape [OF Some [unfolded res]] Some res show ?thesis
    by (auto simp: decrement_reaction_count_def outside_def set_count_def remove_reaction_def)
qed

lemma delete_reaction_outside: "outside s (delete_reaction s m u e)"
  using delete_reaction_loop_shape [of s m e "msg_reactions (message_objs s m)"]
  by (auto simp: delete_reaction_def outside_def set_count_def remove_reaction_def)

lemma delete_all_reactions_outside: "outside s (delete_all_reactions s m)"
  using fold_set_count_fields [of 0 "msg_reactions (message_objs s m)" s]
  by (simp add: delete_all_reactions_def Let_def outside_def)

lemma update_message_fields:
  "(\<forall>m. msg_reactions (message_objs (snd (update_message s p)) m)
          = msg_reactions (message_objs s m))
   \<and> reaction_objs (snd (update_message s p)) = reaction_objs s
   \<and> next_addr (snd (update_message s p)) = next_addr s
   \<and> user (snd (update_message s p)) = user s
   \<and> user_objs (snd (update_message s p)) = user_objs s
   \<and> dm_channels (snd (update_message s p)) = dm_channels s
   \<and> lru_step (message_cache s) (message_cache (snd (update_message s p)))"
  using lru_get_step [of "message_cache s" "projr (get_int p ''message_id'')"]
  by (auto simp: update_message_def message_update_state_def Let_def lru_step_refl
      split: sum.splits option.splits prod.splits)

lemma update_message_steps:
  "bot_step s (snd (update_message s p)) \<and> cache_step s (snd (update_message s p))
   \<and> reaction_step positive s (snd (update_message s p))"
  using update_message_fields [of s p]
  by (simp add: users_kept_bot_step cache_step_def lru_step_refl reaction_stepI)

lemma apply_op_bot_step: "bot_step s (apply_op s op)"
proof (cases op)
  case (ParseMessage p)
  with parse_message_steps [where s = s and p = p and positive = True] show ?thesis
    by (simp add: users_kept_bot_step)
qed (simp_all add: increment_outside [THEN outside_steps] decrement_outside [THEN outside_steps]
      delete_reaction_outside [THEN outside_steps] delete_all_reactions_outside [THEN outside_steps]
      parse_reaction_steps delete_channel_chan_step [unfolded chan_step_def]
      delete_emoji_chan_step [unfolded chan_step_def] delete_guild_chan_step [unfolded chan_step_def]
      delete_message_chan_step [unfolded chan_step_def] delete_member_chan_step [unfolded chan_step_def]
      delete_role_chan_step [unfolded chan_step_def] get_channel_by_id_chan_step [unfolded chan_step_def]
      get_message_by_id_chan_step [unfolded chan_step_def] parse_bot_user_bot_step
      parse_channel_chan_step [unfolded chan_step_def] parse_emoji_chan_step [unfolded chan_step_def]
      parse_guild_chan_step [unfolded chan_step_def] parse_member_chan_step [unfolded chan_step_def]
      parse_role_chan_step [unfolded chan_step_def] parse_user_bot_step
      set_guild_unavailability_chan_step [unfolded chan_step_def]
      set_roles_for_member_chan_step [unfolded chan_step_def]
      parse_presence_chan_step [unfolded chan_step_def]
      set_last_pinned_timestamp_chan_step [unfolded chan_step_def]
      update_channel_chan_step [unfolded chan_step_def]
      update_guild_chan_step [unfolded chan_step_def]
      update_guild_emojis_chan_step [unfolded chan_step_def]
      update_member_chan_step [unfolded chan_step_def]
      update_member_presence_chan_step [unfolded chan_step_def]
      update_role_chan_step [unfolded chan_step_def] update_message_steps)

lemma apply_op_cache_step: "cache_step s (apply_op s op)"
proof (cases op)
  case (ParseMessage p)
  with parse_message_steps [where s = s and p = p and positive = True] show ?thesis by simp
qed (simp_all add: increment_outside [THEN outside_steps] decrement_outside [THEN outside_steps]
      delete_reaction_outside [THEN outside_steps] delete_all_reactions_outside [THEN outside_steps]
      parse_reaction_steps delete_channel_chan_step [unfolded chan_step_def]
      delete_emoji_chan_step [unfolded chan_step_def] delete_guild_chan_step [unfolded chan_step_def]
      delete_message_chan_step [unfolded chan_step_def] delete_member_chan_step [unfolded chan_step_def]
      delete_role_chan_step [unfolded chan_step_def] get_channel_by_id_chan_step [unfolded chan_step_def]
      get_message_by_id_chan_step [unfolded chan_step_def] parse_bot_user_chan_step [unfolded chan_step_def]
      parse_channel_chan_step [unfolded chan_step_def] parse_emoji_chan_step [unfolded chan_step_def]
      parse_guild_chan_step [unfolded chan_step_def] parse_member_chan_step [unfolded chan_step_def]
      parse_role_chan_step [unfolded chan_step_def] parse_user_chan_step [unfolded chan_step_def]
      set_guild_unavailability_chan_step [unfolded chan_step_def]
      set_roles_for_member_chan_step [unfolded chan_step_def]
      parse_presence_chan_step [unfolded chan_step_def]
      set_last_pinned_timestamp_chan_step [unfolded chan_step_def]
      update_channel_chan_step [unfolded chan_step_def]
      update_guild_chan_step [unfolded chan_step_def]
      update_guild_emojis_chan_step [unfolded chan_step_def]
      update_member_chan_step [unfolded chan_step_def]
      update_member_presence_chan_step [unfolded chan_step_def]
      update_role_chan_step [unfolded chan_step_def] update_message_steps)

lemma apply_op_reaction_step:
  "(positive \<Longrightarrow> count_ok op) \<Longrightarrow> reaction_step positive s (apply_op s op)"
proof (cases op)
  case (ParseMessage p)
  with parse_message_steps [where s = s and p = p and positive = positive] show ?thesis by simp
next
  case (ParseReaction p)
  assume "positive \<Longrightarrow> count_ok op"
  with ParseReaction parse_reaction_steps [of s p positive] show ?thesis by auto
qed (simp_all add: increment_reaction_step decrement_reaction_step delete_reaction_step
      delete_all_reactions_step
      delete_channel_chan_step [THEN chan_step_reaction_step]
      delete_emoji_chan_step [THEN chan_step_reaction_step]
      delete_guild_chan_step [THEN chan_step_reaction_step]
      delete_message_chan_step [THEN chan_step_reaction_step]
      delete_member_chan_step [THEN chan_step_reaction_step]
      delete_role_chan_step [THEN chan_step_reaction_step]
      get_channel_by_id_chan_step [THEN chan_step_reaction_step]
      get_message_by_id_chan_step [THEN chan_step_reaction_step]
      parse_bot_user_chan_step [THEN chan_step_reaction_step]
      parse_channel_chan_step [THEN chan_step_reaction_step]
      parse_emoji_chan_step [THEN chan_step_reaction_step]
      parse_guild_chan_step [THEN chan_step_reaction_step]
      parse_member_chan_step [THEN chan_step_reaction_step]
      parse_role_chan_step [THEN chan_step_reaction_step]
      parse_user_chan_step [THEN chan_step_reaction_step]
      set_guild_unavailability_chan_step [THEN chan_step_reaction_step]
      set_roles_for_member_chan_step [THEN chan_step_reaction_step]
      parse_presence_chan_step [THEN chan_step_reaction_step]
      set_last_pinned_timestamp_chan_step [THEN chan_step_reaction_step]
      update_channel_chan_step [THEN chan_step_reaction_step]
      update_guild_chan_step [THEN chan_step_reaction_step]
      update_guild_emojis_chan_step [THEN chan_step_reaction_step]
      update_member_chan_step [THEN chan_step_reaction_step]
      update_member_presence_chan_step [THEN chan_step_reaction_step]
      update_role_chan_step [THEN chan_step_reaction_step] update_message_steps)

lemma run_bot_step: "bot_step s (run s ops)"
  unfolding run_def
  by (induction ops arbitrary: s)
     (auto simp: bot_step_refl intro: bot_step_trans [OF apply_op_bot_step])

lemma run_cache_step: "cache_step s (run s ops)"
  unfolding run_def
  by (induction ops arbitrary: s)
     (auto simp: cache_step_refl intro: cache_step_trans [OF apply_op_cache_step])

lemma run_reaction_step:
  "(positive \<Longrightarrow> list_all count_ok ops) \<Longrightarrow> reaction_step positive s (run s ops)"
  unfolding run_def
  by (induction ops arbitrary: s)
     (auto simp: reaction_step_refl intro: reaction_step_trans [OF apply_op_reaction_step])

section \<open>The bot user\<close>


lemmas eval_simps = int_simps get_int_def dict_item_def dict_get_def dict_contains_def dict_set_def
  dict_get_default_def empty_registry_def new_registry_def run_def Let_def
  get_channel_by_id_def get_message_by_id_def lru_get_def lru_put_def
  parse_user_def parse_bot_user_def new_user_def user_update_state_def get_user_by_id_def

lemma bot_eval:
  "user (run empty_registry bot_user_example) = Some 0
   \<and> u_data (user_objs (run empty_registry bot_user_example) 0) = bot_payload_example2
   \<and> next_addr (run empty_registry bot_user_example) = 2"
  by (simp add: eval_simps bot_user_example_def bot_payload_example_def bot_payload_example2_def
      user_payload_example_def)

text \<open>The message cache after the example sequence: the message looked up was kept.\<close>

lemma evict_eval:
  "map fst (entries (message_cache (run empty_registry eviction_example))) = [101, 103]"
  by (simp add: eval_simps eviction_example_def message_payload_of_def
      dm_channel_payload_example_def
      parse_channel_def channels_parse_channel_def channel_implementations_def new_channel_def
      set_attr_def update_state_def DMChannel_update_state_def set_recipients_def blank_channel_def
      is_channel_type_dm_def
      parse_message_def new_message_def message_channel_def set_last_message_id_def)

text \<open>The example sequence with the count \<open>-1\<close> leaves that count in the list of the message.\<close>

lemma neg_eval:
  "\<exists>m r. r \<in> set (msg_reactions (message_objs (run empty_registry negative_count_example) m))
     \<and> rc_count (reaction_objs (run empty_registry negative_count_example) r) = - 1"
  apply (rule exI [of _ "Suc 0"])
  apply (rule exI [of _ 3])
  apply (simp add: eval_simps negative_count_example_def dm_channel_payload_example_def
      message_payload_example_def negative_reaction_payload_example_def
      parse_channel_def channels_parse_channel_def channel_implementations_def new_channel_def
      set_attr_def update_state_def DMChannel_update_state_def set_recipients_def blank_channel_def
      is_channel_type_dm_def
      parse_message_def new_message_def message_channel_def set_last_message_id_def
      parse_reaction_def parse_emoji_def new_emoji_def new_reaction_def append_reaction_def)
  done

lemma init_bot_inv: "init a b = Inr s0 \<Longrightarrow> bot_inv s0 \<and> user s0 = None"
  by (auto simp: init_def lru_new_def new_registry_def bot_inv_def bot_users_def blank_user_def
      split: if_splits)

lemma parse_user_routed:
  assumes "get_int p ''id'' = Inr i"
    and "dict_contains p ''mfa_enabled'' \<or> dict_contains p ''verified''
         \<or> (\<exists>bu. user s = Some bu \<and> u_id (user_objs s bu) = i)"
  shows "parse_user s p = parse_bot_user s p"
  using assms by (auto simp: parse_user_def)

text \<open>
  Claim C8. From the registry as constructed, after any sequence of the modelled
  operations (calls of \<^verbatim>\<open>parse_user\<close> and \<^verbatim>\<open>parse_bot_user\<close> among them) the store holds
  at most one \<^verbatim>\<open>BotUser\<close> object, and it is the one the slot \<^verbatim>\<open>_user\<close> refers to; once
  the slot refers to an object, it refers to that object for ever. On a registry whose
  slot is set, \<^verbatim>\<open>parse_bot_user\<close> makes no object: it returns the object of the slot
  with its fields updated. A user payload whose id can be read and that has the key
  \<^verbatim>\<open>mfa_enabled\<close> or \<^verbatim>\<open>verified\<close>, or whose id is that of the object of the slot, is
  handled by \<^verbatim>\<open>parse_bot_user\<close>.
\<close>

theorem bot_user_singleton:
  assumes "init message_cache_size user_dm_channel_size = Inr s0"
  shows "card (bot_users (run s0 ops)) \<le> 1
     \<and> bot_users (run s0 ops) = set_option (user (run s0 ops))
     \<and> (\<forall>bu more. user (run s0 ops) = Some bu \<longrightarrow> user (run (run s0 ops) more) = Some bu)
     \<and> (\<forall>s bu p. user s = Some bu \<longrightarrow>
           parse_bot_user s p = (Inr bu, user_update_state s bu p)
           \<and> user (user_update_state s bu p) = Some bu
           \<and> next_addr (user_update_state s bu p) = next_addr s)
     \<and> (\<forall>s p i. get_int p ''id'' = Inr i
           \<and> (dict_contains p ''mfa_enabled'' \<or> dict_contains p ''verified''
                \<or> (\<exists>bu. user s = Some bu \<and> u_id (user_objs s bu) = i)) \<longrightarrow>
           parse_user s p = parse_bot_user s p)"
proof -
  from init_bot_inv [OF assms] run_bot_step [of s0 ops]
  have inv: "bot_inv (run s0 ops)" by (simp add: bot_step_def)
  then have eq: "bot_users (run s0 ops) = set_option (user (run s0 ops))"
    by (simp add: bot_inv_def)
  have "card (set_option (user (run s0 ops))) \<le> 1"
    by (cases "user (run s0 ops)") simp_all
  with eq have c: "card (bot_users (run s0 ops)) \<le> 1" by simp
  have k: "\<forall>bu more. user (run s0 ops) = Some bu \<longrightarrow> user (run (run s0 ops) more) = Some bu"
    using run_bot_step by (auto simp: bot_step_def)
  have u: "\<forall>s bu p. user s = Some bu \<longrightarrow>
           parse_bot_user s p = (Inr bu, user_update_state s bu p)
           \<and> user (user_update_state s bu p) = Some bu
           \<and> next_addr (user_update_state s bu p) = next_addr s"
    by (simp add: parse_bot_user_def user_update_state_def)
  have r: "\<forall>s p i. get_int p ''id'' = Inr i
           \<and> (dict_contains p ''mfa_enabled'' \<or> dict_contains p ''verified''
                \<or> (\<exists>bu. user s = Some bu \<and> u_id (user_objs s bu) = i)) \<longrightarrow>
           parse_user s p = parse_bot_user s p"
    using parse_user_routed by blast
  from c eq k u r show ?thesis by blast
qed

text \<open>The three example calls make one bot user, object 0, and update it in place.\<close>

theorem bot_user_singleton_witness:
  "init 2 2 = Inr empty_registry
   \<and> user (run empty_registry bot_user_example) = Some 0
   \<and> bot_users (run empty_registry bot_user_example) = {0}
   \<and> card (bot_users (run empty_registry bot_user_example)) \<le> 1
   \<and> u_data (user_objs (run empty_registry bot_user_example) 0) = bot_payload_example2
   \<and> next_addr (run empty_registry bot_user_example) = 2"
proof -
  have i: "init 2 2 = Inr empty_registry" by (rule init_example)
  note t = bot_user_singleton [OF i, of bot_user_example]
  from t bot_eval i show ?thesis by simp
qed

section \<open>The bounded indices\<close>

lemma init_caches:
  "init a b = Inr s0 \<Longrightarrow>
   within_capacity (message_cache s0) \<and> capacity (message_cache s0) = nat a \<and> 0 < a
   \<and> within_capacity (dm_channels s0) \<and> capacity (dm_channels s0) = nat b \<and> 0 < b"
  by (auto simp: init_def lru_new_def new_registry_def within_capacity_def split: if_splits)

lemma lru_put_evicts:
  assumes "length (entries c) = capacity c" and "0 < capacity c" and "map_of (entries c) k = None"
  shows "entries (lru_put c k v) = tl (entries c) @ [(k, v)]"
proof -
  from assms(3) have "k \<notin> fst ` set (entries c)" by (simp add: map_of_eq_None_iff)
  then have d: "AList.delete k (entries c) = entries c" by simp
  from assms(1,2) have "entries c \<noteq> []" by auto
  with assms(1) d show ?thesis by (simp add: lru_put_def Let_def)
qed

lemma lru_put_refreshes:
  assumes "within_capacity c" and "map_of (entries c) k \<noteq> None"
  shows "entries (lru_put c k v) = AList.delete k (entries c) @ [(k, v)]"
proof -
  from assms(2) obtain w where "map_of (entries c) k = Some w" by auto
  from length_delete_less [OF this] assms(1) show ?thesis
    by (simp add: lru_put_def Let_def within_capacity_def)
qed

text \<open>
  Claim C4. From the registry as constructed with the two capacities, after any
  sequence of the modelled operations the message cache and the index of
  direct-message channels each hold at most as many entries as their capacity, which
  is the positive number given at construction. An index keeps its entries least
  recently used first: putting a new key into a full index drops exactly the first
  entry and adds the new one last; putting a key that is present, and getting it, move
  it to the last place and drop nothing.
\<close>

theorem bounded_caches:
  assumes "init message_cache_size user_dm_channel_size = Inr s0"
  shows "length (entries (message_cache (run s0 ops))) \<le> capacity (message_cache (run s0 ops))
     \<and> capacity (message_cache (run s0 ops)) = nat message_cache_size
     \<and> 0 < message_cache_size
     \<and> length (entries (dm_channels (run s0 ops))) \<le> capacity (dm_channels (run s0 ops))
     \<and> capacity (dm_channels (run s0 ops)) = nat user_dm_channel_size
     \<and> 0 < user_dm_channel_size
     \<and> (\<forall>c k v. length (entries c) = capacity c \<and> 0 < capacity c \<and> map_of (entries c) k = None
           \<longrightarrow> entries (lru_put c k v) = tl (entries c) @ [(k, v)])
     \<and> (\<forall>c k v. within_capacity c \<and> map_of (entries c) k \<noteq> None
           \<longrightarrow> entries (lru_put c k v) = AList.delete k (entries c) @ [(k, v)])
     \<and> (\<forall>c k v. map_of (entries c) k = Some v
           \<longrightarrow> lru_get c k = (Some v, c\<lparr>entries := AList.delete k (entries c) @ [(k, v)]\<rparr>))"
proof -
  note i = init_caches [OF assms]
  from run_cache_step [of s0 ops] i
  have "within_capacity (message_cache (run s0 ops))"
    "capacity (message_cache (run s0 ops)) = nat message_cache_size"
    "within_capacity (dm_channels (run s0 ops))"
    "capacity (dm_channels (run s0 ops)) = nat user_dm_channel_size"
    by (simp_all add: cache_step_def lru_step_def)
  with i show ?thesis
    by (simp add: within_capacity_def lru_put_evicts lru_put_refreshes lru_get_def)
qed

text \<open>
  With capacity 2: after the messages 101 and 102, a lookup of 101 and the message 103,
  the cache holds 101 and 103. On an index holding the keys 1 and 2, putting 3 leaves 2
  and 3; getting 1 first leaves 1 and 3.
\<close>

theorem bounded_caches_witness:
  "init 2 2 = Inr empty_registry
   \<and> length (entries (message_cache (run empty_registry eviction_example))) \<le> 2
   \<and> map fst (entries (message_cache (run empty_registry eviction_example))) = [101, 103]
   \<and> entries (lru_put \<lparr>capacity = 2, entries = [(1, 5), (2, 6)]\<rparr> 3 7) = [(2, 6), (3, 7)]
   \<and> entries (lru_put (snd (lru_get \<lparr>capacity = 2, entries = [(1, 5), (2, 6)]\<rparr> 1)) 3 7)
        = [(1, 5), (3, 7)]"
proof -
  have i: "init 2 2 = Inr empty_registry" by (rule init_example)
  note t = bounded_caches [OF i, of eviction_example]
  have a: "length (entries (message_cache (run empty_registry eviction_example))) \<le> 2"
    using t by simp
  let ?c = "\<lparr>capacity = 2, entries = [(1, 5), (2, 6)]\<rparr>"
  have h: "length (entries ?c) = capacity ?c \<and> 0 < capacity ?c \<and> map_of (entries ?c) 3 = None"
    by simp
  from t have ev: "\<forall>c k v. length (entries c) = capacity c \<and> 0 < capacity c
        \<and> map_of (entries c) k = None
        \<longrightarrow> entries (lru_put c k v) = tl (entries c) @ [(k, v)]" by blast
  from ev [THEN spec, THEN spec, THEN spec, THEN mp, OF h]
  have b: "entries (lru_put ?c 3 7) = [(2, 6), (3, 7)]" by simp
  have c: "entries (lru_put (snd (lru_get ?c 1)) 3 7) = [(1, 5), (3, 7)]"
    by (simp add: lru_get_def lru_put_def)
  from i a b c evict_eval show ?thesis by simp
qed

section \<open>Reaction counts\<close>

lemma init_reaction_inv: "init a b = Inr s0 \<Longrightarrow> reaction_inv positive s0"
  by (auto simp: init_def lru_new_def new_registry_def reaction_inv_def blank_message_def
      split: if_splits)

lemma fold_set_count_in:
  "x \<in> set rs \<Longrightarrow> rc_count (reaction_objs (fold (\<lambda>r s'. set_count s' r c) rs s) x) = c"
proof (induction rs arbitrary: s)
  case Nil
  then show ?case by simp
next
  case (Cons r rs)
  show ?case
  proof (cases "x \<in> set rs")
    case True
    with Cons.IH show ?thesis by simp
  next
    case False
    with Cons.prems have "x = r" by simp
    with False fold_set_count_fields [of c rs "set_count s r c"] show ?thesis
      by (simp add: set_count_def)
  qed
qed

text \<open>A reaction taken out of the list of its message has the count 0 and is in no list.\<close>

lemma removed_has_count_zero:
  assumes inv: "reaction_inv False s" and op: "removes_from m op"
    and before: "r \<in> set (msg_reactions (message_objs s m))"
    and after: "r \<notin> set (msg_reactions (message_objs (apply_op s op) m))"
  shows "rc_count (reaction_objs (apply_op s op) r) = 0 \<and> unlisted (apply_op s op) r"
proof -
  let ?s' = "apply_op s op"
  have bref: "rc_message (reaction_objs s r) = m"
    using inv before by (auto simp: reaction_inv_def)
  have other: "r \<notin> set (msg_reactions (message_objs s m'))" if "m' \<noteq> m" for m'
  proof
    assume "r \<in> set (msg_reactions (message_objs s m'))"
    with inv have "rc_message (reaction_objs s r) = m'" by (auto simp: reaction_inv_def)
    with bref that show False by simp
  qed
  have alloc: "r < next_addr s" using inv before by (auto simp: reaction_inv_def)
  have "rc_count (reaction_objs ?s' r) = 0
      \<and> next_addr ?s' = next_addr s
      \<and> (\<forall>m'. m' \<noteq> m \<longrightarrow> message_objs ?s' m' = message_objs s m')"
  proof (cases op)
    case (DecrementReactionCount m' e)
    with op have m: "m' = m" by simp
    show ?thesis
    proof (cases "decrement_loop s m e (msg_reactions (message_objs s m))")
      case None
      with DecrementReactionCount m before after show ?thesis
        by (simp add: decrement_reaction_count_def)
    next
      case (Some res)
      obtain x s1 where res: "res = (x, s1)" by (cases res)
      from decrement_loop_shape [OF Some [unfolded res]] DecrementReactionCount m Some res
        before after
      show ?thesis
        by (auto simp: decrement_reaction_count_def set_count_def remove_reaction_def
            split: if_splits)
    qed
  next
    case (DeleteReaction m' u e)
    with op have m: "m' = m" by simp
    from delete_reaction_loop_shape [of s m e "msg_reactions (message_objs s m)"]
      DeleteReaction m before after
    show ?thesis
      by (auto simp: delete_reaction_def set_count_def remove_reaction_def split: if_splits)
  next
    case (DeleteAllReactions m')
    with op have m: "m' = m" by simp
    from fold_set_count_in [OF before, of 0 s]
      fold_set_count_fields [of 0 "msg_reactions (message_objs s m)" s]
      DeleteAllReactions m
    show ?thesis by (simp add: delete_all_reactions_def Let_def)
  qed (use op in simp_all)
  then have z: "rc_count (reaction_objs ?s' r) = 0" and na: "next_addr ?s' = next_addr s"
    and same: "\<And>m'. m' \<noteq> m \<Longrightarrow> message_objs ?s' m' = message_objs s m'"
    by simp_all
  have "r \<notin> set (msg_reactions (message_objs ?s' m'))" for m'
  proof (cases "m' = m")
    case True
    with after show ?thesis by simp
  next
    case False
    with other [OF False] same [OF False] show ?thesis by simp
  qed
  with z na alloc show ?thesis by (simp add: unlisted_def)
qed

text \<open>
  Claim C6 fails as stated: \<^verbatim>\<open>parse_reaction\<close> takes the count from the payload as it
  is. On the registry just constructed, after a channel and a message in it, a reaction
  payload with the count \<open>-1\<close> puts a reaction with the count \<open>-1\<close> into the list of
  the message.
\<close>

theorem negative_count_reachable:
  "init 2 2 = Inr empty_registry
   \<and> (\<exists>m r. r \<in> set (msg_reactions (message_objs (run empty_registry negative_count_example) m))
        \<and> rc_count (reaction_objs (run empty_registry negative_count_example) r) = - 1)"
  using init_example neg_eval by simp

text \<open>
  Claim C6, amended. From the registry as constructed, after any sequence \<open>ops\<close> of the
  operations, every reaction in the list of a message is there once, refers back to
  that message and has been allocated. If the reaction payloads in \<open>ops\<close> carry a count
  of at least 1, every reaction in the list of a message has a count of at least 1, so
  no count is negative. Whatever the payloads were: when \<^verbatim>\<open>decrement_reaction_count\<close>,
  \<^verbatim>\<open>delete_reaction\<close> or \<^verbatim>\<open>delete_all_reactions\<close> on a message then takes a reaction out
  of the list of that message, the count of that reaction is 0, and no later sequence
  of operations, on that message or another, changes the reaction object.
\<close>

theorem reaction_counts_positive:
  assumes "init message_cache_size user_dm_channel_size = Inr s0"
  shows "reaction_inv False (run s0 ops)
     \<and> (list_all count_ok ops \<longrightarrow>
          (\<forall>m r. r \<in> set (msg_reactions (message_objs (run s0 ops) m))
             \<longrightarrow> 1 \<le> rc_count (reaction_objs (run s0 ops) r)))
     \<and> (\<forall>op m r more.
           removes_from m op
           \<and> r \<in> set (msg_reactions (message_objs (run s0 ops) m))
           \<and> r \<notin> set (msg_reactions (message_objs (apply_op (run s0 ops) op) m))
           \<longrightarrow> rc_count (reaction_objs (apply_op (run s0 ops) op) r) = 0
             \<and> reaction_objs (run (apply_op (run s0 ops) op) more) r
                 = reaction_objs (apply_op (run s0 ops) op) r)"
proof -
  from init_reaction_inv [OF assms, of False] run_reaction_step [of False ops s0]
  have inv: "reaction_inv False (run s0 ops)" by (simp add: reaction_step_def)
  have pos: "\<forall>m r. r \<in> set (msg_reactions (message_objs (run s0 ops) m))
           \<longrightarrow> 1 \<le> rc_count (reaction_objs (run s0 ops) r)" if ok: "list_all count_ok ops"
  proof -
    from init_reaction_inv [OF assms, of True] run_reaction_step [of True ops s0] ok
    have "reaction_inv True (run s0 ops)" by (simp add: reaction_step_def)
    then show ?thesis by (auto simp: reaction_inv_def)
  qed
  have rem: "rc_count (reaction_objs (apply_op (run s0 ops) op) r) = 0
             \<and> reaction_objs (run (apply_op (run s0 ops) op) more) r
                 = reaction_objs (apply_op (run s0 ops) op) r"
    if "removes_from m op" "r \<in> set (msg_reactions (message_objs (run s0 ops) m))"
      "r \<notin> set (msg_reactions (message_objs (apply_op (run s0 ops) op) m))" for op m r more
  proof -
    from removed_has_count_zero [OF inv that]
    have z: "rc_count (reaction_objs (apply_op (run s0 ops) op) r) = 0"
      and u: "unlisted (apply_op (run s0 ops) op) r" by simp_all
    from run_reaction_step [of False more "apply_op (run s0 ops) op"] u z show ?thesis
      by (simp add: reaction_step_def)
  qed
  from inv pos rem show ?thesis by blast
qed

lemma reaction_run_eval:
  "msg_reactions (message_objs (run empty_registry reaction_run_example) 2) = [3]
   \<and> rc_count (reaction_objs (run empty_registry reaction_run_example) 3) = 1
   \<and> msg_reactions (message_objs
         (apply_op (run empty_registry reaction_run_example) (DecrementReactionCount 2 9)) 2) = []"
  by (simp add: eval_simps reaction_run_example_def dm_channel_payload_example_def
      user_payload_example_def message_payload_example_def
      parse_channel_def channels_parse_channel_def channel_implementations_def new_channel_def
      set_attr_def update_state_def DMChannel_update_state_def set_recipients_def blank_channel_def
      is_channel_type_dm_def blank_message_def
      parse_message_def new_message_def message_channel_def set_last_message_id_def
      increment_reaction_count_def new_reaction_def append_reaction_def
      decrement_reaction_count_def set_count_def remove_reaction_def)

text \<open>
  The example: the first reaction to the message has the count 1; the decrement takes
  it out of the list with the count 0, and two later increments for the same emoji
  make and raise a new reaction and leave the old one at 0.
\<close>

theorem reaction_counts_positive_witness:
  "init 2 2 = Inr empty_registry
   \<and> list_all count_ok reaction_run_example
   \<and> msg_reactions (message_objs (run empty_registry reaction_run_example) 2) = [3]
   \<and> 1 \<le> rc_count (reaction_objs (run empty_registry reaction_run_example) 3)
   \<and> msg_reactions (message_objs
         (apply_op (run empty_registry reaction_run_example) (DecrementReactionCount 2 9)) 2) = []
   \<and> rc_count (reaction_objs
         (apply_op (run empty_registry reaction_run_example) (DecrementReactionCount 2 9)) 3) = 0
   \<and> rc_count (reaction_objs
         (run (apply_op (run empty_registry reaction_run_example) (DecrementReactionCount 2 9))
            [IncrementReactionCount 2 9, IncrementReactionCount 2 9]) 3) = 0"
proof -
  have i: "init 2 2 = Inr empty_registry" by (rule init_example)
  have ok: "list_all count_ok reaction_run_example"
    by (simp add: reaction_run_example_def)
  note t = reaction_counts_positive [OF i, of reaction_run_example]
  note e = reaction_run_eval
  from t [THEN conjunct2, THEN conjunct1, THEN mp, OF ok]
  have p: "1 \<le> rc_count (reaction_objs (run empty_registry reaction_run_example) 3)"
    using e by simp
  have h: "removes_from 2 (DecrementReactionCount 2 9)
     \<and> 3 \<in> set (msg_reactions (message_objs (run empty_registry reaction_run_example) 2))
     \<and> 3 \<notin> set (msg_reactions (message_objs
           (apply_op (run empty_registry reaction_run_example) (DecrementReactionCount 2 9)) 2))"
    using e by simp
  from t [THEN conjunct2, THEN conjunct2, THEN spec, THEN spec, THEN spec, THEN spec,
      THEN mp, OF h]
  have z: "rc_count (reaction_objs
         (apply_op (run empty_registry reaction_run_example) (DecrementReactionCount 2 9)) 3) = 0"
    and k: "reaction_objs
         (run (apply_op (run empty_registry reaction_run_example) (DecrementReactionCount 2 9))
            [IncrementReactionCount 2 9, IncrementReactionCount 2 9]) 3
       = reaction_objs
         (apply_op (run empty_registry reaction_run_example) (DecrementReactionCount 2 9)) 3"
    by simp_all
  from i ok e p z k show ?thesis by simp
qed

end
